(* ===== verification/Jrpc_Prelude.thy ===== *)
theory Jrpc_Prelude
  imports Main "HOL-Library.Word" "HOL-Library.Monad_Syntax" "HOL-Library.Sublist"
begin

text \<open>
  The prelude of the development: the machine types of the C code, pointers and their
  dereference, buffers of bytes, and the collections of rules that the component theories
  share.

  The C functions become functions into \<open>'a option\<close>. The value \<^const>\<open>None\<close> means that
  the call has no defined result: a null or dangling pointer is dereferenced, a block is freed
  twice, memory is read before it is written, a store leaves its block, or the call does not
  return. A theorem that a call is \<open>Some\<close> of a state is therefore a statement of memory safety
  and of termination at the same time. Error returns that the C code does handle (a NULL result of
  an allocation, a request that is not JSON) are branches inside \<open>Some\<close>.
\<close>

section \<open>Machine types\<close>

text \<open>The LP64 data model: \<open>int\<close> has 32 bits, \<open>size_t\<close> and \<open>long long\<close> (jansson's
  \<open>json_int_t\<close>) have 64. A \<open>char\<close> is one byte.\<close>

type_synonym c_int = "32 word"
type_synonym size_t = "64 word"
type_synonym json_int_t = "64 word"

text \<open>Addresses of heap blocks; a pointer is an address or NULL.\<close>

type_synonym addr = nat
type_synonym ptr = "addr option"

abbreviation (input) NULL :: "'a option" where
  "NULL \<equiv> None"

text \<open>A \<open>char const *\<close> is NULL, a literal of the program, or the address of a string on the
  heap.\<close>

datatype char_const = Literal string | At addr

text \<open>\<open>deref h p\<close> is the object that \<open>p\<close> points to in the store \<open>h\<close>; it is undefined for
  NULL and for a dangling pointer.\<close>

definition deref :: "(addr \<rightharpoonup> 'a) \<Rightarrow> ptr \<Rightarrow> 'a option" where
  "deref h p = Option.bind p h"

lemma deref_simps [simp]:
  "deref h None = None"
  "deref h (Some a) = h a"
  by (simp_all add: deref_def)

section \<open>Collections of rules\<close>

text \<open>\<open>record_layers\<close> brings updates of fields of different layers of the state into the order of the
  layers, \<open>instance_defs\<close> unfolds the concrete environments of the examples.\<close>

named_theorems record_layers
named_theorems instance_defs

section \<open>Bytes of a block\<close>

text \<open>A buffer is a partial map from offsets to the bytes written so far. \<open>write_bytes\<close> is a
  \<open>memcpy\<close> into it and \<open>read_bytes\<close> reads a range, which fails on a byte that was never
  written.\<close>

type_synonym buffer = "nat \<rightharpoonup> char"

definition write_bytes :: "nat \<Rightarrow> char list \<Rightarrow> buffer \<Rightarrow> buffer" where
  "write_bytes off bs buf =
     (\<lambda>i. if off \<le> i \<and> i < off + length bs then Some (bs ! (i - off)) else buf i)"

definition read_bytes :: "nat \<Rightarrow> nat \<Rightarrow> buffer \<Rightarrow> char list option" where
  "read_bytes off n buf = those (map buf [off..<off + n])"

lemma those_map_Some: "(\<And>x. x \<in> set xs \<Longrightarrow> f x = Some (g x)) \<Longrightarrow> those (map f xs) = Some (map g xs)"
  by (induction xs) auto

lemma read_write_bytes [simp]:
  "n = length bs \<Longrightarrow> read_bytes off n (write_bytes off bs buf) = Some bs"
proof -
  assume n: "n = length bs"
  have "those (map (write_bytes off bs buf) [off..<off + n])
      = Some (map (\<lambda>i. bs ! (i - off)) [off..<off + n])"
    by (rule those_map_Some) (auto simp: write_bytes_def n)
  also have "map (\<lambda>i. bs ! (i - off)) [off..<off + n] = bs"
    by (rule nth_equalityI) (auto simp: n)
  finally show ?thesis by (simp add: read_bytes_def)
qed

section \<open>Words\<close>

lemma unat_add_no_overflow:
  "unat (a :: 64 word) + unat b < 2 ^ 64 \<Longrightarrow> unat (a + b) = unat a + unat b"
  by (simp add: unat_word_ariths)

end
