(* ===== verification/Jrpc_Env.thy ===== *)
theory Jrpc_Env
  imports Jrpc_Prelude
begin

text \<open>
  What the library takes from outside: the C allocator, the jansson JSON library and one constant
  of libwebsockets.

  \<^item> The allocator is part of the C library. \<open>clock\<close> counts the allocation requests made so far,
    \<open>oom n\<close> says whether request number \<open>n\<close> fails; both are arbitrary, so every theorem holds for
    every pattern of allocation failures. A block is named by the number of the request that
    made it, so addresses are never reused and a dangling pointer stays dangling.
  \<^item> jansson is third-party code. Its functions are the fields of the record \<open>env\<close>, over an
    arbitrary type \<open>'j\<close> of JSON values; the definitions that use it take the record as an argument.
    What jansson documents about them is the locale \<open>jansson\<close>; \<open>jansson_total\<close> adds that the
    allocations inside jansson succeed.
\<close>

section \<open>The allocator\<close>

record heap =
  clock :: nat
  oom :: "nat \<Rightarrow> bool"

definition malloc :: "('a heap_scheme) \<Rightarrow> ptr \<times> 'a heap_scheme" where
  "malloc w =
     ((if oom w (clock w) then NULL else Some (clock w)), w\<lparr>clock := Suc (clock w)\<rparr>)"

definition no_oom :: "'a heap_scheme \<Rightarrow> bool" where
  "no_oom w \<longleftrightarrow> (\<forall>n. \<not> oom w n)"

section \<open>The interface of jansson\<close>

text \<open>
  One field per jansson function that the sources call, with NULL as \<^const>\<open>None\<close>. A function
  that allocates inside jansson takes the number of the call as its first argument, so that it
  may fail on one call and succeed on the next. \<open>json_object_set_new\<close> gives the new content of
  the object. \<open>json_dumpb v n\<close> gives the size it returns and the bytes it stores in a
  buffer of \<open>n\<close> bytes. It is not numbered: the sources dump each value twice, first to measure and then to store, and
  the model takes the two calls to agree, so that either both fail (and an empty message is made) or none does; what
  becomes of a message when only the second one fails is \<open>second_dump_unchecked\<close> in \<open>Jrpc_Message\<close>. The flags argument is always \<open>JSON_COMPACT\<close> (for dumps) or 0 (for loads)
  in the sources and is left out. \<open>lws_pre\<close> is \<open>LWS_PRE\<close> of libwebsockets.
\<close>

record 'j env =
  json_object :: "nat \<Rightarrow> 'j option"
  json_integer :: "nat \<Rightarrow> json_int_t \<Rightarrow> 'j option"
  json_string :: "nat \<Rightarrow> string \<Rightarrow> 'j option"
  json_object_set_new :: "nat \<Rightarrow> 'j option \<Rightarrow> string \<Rightarrow> 'j option \<Rightarrow> 'j option"
  json_loadb :: "nat \<Rightarrow> string \<Rightarrow> 'j option"
  json_dumpb :: "'j option \<Rightarrow> size_t \<Rightarrow> size_t \<times> string"
  json_object_get :: "'j \<Rightarrow> string \<Rightarrow> 'j option"
  json_is_object :: "'j \<Rightarrow> bool"
  json_is_array :: "'j \<Rightarrow> bool"
  json_is_string :: "'j \<Rightarrow> bool"
  json_is_integer :: "'j \<Rightarrow> bool"
  json_string_value :: "'j \<Rightarrow> string"
  json_integer_value :: "'j \<Rightarrow> json_int_t"
  lws_pre :: size_t

text \<open>The complete text of a value: what a dump into a buffer of the measured size stores.\<close>

definition json_text :: "('j, 'e) env_scheme \<Rightarrow> 'j option \<Rightarrow> string" where
  "json_text E v = snd (json_dumpb E v (fst (json_dumpb E v 0)))"

text \<open>
  \<open>json_refs\<close> is an account of the references to JSON values that the program owns: a call that
  returns a new reference adds one, a call that steals a reference or drops one takes one away;
  NULL is no reference.
\<close>

record jheap = heap +
  json_refs :: int

definition ref_count :: "'j option \<Rightarrow> int" where
  "ref_count v = (case v of NULL \<Rightarrow> 0 | Some _ \<Rightarrow> 1)"

lemma ref_count_simps [simp]: "ref_count None = 0" "ref_count (Some v) = 1"
  by (simp_all add: ref_count_def)

definition call_new :: "(nat \<Rightarrow> 'j option) \<Rightarrow> 'a jheap_scheme \<Rightarrow> 'j option \<times> 'a jheap_scheme" where
  "call_new f w =
     (let v = f (clock w)
      in (v, w\<lparr>clock := Suc (clock w), json_refs := json_refs w + ref_count v\<rparr>))"

definition call_object_set_new ::
  "('j, 'e) env_scheme \<Rightarrow> 'j option \<Rightarrow> string \<Rightarrow> 'j option \<Rightarrow> 'a jheap_scheme
     \<Rightarrow> 'j option \<times> 'a jheap_scheme" where
  "call_object_set_new E obj key v w =
     (json_object_set_new E (clock w) obj key v,
      w\<lparr>clock := Suc (clock w), json_refs := json_refs w - ref_count v\<rparr>)"

definition json_decref :: "'j option \<Rightarrow> 'a jheap_scheme \<Rightarrow> 'a jheap_scheme" where
  "json_decref v w = w\<lparr>json_refs := json_refs w - ref_count v\<rparr>"

section \<open>What jansson documents\<close>

text \<open>
  Constructors give NULL or the value asked for. \<open>json_object_set_new\<close> refuses NULL arguments,
  and on an object it either sets the key or (on an error) leaves the object as it was.
  \<open>json_dumpb\<close> never stores more than the buffer holds, returns the full size whatever the buffer
  size, and stores that many bytes where the buffer is large enough. A serialised value, a
  message header and \<open>LWS_PRE\<close> fit in the address space.
\<close>

locale jansson =
  fixes E :: "('j, 'e) env_scheme"
  assumes object_new: "json_object E t = Some v \<Longrightarrow> json_is_object E v \<and> json_object_get E v k = None"
    and integer_new: "json_integer E t i = Some v \<Longrightarrow> json_is_integer E v \<and> json_integer_value E v = i"
    and string_new: "json_string E t s = Some v \<Longrightarrow> json_is_string E v \<and> json_string_value E v = s"
    and set_new_NULL: "json_object_set_new E t NULL k r = NULL"
    and set_new_no_value: "json_object_set_new E t obj k NULL = obj"
    and set_new_object: "json_is_object E v \<Longrightarrow>
      \<exists>v'. json_object_set_new E t (Some v) k (Some x) = Some v' \<and> json_is_object E v' \<and>
           (v' = v \<or> json_object_get E v' = (json_object_get E v)(k \<mapsto> x))"
    and get_no_object: "\<not> json_is_object E v \<Longrightarrow> json_object_get E v k = NULL"
    and dump_bound: "length (snd (json_dumpb E r n)) \<le> unat n"
    and dump_size: "fst (json_dumpb E r n) = fst (json_dumpb E r 0)"
    and dump_full: "fst (json_dumpb E r 0) \<le> n \<Longrightarrow>
      length (snd (json_dumpb E r n)) = unat (fst (json_dumpb E r 0))"
    and dump_fits: "unat (fst (json_dumpb E r 0)) + unat (lws_pre E) + 24 < 2 ^ 64"

text \<open>When no allocation inside jansson fails, the constructors give values and a key is set;
  what was dumped can be read back, unless the dump reported an error with size 0.\<close>

locale jansson_total = jansson +
  assumes object_total: "json_object E t \<noteq> NULL"
    and integer_total: "json_integer E t i \<noteq> NULL"
    and set_new_total: "json_is_object E v \<Longrightarrow> json_object_set_new E t (Some v) k (Some x) = Some v' \<Longrightarrow>
      json_object_get E v' = (json_object_get E v)(k \<mapsto> x)"
    and load_dump: "json_is_object E v \<or> json_is_array E v \<Longrightarrow> fst (json_dumpb E (Some v) 0) \<noteq> 0 \<Longrightarrow>
      json_loadb E t (json_text E (Some v)) = Some v"

section \<open>Lemmas on the allocator and the reference account\<close>

text \<open>Updates of fields of different layers of the state are brought into the order of the layers.\<close>

lemma clock_first [simp]:
  "w\<lparr>json_refs := r, clock := n\<rparr> = w\<lparr>clock := n, json_refs := r\<rparr>"
  by (cases w) simp

lemma no_oom_update [simp]:
  "no_oom (w\<lparr>clock := n\<rparr>) = no_oom w"
  "no_oom (v\<lparr>json_refs := r\<rparr>) = no_oom v"
  by (simp_all add: no_oom_def)

context jansson
begin

lemma text_length: "length (json_text E r) = unat (fst (json_dumpb E r 0))"
  by (simp add: json_text_def dump_full)

end

end
