(* ===== verification/Jrpc_Json.thy ===== *)
theory Jrpc_Json
  imports Jrpc_Env
begin

text \<open>
  An instance of the contract of \<open>Jrpc_Env\<close>: a small JSON library with a compact printer and a
  parser. It does not model jansson's code, which is not part of the repository. It shows that the
  laws assumed of jansson hold together, and it lets the definitions of the other theories run
  on real JSON texts. The parser reads what the printer writes (no white space, no real numbers),
  and its fuel is the length of the text.
\<close>

datatype json =
    JNull
  | JBool bool
  | JInt json_int_t
  | JString string
  | JArray "json list"
  | JObject "(string \<times> json) list"

section \<open>Numbers\<close>

definition digit :: "nat \<Rightarrow> char" where
  "digit n = char_of (48 + n)"

definition is_digit :: "char \<Rightarrow> bool" where
  "is_digit c \<longleftrightarrow> 48 \<le> (of_char c :: nat) \<and> (of_char c :: nat) \<le> 57"

definition digit_value :: "char \<Rightarrow> nat" where
  "digit_value c = of_char c - 48"

fun show_nat :: "nat \<Rightarrow> string" where
  "show_nat n = (if n < 10 then [digit n] else show_nat (n div 10) @ [digit (n mod 10)])"

declare show_nat.simps [simp del]

definition nat_value :: "string \<Rightarrow> nat" where
  "nat_value = foldl (\<lambda>n c. 10 * n + digit_value c) 0"

definition show_int :: "int \<Rightarrow> string" where
  "show_int i = (if i < 0 then CHR ''-'' # show_nat (nat (- i)) else show_nat (nat i))"

definition parse_nat :: "string \<Rightarrow> (nat \<times> string) option" where
  "parse_nat s =
     (let ds = takeWhile is_digit s
      in if ds = [] then None else Some (nat_value ds, dropWhile is_digit s))"

definition parse_int :: "string \<Rightarrow> (int \<times> string) option" where
  "parse_int s =
     (case s of
        [] \<Rightarrow> None
      | c # r \<Rightarrow>
          if c = CHR ''-'' then map_option (\<lambda>(n, r'). (- int n, r')) (parse_nat r)
          else map_option (\<lambda>(n, r'). (int n, r')) (parse_nat s))"

text \<open>What may follow a value in a text: anything but a digit.\<close>

definition follow :: "string \<Rightarrow> bool" where
  "follow r \<longleftrightarrow> (case r of [] \<Rightarrow> True | c # _ \<Rightarrow> \<not> is_digit c)"

lemma digit_code: "n < 10 \<Longrightarrow> of_char (digit n) = (48 + n :: nat)"
  by (simp add: digit_def)

lemma digit_props: "n < 10 \<Longrightarrow> is_digit (digit n) \<and> digit_value (digit n) = n"
  by (simp add: is_digit_def digit_value_def digit_code)

lemma show_nat_props: "set (show_nat n) \<subseteq> Collect is_digit \<and> nat_value (show_nat n) = n \<and> show_nat n \<noteq> []"
proof (induction n rule: show_nat.induct)
  case (1 n)
  show ?case
  proof (cases "n < 10")
    case True
    then show ?thesis
      by (simp add: show_nat.simps [of n] digit_props nat_value_def)
  next
    case False
    from 1 [OF False] digit_props [of "n mod 10"] show ?thesis
      using False by (simp add: show_nat.simps [of n] nat_value_def)
  qed
qed

lemma takeWhile_follow: "set ds \<subseteq> Collect is_digit \<Longrightarrow> follow r \<Longrightarrow> takeWhile is_digit (ds @ r) = ds"
  and dropWhile_follow: "set ds \<subseteq> Collect is_digit \<Longrightarrow> follow r \<Longrightarrow> dropWhile is_digit (ds @ r) = r"
  by (induction ds) (auto simp: follow_def split: list.splits)

lemma parse_show_nat: "follow r \<Longrightarrow> parse_nat (show_nat n @ r) = Some (n, r)"
  using show_nat_props [of n] by (simp add: parse_nat_def takeWhile_follow dropWhile_follow)

lemma show_nat_Cons: "\<exists>d ds. show_nat n = d # ds \<and> is_digit d"
  using show_nat_props [of n] by (cases "show_nat n") auto

lemma parse_show_int: "follow r \<Longrightarrow> parse_int (show_int i @ r) = Some (i, r)"
proof -
  assume r: "follow r"
  obtain d ds where d: "show_nat (nat i) = d # ds" "is_digit d"
    using show_nat_Cons by blast
  then have "d \<noteq> CHR ''-''" by (auto simp: is_digit_def)
  with d(1) parse_show_nat [OF r, of "nat i"] parse_show_nat [OF r, of "nat (- i)"] show ?thesis
    by (simp add: parse_int_def show_int_def)
qed

section \<open>Strings\<close>

fun escape :: "string \<Rightarrow> string" where
  "escape [] = ''\"''"
| "escape (c # s) =
     (if c = CHR 0x22 \<or> c = CHR 0x5C then CHR 0x5C # c # escape s else c # escape s)"

fun unescape :: "string \<Rightarrow> (string \<times> string) option" where
  "unescape [] = None"
| "unescape (c # s) =
     (if c = CHR 0x22 then Some ([], s)
      else if c = CHR 0x5C
      then (case s of [] \<Rightarrow> None | d # s' \<Rightarrow> map_option (\<lambda>(x, r). (d # x, r)) (unescape s'))
      else map_option (\<lambda>(x, r). (c # x, r)) (unescape s))"

lemma unescape_escape [simp]: "unescape (escape s @ r) = Some (s, r)"
  by (induction s) auto

section \<open>Printer and parser\<close>

fun print_json :: "json \<Rightarrow> string"
  and print_elements :: "json list \<Rightarrow> string"
  and print_members :: "(string \<times> json) list \<Rightarrow> string" where
  "print_json JNull = ''null''"
| "print_json (JBool b) = (if b then ''true'' else ''false'')"
| "print_json (JInt i) = show_int (sint i)"
| "print_json (JString s) = CHR 0x22 # escape s"
| "print_json (JArray []) = ''[]''"
| "print_json (JArray (v # vs)) = CHR ''['' # print_json v @ print_elements vs"
| "print_json (JObject []) = ''{}''"
| "print_json (JObject ((k, v) # ms)) =
     CHR ''{'' # CHR 0x22 # escape k @ CHR '':'' # print_json v @ print_members ms"
| "print_elements [] = '']''"
| "print_elements (v # vs) = CHR '','' # print_json v @ print_elements vs"
| "print_members [] = ''}''"
| "print_members ((k, v) # ms) =
     CHR '','' # CHR 0x22 # escape k @ CHR '':'' # print_json v @ print_members ms"

fun strip :: "string \<Rightarrow> string \<Rightarrow> string option" where
  "strip [] s = Some s"
| "strip (c # p) [] = None"
| "strip (c # p) (d # s) = (if c = d then strip p s else None)"

lemma strip_append [simp]: "strip p (p @ s) = Some s"
  by (induction p) auto

fun parse_value :: "nat \<Rightarrow> string \<Rightarrow> (json \<times> string) option"
  and parse_elements :: "nat \<Rightarrow> string \<Rightarrow> (json list \<times> string) option"
  and parse_members :: "nat \<Rightarrow> string \<Rightarrow> ((string \<times> json) list \<times> string) option"
  and parse_member :: "nat \<Rightarrow> string \<Rightarrow> ((string \<times> json) \<times> string) option" where
  "parse_value 0 s = None"
| "parse_value (Suc n) [] = None"
| "parse_value (Suc n) (c # s) =
     (if c = CHR ''n'' then map_option (Pair JNull) (strip ''ull'' s)
      else if c = CHR ''t'' then map_option (Pair (JBool True)) (strip ''rue'' s)
      else if c = CHR ''f'' then map_option (Pair (JBool False)) (strip ''alse'' s)
      else if c = CHR 0x22 then map_option (\<lambda>(x, r). (JString x, r)) (unescape s)
      else if c = CHR ''['' then
        (case strip '']'' s of
           Some r \<Rightarrow> Some (JArray [], r)
         | None \<Rightarrow> do {
             (v, r) \<leftarrow> parse_value n s;
             (vs, r') \<leftarrow> parse_elements n r;
             Some (JArray (v # vs), r')
           })
      else if c = CHR ''{'' then
        (case strip ''}'' s of
           Some r \<Rightarrow> Some (JObject [], r)
         | None \<Rightarrow> do {
             (m, r) \<leftarrow> parse_member n s;
             (ms, r') \<leftarrow> parse_members n r;
             Some (JObject (m # ms), r')
           })
      else map_option (\<lambda>(i, r). (JInt (word_of_int i), r)) (parse_int (c # s)))"
| "parse_elements 0 s = None"
| "parse_elements (Suc n) s =
     (case strip '']'' s of
        Some r \<Rightarrow> Some ([], r)
      | None \<Rightarrow> do {
          r \<leftarrow> strip '','' s;
          (v, r') \<leftarrow> parse_value n r;
          (vs, r'') \<leftarrow> parse_elements n r';
          Some (v # vs, r'')
        })"
| "parse_members 0 s = None"
| "parse_members (Suc n) s =
     (case strip ''}'' s of
        Some r \<Rightarrow> Some ([], r)
      | None \<Rightarrow> do {
          r \<leftarrow> strip '','' s;
          (m, r') \<leftarrow> parse_member n r;
          (ms, r'') \<leftarrow> parse_members n r';
          Some (m # ms, r'')
        })"
| "parse_member 0 s = None"
| "parse_member (Suc n) s = do {
     r \<leftarrow> strip [CHR 0x22] s;
     (k, r') \<leftarrow> unescape r;
     r'' \<leftarrow> strip '':'' r';
     (v, r''') \<leftarrow> parse_value n r'';
     Some ((k, v), r''')
   }"

section \<open>The parser reads what the printer writes\<close>

lemma follow_elements: "follow (print_elements vs @ r)"
  by (cases vs) (auto simp: follow_def is_digit_def)

lemma follow_members: "follow (print_members ms @ r)"
  by (cases ms) (auto simp: follow_def is_digit_def)

lemma show_int_start: "\<exists>c s. show_int i = c # s \<and> (c = CHR ''-'' \<or> is_digit c)"
  using show_nat_Cons [of "nat i"] by (auto simp: show_int_def)

lemma print_start: "\<exists>c s. print_json v = c # s \<and> c \<noteq> CHR '']''"
proof (cases v)
  case (JInt i)
  then show ?thesis using show_int_start [of "sint i"] by (auto simp: is_digit_def)
next
  case (JArray vs)
  then show ?thesis by (cases vs) auto
next
  case (JObject ms)
  then show ?thesis by (cases ms rule: print_members.cases) auto
qed auto

lemma strip_array_end: "strip '']'' (print_json v @ r) = None"
  using print_start [of v] by auto

lemma parse_value_int:
  assumes "follow r"
  shows "parse_value (Suc n) (show_int i @ r) = Some (JInt (word_of_int i), r)"
proof -
  from show_int_start [of i] obtain c s where s: "show_int i = c # s" and c: "c = CHR ''-'' \<or> is_digit c"
    by blast
  from c have "c \<notin> {CHR ''n'', CHR ''t'', CHR ''f'', CHR 0x22, CHR ''['', CHR ''{''}"
    by (auto simp: is_digit_def)
  with s parse_show_int [OF assms, of i] show ?thesis by simp
qed

lemma parse_member_print:
  assumes "length (print_json v) < n"
    and "parse_value (n - 1) (print_json v @ r) = Some (v, r)"
  shows "parse_member n (CHR 0x22 # escape k @ CHR '':'' # print_json v @ r) = Some ((k, v), r)"
  using assms by (cases n) auto

lemma parse_print:
  "follow r \<Longrightarrow> length (print_json v) \<le> n \<Longrightarrow> parse_value n (print_json v @ r) = Some (v, r)"
  "length (print_elements vs) \<le> n \<Longrightarrow> parse_elements n (print_elements vs @ r) = Some (vs, r)"
  "length (print_members ms) \<le> n \<Longrightarrow> parse_members n (print_members ms @ r) = Some (ms, r)"
proof (induction v and vs and ms arbitrary: n r and n r and n r
    rule: print_json_print_elements_print_members.induct)
  case (3 i)
  then show ?case
    using show_int_start [of "sint i"] parse_value_int [of r "n - 1" "sint i"] by (cases n) auto
next
  case (6 v vs)
  then show ?case
    using strip_array_end [of v] follow_elements [of vs r] by (cases n) auto
next
  case (8 k v ms)
  then show ?case
    using parse_member_print [of v "n - 1" "print_members ms @ r" k] follow_members [of ms r]
    by (cases n) (auto simp del: parse_member.simps)
next
  case (10 v vs)
  then show ?case
    using follow_elements [of vs r] by (cases n) auto
next
  case (12 k v ms)
  then show ?case
    using parse_member_print [of v "n - 1" "print_members ms @ r" k] follow_members [of ms r]
    by (cases n) (auto simp del: parse_member.simps)
qed (use Suc_le_D in \<open>fastforce split: if_splits\<close>)+

section \<open>The instance\<close>

definition is_container :: "json \<Rightarrow> bool" where
  "is_container v \<longleftrightarrow> (case v of JArray _ \<Rightarrow> True | JObject _ \<Rightarrow> True | _ \<Rightarrow> False)"

fun set_member :: "string \<Rightarrow> json \<Rightarrow> (string \<times> json) list \<Rightarrow> (string \<times> json) list" where
  "set_member k v [] = [(k, v)]"
| "set_member k v ((k', v') # ms) =
     (if k = k' then (k, v) # ms else (k', v') # set_member k v ms)"

lemma map_of_set_member: "map_of (set_member k v ms) = (map_of ms)(k \<mapsto> v)"
  by (induction k v ms rule: set_member.induct) auto

text \<open>Texts that would not fit in memory beside the header are refused with size 0.\<close>

definition ref_dumpb :: "json option \<Rightarrow> size_t \<Rightarrow> size_t \<times> string" where
  "ref_dumpb v n =
     (case v of
        NULL \<Rightarrow> (0, [])
      | Some x \<Rightarrow>
          (let t = print_json x
           in if is_container x \<and> length t + 40 < 2 ^ 64
              then (of_nat (length t), if length t \<le> unat n then t else [])
              else (0, [])))"

definition ref_loadb :: "string \<Rightarrow> json option" where
  "ref_loadb s =
     (case parse_value (length s) s of
        Some (v, []) \<Rightarrow> if is_container v then Some v else NULL
      | _ \<Rightarrow> NULL)"

definition ref_set_new :: "json option \<Rightarrow> string \<Rightarrow> json option \<Rightarrow> json option" where
  "ref_set_new obj k v =
     (case (obj, v) of
        (Some (JObject ms), Some x) \<Rightarrow> Some (JObject (set_member k x ms))
      | _ \<Rightarrow> obj)"

definition ref_get :: "json \<Rightarrow> string \<Rightarrow> json option" where
  "ref_get v k = (case v of JObject ms \<Rightarrow> map_of ms k | _ \<Rightarrow> NULL)"

definition ref_env :: "json env" where
  "ref_env = \<lparr>
     json_object = (\<lambda>t. Some (JObject [])),
     json_integer = (\<lambda>t i. Some (JInt i)),
     json_string = (\<lambda>t s. Some (JString s)),
     json_object_set_new = (\<lambda>t. ref_set_new),
     json_loadb = (\<lambda>t. ref_loadb),
     json_dumpb = ref_dumpb,
     json_object_get = ref_get,
     json_is_object = (\<lambda>v. case v of JObject _ \<Rightarrow> True | _ \<Rightarrow> False),
     json_is_array = (\<lambda>v. case v of JArray _ \<Rightarrow> True | _ \<Rightarrow> False),
     json_is_string = (\<lambda>v. case v of JString _ \<Rightarrow> True | _ \<Rightarrow> False),
     json_is_integer = (\<lambda>v. case v of JInt _ \<Rightarrow> True | _ \<Rightarrow> False),
     json_string_value = (\<lambda>v. case v of JString s \<Rightarrow> s | _ \<Rightarrow> []),
     json_integer_value = (\<lambda>v. case v of JInt i \<Rightarrow> i | _ \<Rightarrow> 0),
     lws_pre = 16\<rparr>"

lemma unat_length: "n + 40 < 2 ^ 64 \<Longrightarrow> unat (of_nat n :: 64 word) = n"
  by (simp add: unat_of_nat)

lemma ref_load_print: "is_container v \<Longrightarrow> ref_loadb (print_json v) = Some v"
  using parse_print(1) [of "[]" v "length (print_json v)"] by (simp add: ref_loadb_def follow_def)

interpretation ref: jansson_total ref_env
proof unfold_locales
  fix r :: "json option" and n :: size_t
  show "unat (fst (json_dumpb ref_env r 0)) + unat (lws_pre ref_env) + 24 < 2 ^ 64"
    by (simp add: ref_env_def ref_dumpb_def Let_def unat_length split: option.split)
  show "length (snd (json_dumpb ref_env r n)) = unat (fst (json_dumpb ref_env r 0))"
    if "fst (json_dumpb ref_env r 0) \<le> n"
    using that
    by (auto simp: ref_env_def ref_dumpb_def Let_def unat_length word_le_nat_alt split: option.splits if_splits)
next
  fix t v
  assume "json_is_object ref_env v \<or> json_is_array ref_env v" "fst (json_dumpb ref_env (Some v) 0) \<noteq> 0"
  then have "is_container v" "json_text ref_env (Some v) = print_json v"
    by (auto simp: ref_env_def ref_dumpb_def is_container_def json_text_def Let_def unat_length
        split: json.splits if_splits)
  then show "json_loadb ref_env t (json_text ref_env (Some v)) = Some v"
    using ref_load_print by (simp add: ref_env_def)
qed (auto simp: ref_env_def ref_set_new_def ref_get_def ref_dumpb_def Let_def map_of_set_member
    split: json.splits option.splits if_splits)

end
