(* ===== verification/Jrpc_Message.thy ===== *)
theory Jrpc_Message
  imports Jrpc_Json
begin

text \<open>
  Messages (\<open>lib/jrpc/message.h\<close>, \<open>lib/jrpc/message.c\<close>). A message is one heap block: the
  structure \<open>jrpc_message\<close>, then \<open>LWS_PRE\<close> bytes that libwebsockets overwrites with the frame
  header, then the serialised JSON text. The block is created from a JSON value, queued through its
  \<open>next\<close> field and freed by \<open>jrpc_message_dispose\<close>.

  The lemmas show what \<open>jrpc_message_create\<close> does for every outcome of the allocation:
  it never stores outside its block, the text is complete, and disposing restores the store.
\<close>

section \<open>The block of a message\<close>

text \<open>A pointer into a block is the block's address and an offset.\<close>

type_synonym char_ptr = "addr \<times> nat"

record jrpc_message =
  msg_next :: ptr
  msg_data :: char_ptr
  msg_length :: size_t

text \<open>A heap block that holds a message: its size, the structure at its start, and the bytes
  behind the structure, by offset in the block.\<close>

record msg_block =
  blk_size :: nat
  blk_msg :: jrpc_message
  blk_buf :: buffer

record mheap = jheap +
  blocks :: "addr \<rightharpoonup> msg_block"

definition sizeof_jrpc_message :: size_t where
  "sizeof_jrpc_message = 24"

text \<open>Access to the bytes of a block through a \<open>char *\<close>; a store has to stay behind the
  structure and inside the block.\<close>

definition store_bytes :: "char_ptr \<Rightarrow> char list \<Rightarrow> (addr \<rightharpoonup> msg_block) \<Rightarrow> (addr \<rightharpoonup> msg_block) option" where
  "store_bytes p bs h = do {
     b \<leftarrow> h (fst p);
     if unat sizeof_jrpc_message \<le> snd p \<and> snd p + length bs \<le> blk_size b
     then Some (h(fst p \<mapsto> b\<lparr>blk_buf := write_bytes (snd p) bs (blk_buf b)\<rparr>))
     else None
   }"

definition load_bytes :: "char_ptr \<Rightarrow> nat \<Rightarrow> (addr \<rightharpoonup> msg_block) \<Rightarrow> char list option" where
  "load_bytes p n h = do {
     b \<leftarrow> h (fst p);
     if snd p + n \<le> blk_size b then read_bytes (snd p) n (blk_buf b) else None
   }"

section \<open>The operations\<close>

definition jrpc_message_measure :: "('j, 'e) env_scheme \<Rightarrow> 'j option \<Rightarrow> size_t" where
  "jrpc_message_measure E v = fst (json_dumpb E v 0)"

definition jrpc_message_serialize ::
  "('j, 'e) env_scheme \<Rightarrow> ptr \<Rightarrow> 'j option \<Rightarrow> 'a mheap_scheme \<Rightarrow> 'a mheap_scheme option" where
  "jrpc_message_serialize E message v w = do {
     b \<leftarrow> deref (blocks w) message;
     let bs = snd (json_dumpb E v (msg_length (blk_msg b)));
     h \<leftarrow> store_bytes (msg_data (blk_msg b)) bs (blocks w);
     Some (w\<lparr>blocks := h\<rparr>)
   }"

text \<open>The size passed to \<open>malloc\<close> is computed in \<open>size_t\<close> and may wrap around; the structure
  then does not fit in the block and its initialisation is a store outside of it.\<close>

definition jrpc_message_create ::
  "('j, 'e) env_scheme \<Rightarrow> 'j option \<Rightarrow> 'a mheap_scheme \<Rightarrow> (ptr \<times> 'a mheap_scheme) option" where
  "jrpc_message_create E v w = (
     let message_size = jrpc_message_measure E v;
         block_size = sizeof_jrpc_message + lws_pre E + message_size;
         (data, w1) = malloc w
     in case data of
          NULL \<Rightarrow> Some (NULL, w1)
        | Some a \<Rightarrow>
            if block_size < sizeof_jrpc_message then None
            else do {
              let m = \<lparr>msg_next = NULL,
                       msg_data = (a, unat (sizeof_jrpc_message + lws_pre E)),
                       msg_length = message_size\<rparr>;
              let b = \<lparr>blk_size = unat block_size, blk_msg = m, blk_buf = Map.empty\<rparr>;
              w2 \<leftarrow> jrpc_message_serialize E (Some a) v (w1\<lparr>blocks := (blocks w1)(a \<mapsto> b)\<rparr>);
              Some (Some a, w2)
            })"

text \<open>\<open>free\<close> of NULL does nothing; \<open>free\<close> of an address that is not allocated is undefined.\<close>

definition jrpc_message_dispose :: "ptr \<Rightarrow> 'a mheap_scheme \<Rightarrow> 'a mheap_scheme option" where
  "jrpc_message_dispose message w =
     (case message of
        NULL \<Rightarrow> Some w
      | Some a \<Rightarrow> if blocks w a = None then None else Some (w\<lparr>blocks := (blocks w)(a := None)\<rparr>))"

lemma no_oom_blocks [simp]: "no_oom (w\<lparr>blocks := h\<rparr>) = no_oom w"
  by (simp add: no_oom_def)

section \<open>Well-formed messages and their text\<close>

text \<open>A message block is well formed when its data pointer points into the block itself, leaves
  room for \<open>LWS_PRE\<close> bytes behind the structure, and its text lies in the block. Its text is
  what a read of \<open>length\<close> bytes at \<open>data\<close> gives.\<close>

definition msg_text :: "msg_block \<Rightarrow> string option" where
  "msg_text b = read_bytes (snd (msg_data (blk_msg b))) (unat (msg_length (blk_msg b))) (blk_buf b)"

definition msg_ok :: "('j, 'e) env_scheme \<Rightarrow> addr \<Rightarrow> msg_block \<Rightarrow> bool" where
  "msg_ok E a b \<longleftrightarrow>
     fst (msg_data (blk_msg b)) = a \<and>
     unat sizeof_jrpc_message + unat (lws_pre E) \<le> snd (msg_data (blk_msg b)) \<and>
     snd (msg_data (blk_msg b)) + unat (msg_length (blk_msg b)) \<le> blk_size b \<and>
     msg_text b \<noteq> None"

text \<open>The block that a creation at address \<open>a\<close> is meant to leave behind.\<close>

definition message_block :: "('j, 'e) env_scheme \<Rightarrow> addr \<Rightarrow> 'j option \<Rightarrow> msg_block" where
  "message_block E a v =
     \<lparr>blk_size = 24 + unat (lws_pre E) + length (json_text E v),
      blk_msg = \<lparr>msg_next = NULL, msg_data = (a, 24 + unat (lws_pre E)),
                 msg_length = jrpc_message_measure E v\<rparr>,
      blk_buf = write_bytes (24 + unat (lws_pre E)) (json_text E v) Map.empty\<rparr>"

context jansson
begin

lemma measure_text: "unat (jrpc_message_measure E v) = length (json_text E v)"
  by (simp add: jrpc_message_measure_def text_length)

lemma pre_no_overflow: "unat (sizeof_jrpc_message + lws_pre E) = 24 + unat (lws_pre E)"
proof -
  have "unat (lws_pre E) + 24 < 2 ^ 64"
    using dump_fits [of NULL] by simp
  then show ?thesis
    by (simp add: sizeof_jrpc_message_def unat_add_no_overflow)
qed

lemma size_no_overflow:
  "unat (sizeof_jrpc_message + lws_pre E + jrpc_message_measure E v)
     = 24 + unat (lws_pre E) + length (json_text E v)"
proof -
  have "unat (jrpc_message_measure E v) + unat (lws_pre E) + 24 < 2 ^ 64"
    using dump_fits [of v] by (simp add: jrpc_message_measure_def)
  then have "unat (sizeof_jrpc_message + lws_pre E) + unat (jrpc_message_measure E v) < 2 ^ 64"
    by (simp add: pre_no_overflow)
  then show ?thesis
    by (simp add: unat_add_no_overflow [of "sizeof_jrpc_message + lws_pre E"] pre_no_overflow measure_text)
qed

lemma msg_text_message_block [simp]: "msg_text (message_block E a v) = Some (json_text E v)"
  by (simp add: msg_text_def message_block_def measure_text)

lemma msg_ok_message_block [simp]: "msg_ok E a (message_block E a v)"
  unfolding msg_ok_def
  by (simp add: sizeof_jrpc_message_def) (simp add: message_block_def measure_text)

lemma create_eq:
  "jrpc_message_create E v w = Some (
     if oom w (clock w) then (NULL, w\<lparr>clock := Suc (clock w)\<rparr>)
     else (Some (clock w),
           w\<lparr>clock := Suc (clock w),
             blocks := (blocks w)(clock w \<mapsto> message_block E (clock w) v)\<rparr>))"
proof (cases "oom w (clock w)")
  case True
  then show ?thesis by (simp add: jrpc_message_create_def malloc_def Let_def)
next
  case False
  have no_wrap: "\<not> sizeof_jrpc_message + lws_pre E + jrpc_message_measure E v < sizeof_jrpc_message"
    using size_no_overflow [of v] by (simp add: word_less_nat_alt sizeof_jrpc_message_def)
  have "snd (json_dumpb E v (jrpc_message_measure E v)) = json_text E v"
    by (simp add: json_text_def jrpc_message_measure_def)
  with False no_wrap show ?thesis
    by (simp add: jrpc_message_create_def malloc_def Let_def jrpc_message_serialize_def
        store_bytes_def pre_no_overflow size_no_overflow message_block_def)
       (simp add: sizeof_jrpc_message_def)
qed

end

lemma dispose_eq [simp]:
  "jrpc_message_dispose NULL w = Some w"
  "blocks w a = Some b \<Longrightarrow> jrpc_message_dispose (Some a) w = Some (w\<lparr>blocks := (blocks w)(a := None)\<rparr>)"
  "blocks w a = None \<Longrightarrow> jrpc_message_dispose (Some a) w = None"
  by (simp_all add: jrpc_message_dispose_def)

lemma load_bytes_msg:
  "h a = Some b \<Longrightarrow> msg_ok E a b \<Longrightarrow>
   load_bytes (msg_data (blk_msg b)) (unat (msg_length (blk_msg b))) h = msg_text b"
  by (simp add: load_bytes_def msg_ok_def msg_text_def)

section \<open>When the two dumps differ\<close>

text \<open>The value is dumped twice, once to measure it and once to store it, and the result of the second dump
  is not checked. The locale \<open>jansson\<close> says that both agree, which is so as long as no allocation inside of the
  second one fails. Without this law: when the second dump stores fewer bytes than the first one has promised,
  the message is created all the same, and whoever reads its text, as \<open>lws_write\<close> does, reads bytes that were never written.\<close>

lemma read_unwritten:
  assumes "length bs < n"
  shows "read_bytes off n (write_bytes off bs Map.empty) = None"
proof -
  have "those (map f xs) = None" if "x \<in> set xs" "f x = None" for f :: "nat \<Rightarrow> char option" and x xs
    using that by (induction xs) (auto split: option.splits)
  from this [of "off + length bs" "[off..<off + n]"] assms show ?thesis
    by (simp add: read_bytes_def write_bytes_def)
qed

theorem second_dump_unchecked:
  assumes create: "jrpc_message_create E v w = Some (Some a, w')"
    and short: "length (snd (json_dumpb E v (fst (json_dumpb E v 0)))) < unat (fst (json_dumpb E v 0))"
  shows "\<exists>b. blocks w' a = Some b \<and> load_bytes (msg_data (blk_msg b)) (unat (msg_length (blk_msg b))) (blocks w') = None"
proof -
  let ?n = "jrpc_message_measure E v" and ?off = "unat (sizeof_jrpc_message + lws_pre E)"
  let ?bs = "snd (json_dumpb E v ?n)"
  let ?b = "\<lparr>blk_size = unat (sizeof_jrpc_message + lws_pre E + ?n),
      blk_msg = \<lparr>msg_next = NULL, msg_data = (a, ?off), msg_length = ?n\<rparr>, blk_buf = write_bytes ?off ?bs Map.empty\<rparr>"
  from create have "blocks w' a = Some ?b"
    by (auto simp: jrpc_message_create_def malloc_def Let_def jrpc_message_serialize_def store_bytes_def
        Option.bind_eq_Some_conv split: if_splits option.splits)
  moreover have "read_bytes ?off (unat ?n) (write_bytes ?off ?bs Map.empty) = None"
    by (rule read_unwritten) (use short in \<open>simp add: jrpc_message_measure_def\<close>)
  ultimately show ?thesis by (simp add: load_bytes_def)
qed

section \<open>Properties\<close>

text \<open>A store to run the operations on: \<open>n\<close> allocations made, those in \<open>bad\<close> failed, and the blocks \<open>h\<close>.\<close>

definition example_store :: "nat \<Rightarrow> nat set \<Rightarrow> (addr \<rightharpoonup> msg_block) \<Rightarrow> mheap" where
  "example_store n bad h = \<lparr>clock = n, oom = (\<lambda>i. i \<in> bad), json_refs = 0, blocks = h\<rparr>"

text \<open>C34. \<open>jrpc_message_create\<close> always returns. When the allocation fails it returns NULL and
  the store is unchanged; otherwise the returned message is a new, well-formed block, reading
  \<open>length\<close> bytes at \<open>data\<close> gives the complete text of the value, there is room for \<open>LWS_PRE\<close> bytes
  before it, and \<open>jrpc_message_dispose\<close> brings the store back to what it was.\<close>

theorem message_create_complete:
  assumes "jansson E" and "blocks w (clock w) = None"
  shows "\<exists>p w'. jrpc_message_create E v w = Some (p, w') \<and>
    (case p of
       NULL \<Rightarrow> oom w (clock w) \<and> blocks w' = blocks w
     | Some a \<Rightarrow> \<not> oom w (clock w) \<and> blocks w a = None \<and>
         (\<exists>b. blocks w' = (blocks w)(a \<mapsto> b) \<and>
            load_bytes (msg_data (blk_msg b)) (unat (msg_length (blk_msg b))) (blocks w') = Some (json_text E v) \<and>
            unat sizeof_jrpc_message + unat (lws_pre E) \<le> snd (msg_data (blk_msg b)) \<and>
            fst (msg_data (blk_msg b)) = a) \<and>
         map_option blocks (jrpc_message_dispose p w') = Some (blocks w))"
proof (cases "oom w (clock w)")
  case True
  then show ?thesis
    by (simp add: jansson.create_eq [OF assms(1)])
next
  case False
  let ?b = "message_block E (clock w) v"
  have ok: "msg_ok E (clock w) ?b" and t: "msg_text ?b = Some (json_text E v)"
    using assms(1) by (simp_all add: jansson.msg_ok_message_block jansson.msg_text_message_block)
  have "load_bytes (msg_data (blk_msg ?b)) (unat (msg_length (blk_msg ?b))) ((blocks w)(clock w \<mapsto> ?b))
      = Some (json_text E v)"
    using load_bytes_msg [OF _ ok, of "(blocks w)(clock w \<mapsto> ?b)"] t by simp
  moreover have "(blocks w)(clock w := None) = blocks w"
    using assms(2) by auto
  ultimately show ?thesis
    using False assms(2) ok unfolding msg_ok_def
    by (auto simp: jansson.create_eq [OF assms(1)] intro!: exI [of _ ?b])
qed

theorem message_create_complete_witness:
  "\<exists>p w'. jrpc_message_create ref_env (Some (JArray [JBool True])) (example_store 0 {1} Map.empty) = Some (p, w') \<and>
     (case p of NULL \<Rightarrow> False | Some a \<Rightarrow> \<exists>b. blocks w' = [a \<mapsto> b] \<and>
        load_bytes (msg_data (blk_msg b)) (unat (msg_length (blk_msg b))) (blocks w') = Some ''[true]'')"
proof -
  have t: "json_text ref_env (Some (JArray [JBool True])) = ''[true]''"
    by (simp add: json_text_def ref_env_def ref_dumpb_def is_container_def)
  have "blocks (example_store 0 {1} Map.empty) (clock (example_store 0 {1} Map.empty)) = None"
    by (simp add: example_store_def)
  from message_create_complete [OF ref.jansson_axioms this, of "Some (JArray [JBool True])"] t show ?thesis
    by (fastforce simp: example_store_def split: option.splits)
qed

end
