(* ===== verification/Jrpc_Fifo.thy ===== *)
theory Jrpc_Fifo
  imports Jrpc_Prelude
begin

text \<open>
  The contract of a message queue over a store. \<open>rep q s xs\<close> says that \<open>q\<close> holds the messages at
  the addresses \<open>xs\<close>, in this order; \<open>live s\<close> are the addresses of all messages of the store, and
  \<open>only_links s s'\<close> says that from \<open>s\<close> to \<open>s'\<close> nothing but links between messages has
  changed. A queue is first-in first-out, and an operation on one queue does not disturb another
  queue of the same store.

  The locale's lemmas are what the clients need: a whole sequence of messages comes out in the
  order it went in, and a family of queues (one per connection) with disjoint messages stays one.
\<close>

section \<open>Families of lists\<close>

definition disjoint_lists :: "'c set \<Rightarrow> ('c \<Rightarrow> 'a list) \<Rightarrow> bool" where
  "disjoint_lists C f \<longleftrightarrow> (\<forall>c\<in>C. \<forall>d\<in>C. c \<noteq> d \<longrightarrow> set (f c) \<inter> set (f d) = {})"

lemma disjoint_lists_upd:
  assumes "disjoint_lists C f" and "\<And>d. d \<in> C \<Longrightarrow> d \<noteq> c \<Longrightarrow> set xs \<inter> set (f d) = {}"
  shows "disjoint_lists (insert c C) (f(c := xs))"
  using assms by (fastforce simp: disjoint_lists_def)

lemma disjoint_lists_mono: "disjoint_lists C f \<Longrightarrow> D \<subseteq> C \<Longrightarrow> disjoint_lists D f"
  by (auto simp: disjoint_lists_def)

lemma all_lists_upd:
  assumes "c \<in> C"
  shows "(\<Union>d \<in> C. set ((f(c := xs)) d)) = set xs \<union> (\<Union>d \<in> C - {c}. set (f d))"
    and "(\<Union>d \<in> C. set (f d)) = set (f c) \<union> (\<Union>d \<in> C - {c}. set (f d))"
  using assms by (auto split: if_splits)

text \<open>\<open>family rep s fam f\<close>: each queue \<open>fam c\<close> holds the list \<open>f c\<close>, and no message is in two
  queues.\<close>

definition family ::
  "('q \<Rightarrow> 's \<Rightarrow> addr list \<Rightarrow> bool) \<Rightarrow> 's \<Rightarrow> ('c \<rightharpoonup> 'q) \<Rightarrow> ('c \<Rightarrow> addr list) \<Rightarrow> bool" where
  "family rep s fam f \<longleftrightarrow>
     (\<forall>c q. fam c = Some q \<longrightarrow> rep q s (f c)) \<and> disjoint_lists (dom fam) f"

section \<open>Runs of a queue\<close>

fun enq_all :: "('q \<Rightarrow> addr \<Rightarrow> 's \<Rightarrow> ('q \<times> 's) option) \<Rightarrow> 'q \<Rightarrow> addr list \<Rightarrow> 's \<Rightarrow> ('q \<times> 's) option" where
  "enq_all enq q [] s = Some (q, s)"
| "enq_all enq q (a # as) s = do {
     (q', s') \<leftarrow> enq q a s;
     enq_all enq q' as s'
   }"

fun deq_all :: "('q \<Rightarrow> 's \<Rightarrow> (ptr \<times> 'q) option) \<Rightarrow> 'q \<Rightarrow> nat \<Rightarrow> 's \<Rightarrow> (ptr list \<times> 'q) option" where
  "deq_all deq q 0 s = Some ([], q)"
| "deq_all deq q (Suc n) s = do {
     (p, q') \<leftarrow> deq q s;
     (ps, q'') \<leftarrow> deq_all deq q' n s;
     Some (p # ps, q'')
   }"

section \<open>The contract\<close>

locale fifo =
  fixes rep :: "'q \<Rightarrow> 's \<Rightarrow> addr list \<Rightarrow> bool"
    and live :: "'s \<Rightarrow> addr set"
    and only_links :: "'s \<Rightarrow> 's \<Rightarrow> bool"
    and empty :: 'q
    and is_empty :: "'q \<Rightarrow> bool"
    and enq :: "'q \<Rightarrow> addr \<Rightarrow> 's \<Rightarrow> ('q \<times> 's) option"
    and deq :: "'q \<Rightarrow> 's \<Rightarrow> (ptr \<times> 'q) option"
  assumes links_refl: "only_links s s"
    and links_trans: "only_links s s' \<Longrightarrow> only_links s' s'' \<Longrightarrow> only_links s s''"
    and links_live: "only_links s s' \<Longrightarrow> live s' = live s"
    and rep_empty: "rep empty s []"
    and rep_live: "rep q s xs \<Longrightarrow> set xs \<subseteq> live s"
    and rep_distinct: "rep q s xs \<Longrightarrow> distinct xs"
    and rep_unique: "rep q s xs \<Longrightarrow> rep q s ys \<Longrightarrow> xs = ys"
    and is_empty_iff: "rep q s xs \<Longrightarrow> is_empty q \<longleftrightarrow> xs = []"
    and enq_rep: "rep q s xs \<Longrightarrow> a \<in> live s \<Longrightarrow> a \<notin> set xs \<Longrightarrow>
      \<exists>q' s'. enq q a s = Some (q', s') \<and> rep q' s' (xs @ [a]) \<and> only_links s s' \<and>
        (\<forall>r ys. rep r s ys \<longrightarrow> set ys \<inter> insert a (set xs) = {} \<longrightarrow> rep r s' ys)"
    and deq_Nil: "rep q s [] \<Longrightarrow> deq q s = Some (NULL, q)"
    and deq_Cons: "rep q s (a # xs) \<Longrightarrow> \<exists>q'. deq q s = Some (Some a, q') \<and> rep q' s xs"
begin

lemma enq_all_rep:
  assumes "rep q s xs" and "set as \<subseteq> live s" and "distinct as" and "set as \<inter> set xs = {}"
  shows "\<exists>q' s'. enq_all enq q as s = Some (q', s') \<and> rep q' s' (xs @ as) \<and> only_links s s'"
  using assms
proof (induction as arbitrary: q s xs)
  case Nil
  then show ?case by (simp add: links_refl)
next
  case (Cons a as)
  then obtain q1 s1 where 1: "enq q a s = Some (q1, s1)" "rep q1 s1 (xs @ [a])" "only_links s s1"
    using enq_rep [of q s xs a] by auto
  from Cons.prems links_live [OF 1(3)] have "set as \<subseteq> live s1" "set as \<inter> set (xs @ [a]) = {}"
    by auto
  with Cons.IH [OF 1(2)] Cons.prems(3) obtain q' s'
    where "enq_all enq q1 as s1 = Some (q', s')" "rep q' s' (xs @ a # as)" "only_links s1 s'"
    by auto
  with 1 show ?case by (auto intro: links_trans)
qed

lemma deq_all_rep:
  "rep q s (as @ xs) \<Longrightarrow> \<exists>q'. deq_all deq q (length as) s = Some (map Some as, q') \<and> rep q' s xs"
proof (induction as arbitrary: q)
  case Nil
  then show ?case by simp
next
  case (Cons a as)
  then obtain q1 where "deq q s = Some (Some a, q1)" and "rep q1 s (as @ xs)"
    using deq_Cons [of q s a "as @ xs"] by auto
  with Cons.IH [of q1] show ?case by fastforce
qed

lemma first_in_first_out:
  assumes "rep q s xs" and "set as \<subseteq> live s" and "distinct as" and "set as \<inter> set xs = {}"
  shows "\<exists>q1 s1 q2. enq_all enq q as s = Some (q1, s1) \<and>
    deq_all deq q1 (length xs + length as) s1 = Some (map Some (xs @ as), q2) \<and> is_empty q2"
proof -
  obtain q1 s1 where 1: "enq_all enq q as s = Some (q1, s1)" "rep q1 s1 ((xs @ as) @ [])"
    using enq_all_rep [OF assms] by auto
  from deq_all_rep [OF 1(2)] obtain q2
    where "deq_all deq q1 (length (xs @ as)) s1 = Some (map Some (xs @ as), q2)" "rep q2 s1 []"
    by blast
  with 1(1) is_empty_iff [of q2 s1 "[]"] show ?thesis by fastforce
qed

lemma family_at: "family rep s fam f \<Longrightarrow> fam c = Some q \<Longrightarrow> rep q s (f c)"
  by (simp add: family_def)

lemma family_enq:
  assumes fam: "family rep s fam f" and c: "fam c = Some q" and a: "a \<in> live s"
    and new: "\<And>d. d \<in> dom fam \<Longrightarrow> a \<notin> set (f d)"
  shows "\<exists>q' s'. enq q a s = Some (q', s') \<and> only_links s s' \<and>
    family rep s' (fam(c \<mapsto> q')) (f(c := f c @ [a]))"
proof -
  from c have dom: "c \<in> dom fam" by auto
  from family_at [OF fam c] a new [OF dom] obtain q' s'
    where enq: "enq q a s = Some (q', s')" and q': "rep q' s' (f c @ [a])"
      and links: "only_links s s'"
      and frame: "\<And>r ys. rep r s ys \<Longrightarrow> set ys \<inter> insert a (set (f c)) = {} \<Longrightarrow> rep r s' ys"
    using enq_rep [of q s "f c" a] by auto
  have "rep r s' ((f(c := f c @ [a])) d)" if "(fam(c \<mapsto> q')) d = Some r" for d r
  proof (cases "d = c")
    case True
    with that q' show ?thesis by simp
  next
    case False
    with that have d: "fam d = Some r" by simp
    with fam dom False have "set (f d) \<inter> set (f c) = {}"
      unfolding family_def disjoint_lists_def by blast
    with frame [OF family_at [OF fam d]] new [of d] d False show ?thesis by auto
  qed
  moreover have "disjoint_lists (dom (fam(c \<mapsto> q'))) (f(c := f c @ [a]))"
  proof -
    have "set (f c @ [a]) \<inter> set (f d) = {}" if "d \<in> dom fam" "d \<noteq> c" for d
      using fam dom that new [of d] unfolding family_def disjoint_lists_def by auto
    then show ?thesis
      using fam disjoint_lists_upd [of "dom fam" f c "f c @ [a]"] by (simp add: family_def)
  qed
  ultimately show ?thesis
    using enq links by (auto simp: family_def)
qed

text \<open>Replacing one queue by one that holds fewer messages.\<close>

lemma family_shrink:
  assumes fam: "family rep s fam f" and c: "c \<in> dom fam" and q': "rep q' s xs"
    and sub: "set xs \<subseteq> set (f c)"
  shows "family rep s (fam(c \<mapsto> q')) (f(c := xs))"
proof -
  have "set xs \<inter> set (f d) = {}" if "d \<in> dom fam" "d \<noteq> c" for d
    using fam c that sub unfolding family_def disjoint_lists_def by blast
  then have "disjoint_lists (insert c (dom fam)) (f(c := xs))"
    using fam by (intro disjoint_lists_upd) (auto simp: family_def)
  then show ?thesis
    using fam q' by (auto simp: family_def)
qed

lemma family_deq:
  assumes fam: "family rep s fam f" and c: "fam c = Some q" and xs: "f c = a # xs"
  shows "\<exists>q'. deq q s = Some (Some a, q') \<and> family rep s (fam(c \<mapsto> q')) (f(c := xs))"
proof -
  from family_at [OF fam c] xs obtain q' where q': "deq q s = Some (Some a, q')" "rep q' s xs"
    using deq_Cons [of q s a xs] by auto
  from fam c q'(2) xs have "family rep s (fam(c \<mapsto> q')) (f(c := xs))"
    by (intro family_shrink) auto
  with q'(1) show ?thesis by blast
qed

lemma family_insert:
  assumes "family rep s fam f" and "c \<notin> dom fam"
  shows "family rep s (fam(c \<mapsto> empty)) (f(c := []))"
proof -
  from assms(1) have "disjoint_lists (insert c (dom fam)) (f(c := []))"
    by (intro disjoint_lists_upd) (auto simp: family_def)
  with assms(1) show ?thesis
    by (auto simp: family_def rep_empty)
qed

lemma family_remove: "family rep s fam f \<Longrightarrow> family rep s (fam(c := None)) f"
  by (auto simp: family_def elim: disjoint_lists_mono)

end

text \<open>A queue that can also free all its messages.\<close>

locale fifo_cleanup = fifo +
  fixes cleanup :: "'q \<Rightarrow> 's \<Rightarrow> ('q \<times> 's) option"
  assumes cleanup_rep: "rep q s xs \<Longrightarrow>
      \<exists>s'. cleanup q s = Some (empty, s') \<and> live s' = live s - set xs \<and>
        (\<forall>r ys. rep r s ys \<longrightarrow> set ys \<inter> set xs = {} \<longrightarrow> rep r s' ys)"
begin

lemma family_cleanup:
  assumes fam: "family rep s fam f" and c: "fam c = Some q"
  shows "\<exists>s'. cleanup q s = Some (empty, s') \<and> live s' = live s - set (f c) \<and>
    family rep s' (fam(c \<mapsto> empty)) (f(c := []))"
proof -
  from cleanup_rep [OF family_at [OF fam c]] obtain s'
    where s': "cleanup q s = Some (empty, s')" "live s' = live s - set (f c)"
      and frame: "\<And>r ys. rep r s ys \<Longrightarrow> set ys \<inter> set (f c) = {} \<Longrightarrow> rep r s' ys"
    by blast
  have "rep r s' ((f(c := [])) d)" if "(fam(c \<mapsto> empty)) d = Some r" for d r
  proof (cases "d = c")
    case True
    with that rep_empty [of s'] show ?thesis by auto
  next
    case False
    with that have d: "fam d = Some r" by simp
    with fam c False have "set (f d) \<inter> set (f c) = {}"
      unfolding family_def disjoint_lists_def by blast
    with frame [OF family_at [OF fam d]] False show ?thesis by simp
  qed
  moreover from fam c have "disjoint_lists (dom (fam(c \<mapsto> empty))) (f(c := []))"
    by (auto simp: family_def disjoint_lists_def)
  ultimately show ?thesis
    using s' by (auto simp: family_def)
qed

end

end
