(* ===== verification/Jrpc_Queue.thy ===== *)
theory Jrpc_Queue
  imports Jrpc_Message Jrpc_Fifo
begin

text \<open>
  The message queue (\<open>lib/jrpc/queue.h\<close>, \<open>lib/jrpc/queue.c\<close>): a singly linked list through the
  \<open>next\<close> fields of the messages, with pointers to the first and the last message. The
  queue structure lives inside a connection, so an operation takes its value and returns the
  new one; the messages live in the store.

  \<open>queue_rep h q xs\<close> says that \<open>q\<close> represents the list \<open>xs\<close> of message addresses in the
  store \<open>h\<close>. The interpretation at the end proves the contract of \<open>Jrpc_Fifo\<close> for the code.
\<close>

section \<open>State and operations\<close>

record jrpc_queue =
  q_first :: ptr
  q_last :: ptr

definition jrpc_queue_init :: jrpc_queue where
  "jrpc_queue_init = \<lparr>q_first = NULL, q_last = NULL\<rparr>"

text \<open>The loop of \<open>jrpc_queue_cleanup\<close>. On a cyclic list it reads a message that it has freed.\<close>

partial_function (option) cleanup_loop :: "ptr \<Rightarrow> 'a mheap_scheme \<Rightarrow> 'a mheap_scheme option" where
  "cleanup_loop message w =
     (case message of
        NULL \<Rightarrow> Some w
      | Some a \<Rightarrow> do {
          b \<leftarrow> blocks w a;
          w' \<leftarrow> jrpc_message_dispose message w;
          cleanup_loop (msg_next (blk_msg b)) w'
        })"

definition jrpc_queue_cleanup ::
  "jrpc_queue \<Rightarrow> 'a mheap_scheme \<Rightarrow> (jrpc_queue \<times> 'a mheap_scheme) option" where
  "jrpc_queue_cleanup q w = do {
     w' \<leftarrow> cleanup_loop (q_first q) w;
     Some (jrpc_queue_init, w')
   }"

definition jrpc_queue_is_empty :: "jrpc_queue \<Rightarrow> bool" where
  "jrpc_queue_is_empty q \<longleftrightarrow> q_first q = NULL"

text \<open>The assignment \<open>message->next = v\<close>.\<close>

definition set_next :: "ptr \<Rightarrow> ptr \<Rightarrow> (addr \<rightharpoonup> msg_block) \<Rightarrow> (addr \<rightharpoonup> msg_block) option" where
  "set_next message v h = do {
     a \<leftarrow> message;
     b \<leftarrow> h a;
     Some (h(a \<mapsto> b\<lparr>blk_msg := (blk_msg b)\<lparr>msg_next := v\<rparr>\<rparr>))
   }"

definition jrpc_queue_append ::
  "jrpc_queue \<Rightarrow> ptr \<Rightarrow> 'a mheap_scheme \<Rightarrow> (jrpc_queue \<times> 'a mheap_scheme) option" where
  "jrpc_queue_append q message w = do {
     h1 \<leftarrow> set_next message NULL (blocks w);
     if q_last q \<noteq> NULL
     then do {
       h2 \<leftarrow> set_next (q_last q) message h1;
       Some (q\<lparr>q_last := message\<rparr>, w\<lparr>blocks := h2\<rparr>)
     }
     else Some (q\<lparr>q_first := message, q_last := message\<rparr>, w\<lparr>blocks := h1\<rparr>)
   }"

definition jrpc_queue_dequeue ::
  "jrpc_queue \<Rightarrow> 'a mheap_scheme \<Rightarrow> (ptr \<times> jrpc_queue) option" where
  "jrpc_queue_dequeue q w = (
     let result = q_first q
     in if result \<noteq> NULL
        then do {
          b \<leftarrow> deref (blocks w) (q_first q);
          let q1 = q\<lparr>q_first := msg_next (blk_msg b)\<rparr>;
          Some (result, if q_first q1 = NULL then q1\<lparr>q_last := NULL\<rparr> else q1)
        }
        else Some (result, q))"

section \<open>The list a queue represents\<close>

primrec chain :: "(addr \<rightharpoonup> msg_block) \<Rightarrow> ptr \<Rightarrow> addr list \<Rightarrow> bool" where
  "chain h p [] \<longleftrightarrow> p = NULL"
| "chain h p (a # as) \<longleftrightarrow> p = Some a \<and> (\<exists>b. h a = Some b \<and> chain h (msg_next (blk_msg b)) as)"

definition queue_rep :: "(addr \<rightharpoonup> msg_block) \<Rightarrow> jrpc_queue \<Rightarrow> addr list \<Rightarrow> bool" where
  "queue_rep h q xs \<longleftrightarrow>
     chain h (q_first q) xs \<and> q_last q = (if xs = [] then NULL else Some (last xs))"

lemma chain_NULL [simp]: "chain h NULL xs \<longleftrightarrow> xs = []"
  by (cases xs) auto

lemma chain_unique: "chain h p xs \<Longrightarrow> chain h p ys \<Longrightarrow> xs = ys"
proof (induction xs arbitrary: p ys)
  case Nil
  then show ?case by simp
next
  case (Cons a xs)
  then show ?case by (cases ys) auto
qed

lemma chain_dom: "chain h p xs \<Longrightarrow> set xs \<subseteq> dom h"
  by (induction xs arbitrary: p) auto

lemma chain_suffix: "chain h p (xs @ ys) \<Longrightarrow> \<exists>p'. chain h p' ys"
  by (induction xs arbitrary: p) auto

lemma chain_distinct: "chain h p xs \<Longrightarrow> distinct xs"
proof (induction xs arbitrary: p)
  case Nil
  then show ?case by simp
next
  case (Cons a xs)
  then obtain b where b: "h a = Some b" and tl: "chain h (msg_next (blk_msg b)) xs"
    by auto
  have "a \<notin> set xs"
  proof
    assume "a \<in> set xs"
    then obtain us vs where xs: "xs = us @ a # vs"
      by (auto dest: split_list)
    with tl have "\<exists>p'. chain h p' (a # vs)"
      by (blast intro: chain_suffix)
    with b have "chain h (msg_next (blk_msg b)) vs"
      by auto
    with tl have "xs = vs"
      by (rule chain_unique)
    with xs have "length vs = length (us @ a # vs)"
      by simp
    then show False by simp
  qed
  with tl Cons.IH show ?case by auto
qed

lemma chain_upd_outside: "a \<notin> set xs \<Longrightarrow> chain (h(a := v)) p xs = chain h p xs"
  by (induction xs arbitrary: p) auto

lemma chain_restrict: "set xs \<subseteq> A \<Longrightarrow> chain (h |` A) p xs = chain h p xs"
  by (induction xs arbitrary: p) auto

text \<open>Storing at the last message moves the end of the list.\<close>

lemma chain_snoc:
  assumes "chain h p (xs @ [l])" and "h l = Some bl" and "a \<notin> set (xs @ [l])"
    and "h a = Some ba" and "msg_next (blk_msg ba) = NULL"
  shows "chain (h(l \<mapsto> bl\<lparr>blk_msg := (blk_msg bl)\<lparr>msg_next := Some a\<rparr>\<rparr>)) p (xs @ [l, a])"
  using assms
proof (induction xs arbitrary: p)
  case Nil
  then show ?case by auto
next
  case (Cons x xs)
  have "distinct ((x # xs) @ [l])"
    using Cons.prems(1) by (rule chain_distinct)
  then have "x \<noteq> l" by auto
  with Cons show ?case by auto
qed

section \<open>What changing a link leaves alone\<close>

text \<open>\<open>payload\<close> is a message block without its link. Queue operations change no payload.\<close>

definition payload :: "msg_block \<Rightarrow> msg_block" where
  "payload b = b\<lparr>blk_msg := (blk_msg b)\<lparr>msg_next := NULL\<rparr>\<rparr>"

definition same_payload :: "(addr \<rightharpoonup> msg_block) \<Rightarrow> (addr \<rightharpoonup> msg_block) \<Rightarrow> bool" where
  "same_payload h h' \<longleftrightarrow> (\<forall>a. map_option payload (h a) = map_option payload (h' a))"

lemma payload_msg [simp]:
  "msg_text (payload b) = msg_text b"
  "msg_ok E a (payload b) = msg_ok E a b"
  "payload (b\<lparr>blk_msg := (blk_msg b)\<lparr>msg_next := v\<rparr>\<rparr>) = payload b"
  "payload (payload b) = payload b"
  by (simp_all add: payload_def msg_text_def msg_ok_def)

lemma same_payload_refl [simp]: "same_payload h h"
  by (simp add: same_payload_def)

lemma same_payload_trans [trans]: "same_payload h h' \<Longrightarrow> same_payload h' h'' \<Longrightarrow> same_payload h h''"
  by (simp add: same_payload_def)

lemma same_payload_at:
  assumes "same_payload h h'"
  shows "h' a = None \<longleftrightarrow> h a = None"
    and "h' a = Some b' \<Longrightarrow> \<exists>b. h a = Some b \<and> payload b = payload b'"
proof -
  have "map_option payload (h a) = map_option payload (h' a)"
    using assms by (simp add: same_payload_def)
  then show "h' a = None \<longleftrightarrow> h a = None"
    and "h' a = Some b' \<Longrightarrow> \<exists>b. h a = Some b \<and> payload b = payload b'"
    by (cases "h a"; cases "h' a"; simp)+
qed

lemma same_payload_dom: "same_payload h h' \<Longrightarrow> dom h' = dom h"
  by (simp add: dom_def same_payload_at(1))

lemma same_payload_text:
  assumes "same_payload h h'"
  shows "map_option msg_text (h' a) = map_option msg_text (h a)"
proof -
  have "map_option msg_text (map_option payload (h' a)) = map_option msg_text (map_option payload (h a))"
    using assms by (simp add: same_payload_def)
  then show ?thesis by (simp add: option.map_comp o_def)
qed

lemma same_payload_msg:
  assumes "same_payload h h'" and "h' a = Some b'"
  obtains b where "h a = Some b" and "msg_text b = msg_text b'" and "\<And>E :: ('j, 'e) env_scheme. msg_ok E a b = msg_ok E a b'"
proof -
  from same_payload_at(2) [OF assms] obtain b where b: "h a = Some b" and eq: "payload b = payload b'"
    by blast
  show ?thesis
  proof (rule that)
    show "h a = Some b" by (rule b)
    show "msg_text b = msg_text b'" using eq by (metis payload_msg(1))
    show "msg_ok E a b = msg_ok E a b'" for E :: "('j, 'e) env_scheme" using eq by (metis payload_msg(2))
  qed
qed

lemma set_next_eq:
  "set_next (Some a) v h = Some h' \<longleftrightarrow>
     (\<exists>b. h a = Some b \<and> h' = h(a \<mapsto> b\<lparr>blk_msg := (blk_msg b)\<lparr>msg_next := v\<rparr>\<rparr>))"
  by (auto simp: set_next_def Option.bind_eq_Some_conv)

lemma set_next_payload: "set_next p v h = Some h' \<Longrightarrow> same_payload h h'"
  by (cases p) (auto simp: set_next_eq same_payload_def, simp add: set_next_def)

section \<open>Every operation on a represented list\<close>

lemma queue_rep_init [simp]: "queue_rep h jrpc_queue_init xs \<longleftrightarrow> xs = []"
  by (auto simp: queue_rep_def jrpc_queue_init_def)

lemma queue_rep_unique: "queue_rep h q xs \<Longrightarrow> queue_rep h q ys \<Longrightarrow> xs = ys"
  by (auto simp: queue_rep_def dest: chain_unique)

lemma queue_rep_dom: "queue_rep h q xs \<Longrightarrow> set xs \<subseteq> dom h"
  by (auto simp: queue_rep_def dest: chain_dom)

lemma queue_rep_distinct: "queue_rep h q xs \<Longrightarrow> distinct xs"
  by (auto simp: queue_rep_def dest: chain_distinct)

lemma queue_rep_upd_outside: "a \<notin> set xs \<Longrightarrow> queue_rep (h(a := v)) q xs = queue_rep h q xs"
  by (simp add: queue_rep_def chain_upd_outside)

lemma queue_rep_restrict: "set xs \<subseteq> A \<Longrightarrow> queue_rep (h |` A) q xs = queue_rep h q xs"
  by (simp add: queue_rep_def chain_restrict)

lemma is_empty_rep: "queue_rep h q xs \<Longrightarrow> jrpc_queue_is_empty q \<longleftrightarrow> xs = []"
  by (cases xs) (auto simp: queue_rep_def jrpc_queue_is_empty_def)

lemma append_rep:
  assumes rep: "queue_rep (blocks w) q xs" and a: "a \<in> dom (blocks w)" and new: "a \<notin> set xs"
  shows "\<exists>q' h'. jrpc_queue_append q (Some a) w = Some (q', w\<lparr>blocks := h'\<rparr>) \<and>
    queue_rep h' q' (xs @ [a]) \<and> same_payload (blocks w) h' \<and>
    (\<forall>c. c \<noteq> a \<longrightarrow> c \<notin> set xs \<longrightarrow> h' c = blocks w c)"
proof -
  from a obtain b where b: "blocks w a = Some b"
    by auto
  let ?b = "b\<lparr>blk_msg := (blk_msg b)\<lparr>msg_next := NULL\<rparr>\<rparr>"
  let ?h1 = "(blocks w)(a \<mapsto> ?b)"
  from b have s1: "set_next (Some a) NULL (blocks w) = Some ?h1"
    by (simp add: set_next_eq)
  then have p1: "same_payload (blocks w) ?h1"
    by (rule set_next_payload)
  have rep1: "queue_rep ?h1 q xs"
    using rep new by (simp add: queue_rep_upd_outside)
  show ?thesis
  proof (cases xs rule: rev_cases)
    case Nil
    with rep have q: "q_first q = NULL" "q_last q = NULL"
      by (auto simp: queue_rep_def)
    show ?thesis
      by (rule exI [of _ "\<lparr>q_first = Some a, q_last = Some a\<rparr>"], rule exI [of _ ?h1])
         (use q s1 p1 Nil in \<open>simp add: jrpc_queue_append_def queue_rep_def\<close>)
  next
    case (snoc ys l)
    with rep1 have q: "q_last q = Some l" and ch: "chain ?h1 (q_first q) (ys @ [l])"
      by (auto simp: queue_rep_def)
    from ch have "l \<in> dom ?h1"
      by (auto dest: chain_dom)
    then obtain bl where bl: "?h1 l = Some bl" by blast
    let ?h2 = "?h1(l \<mapsto> bl\<lparr>blk_msg := (blk_msg bl)\<lparr>msg_next := Some a\<rparr>\<rparr>)"
    from bl have s2: "set_next (Some l) (Some a) ?h1 = Some ?h2"
      using set_next_eq by blast
    with p1 have p2: "same_payload (blocks w) ?h2"
      by (blast intro: same_payload_trans set_next_payload)
    have "chain ?h2 (q_first q) (ys @ [l, a])"
      using ch bl by (rule chain_snoc) (use new snoc in auto)
    then show ?thesis
      by (intro exI [of _ "q\<lparr>q_last := Some a\<rparr>"] exI [of _ ?h2])
         (use q s1 s2 p2 snoc in \<open>simp add: jrpc_queue_append_def queue_rep_def\<close>)
  qed
qed

lemma dequeue_rep_Nil: "queue_rep (blocks w) q [] \<Longrightarrow> jrpc_queue_dequeue q w = Some (NULL, q)"
  by (simp add: queue_rep_def jrpc_queue_dequeue_def)

lemma dequeue_rep_Cons:
  assumes "queue_rep (blocks w) q (a # xs)"
  shows "\<exists>q'. jrpc_queue_dequeue q w = Some (Some a, q') \<and> queue_rep (blocks w) q' xs"
proof -
  from assms obtain b where q: "q_first q = Some a" and b: "blocks w a = Some b"
    and ch: "chain (blocks w) (msg_next (blk_msg b)) xs" and l: "q_last q = Some (last (a # xs))"
    by (auto simp: queue_rep_def)
  show ?thesis
    using q b ch l by (cases xs) (auto simp: jrpc_queue_dequeue_def queue_rep_def Let_def)
qed

text \<open>The loop of the cleanup frees exactly the messages of the list, and so it returns.\<close>

lemma cleanup_loop_chain:
  "chain (blocks w) p xs \<Longrightarrow> cleanup_loop p w = Some (w\<lparr>blocks := blocks w |` (- set xs)\<rparr>)"
proof (induction xs arbitrary: p w)
  case Nil
  then show ?case by (simp add: cleanup_loop.simps)
next
  case (Cons a xs)
  then obtain b where p: "p = Some a" and b: "blocks w a = Some b"
    and ch: "chain (blocks w) (msg_next (blk_msg b)) xs"
    by auto
  have "a \<notin> set xs"
    using chain_distinct [OF Cons.prems] by simp
  with ch have "chain (blocks (w\<lparr>blocks := (blocks w)(a := None)\<rparr>)) (msg_next (blk_msg b)) xs"
    by (simp add: chain_upd_outside)
  then have "cleanup_loop (msg_next (blk_msg b)) (w\<lparr>blocks := (blocks w)(a := None)\<rparr>)
      = Some (w\<lparr>blocks := (blocks w)(a := None) |` (- set xs)\<rparr>)"
    using Cons.IH by fastforce
  moreover have "(blocks w)(a := None) |` (- set xs) = blocks w |` (- set (a # xs))"
    by (auto simp: restrict_map_def)
  ultimately show ?case
    using p b by (simp add: cleanup_loop.simps)
qed

lemma cleanup_rep:
  "queue_rep (blocks w) q xs \<Longrightarrow>
   jrpc_queue_cleanup q w = Some (jrpc_queue_init, w\<lparr>blocks := blocks w |` (- set xs)\<rparr>)"
  by (auto simp: queue_rep_def jrpc_queue_cleanup_def dest: cleanup_loop_chain)

section \<open>The queue of the code is a first-in first-out queue\<close>

definition only_links :: "'a mheap_scheme \<Rightarrow> 'a mheap_scheme \<Rightarrow> bool" where
  "only_links w w' \<longleftrightarrow> w' = w\<lparr>blocks := blocks w'\<rparr> \<and> same_payload (blocks w) (blocks w')"

lemma only_links_upd: "same_payload (blocks w) h \<Longrightarrow> only_links w (w\<lparr>blocks := h\<rparr>)"
  by (simp add: only_links_def)

lemma only_links_dom: "only_links w w' \<Longrightarrow> dom (blocks w') = dom (blocks w)"
  unfolding only_links_def by (blast dest: same_payload_dom)

interpretation jq: fifo_cleanup
  "\<lambda>q w. queue_rep (blocks w) q" "\<lambda>w. dom (blocks w)" only_links
  jrpc_queue_init jrpc_queue_is_empty
  "\<lambda>q a. jrpc_queue_append q (Some a)" jrpc_queue_dequeue jrpc_queue_cleanup
proof unfold_locales
  fix w w' w'' :: "'a mheap_scheme"
  assume 1: "only_links w w'" and 2: "only_links w' w''"
  then have "w'' = w\<lparr>blocks := blocks w''\<rparr>"
    unfolding only_links_def by (metis mheap.surjective mheap.update_convs(1))
  with 1 2 show "only_links w w''"
    by (auto simp: only_links_def intro: same_payload_trans)
next
  fix q xs a and w :: "'a mheap_scheme"
  assume "queue_rep (blocks w) q xs" "a \<in> dom (blocks w)" "a \<notin> set xs"
  then obtain q' h' where "jrpc_queue_append q (Some a) w = Some (q', w\<lparr>blocks := h'\<rparr>)"
    and "queue_rep h' q' (xs @ [a])" and "same_payload (blocks w) h'"
    and same: "\<And>c. c \<noteq> a \<Longrightarrow> c \<notin> set xs \<Longrightarrow> h' c = blocks w c"
    using append_rep [of w q xs a] by blast
  moreover have "queue_rep h' r ys" if "queue_rep (blocks w) r ys" "set ys \<inter> insert a (set xs) = {}" for r ys
  proof -
    have "h' |` set ys = blocks w |` set ys"
      using that(2) by (auto simp: restrict_map_def fun_eq_iff intro!: same)
    then show ?thesis
      using that(1) queue_rep_restrict [of ys "set ys"] by (metis order_refl)
  qed
  ultimately show "\<exists>q' w'. jrpc_queue_append q (Some a) w = Some (q', w') \<and>
      queue_rep (blocks w') q' (xs @ [a]) \<and> only_links w w' \<and>
      (\<forall>r ys. queue_rep (blocks w) r ys \<longrightarrow> set ys \<inter> insert a (set xs) = {} \<longrightarrow> queue_rep (blocks w') r ys)"
    by (auto simp: only_links_upd)
next
  fix q xs and w :: "'a mheap_scheme"
  assume "queue_rep (blocks w) q xs"
  then show "\<exists>w'. jrpc_queue_cleanup q w = Some (jrpc_queue_init, w') \<and>
      dom (blocks w') = dom (blocks w) - set xs \<and>
      (\<forall>r ys. queue_rep (blocks w) r ys \<longrightarrow> set ys \<inter> set xs = {} \<longrightarrow> queue_rep (blocks w') r ys)"
    by (auto simp: cleanup_rep queue_rep_restrict disjoint_eq_subset_Compl)
qed (auto simp: only_links_def only_links_dom is_empty_rep dequeue_rep_Nil dequeue_rep_Cons
    dest: queue_rep_dom queue_rep_distinct queue_rep_unique same_payload_dom)

section \<open>Properties\<close>

text \<open>Two messages that are in no queue.\<close>

definition two_messages :: mheap where
  "two_messages = example_store 2 {} [0 \<mapsto> message_block ref_env 0 (Some (JArray [])),
     1 \<mapsto> message_block ref_env 1 (Some (JObject []))]"

text \<open>C32. The queue is first-in first-out: after any messages \<open>as\<close> have been appended to a queue
  that holds \<open>xs\<close>, dequeuing as often returns exactly the messages \<open>xs @ as\<close>, each once and in this
  order, and leaves the queue empty. No call is undefined.\<close>

theorem queue_fifo:
  assumes "queue_rep (blocks w) q xs" and "set as \<subseteq> dom (blocks w)" and "distinct as"
    and "set as \<inter> set xs = {}"
  shows "\<exists>q1 w1 q2. enq_all (\<lambda>q a. jrpc_queue_append q (Some a)) q as w = Some (q1, w1) \<and>
    deq_all jrpc_queue_dequeue q1 (length xs + length as) w1 = Some (map Some (xs @ as), q2) \<and>
    jrpc_queue_is_empty q2"
  using assms by (rule jq.first_in_first_out)

theorem queue_fifo_witness:
  "\<exists>q1 w1 q2. enq_all (\<lambda>q a. jrpc_queue_append q (Some a)) jrpc_queue_init [0, 1] two_messages = Some (q1, w1) \<and>
     deq_all jrpc_queue_dequeue q1 2 w1 = Some ([Some 0, Some 1], q2) \<and> jrpc_queue_is_empty q2"
  using queue_fifo [of two_messages jrpc_queue_init "[]" "[0, 1]"]
  by (simp add: two_messages_def example_store_def numeral_2_eq_2)

text \<open>Queues share one store, but an append to one of them disturbs neither another queue nor
  the content of any message: a queue whose messages are all different from the appended
  message and from those of the queue appended to still holds the same list, and every
  message keeps its text.\<close>

theorem queue_append_separate:
  assumes "queue_rep (blocks w) q xs" and "a \<in> dom (blocks w)" and "a \<notin> set xs"
    and "queue_rep (blocks w) r ys" and "set ys \<inter> insert a (set xs) = {}"
  shows "\<exists>q' w'. jrpc_queue_append q (Some a) w = Some (q', w') \<and>
    queue_rep (blocks w') q' (xs @ [a]) \<and> queue_rep (blocks w') r ys \<and>
    (\<forall>m. map_option msg_text (blocks w' m) = map_option msg_text (blocks w m))"
proof -
  from jq.enq_rep [OF assms(1-3)] obtain q' w'
    where 1: "jrpc_queue_append q (Some a) w = Some (q', w')" "queue_rep (blocks w') q' (xs @ [a])"
      and links: "only_links w w'"
      and frame: "\<And>r ys. queue_rep (blocks w) r ys \<Longrightarrow> set ys \<inter> insert a (set xs) = {} \<Longrightarrow> queue_rep (blocks w') r ys"
    by auto
  have same: "same_payload (blocks w) (blocks w')"
    using links by (simp add: only_links_def)
  from 1 frame [OF assms(4,5)] same_payload_text [OF same] show ?thesis by blast
qed

theorem queue_append_separate_witness:
  "\<exists>q' w'. jrpc_queue_append jrpc_queue_init (Some 1) two_messages = Some (q', w') \<and>
     queue_rep (blocks w') q' [1] \<and> queue_rep (blocks w') \<lparr>q_first = Some 0, q_last = Some 0\<rparr> [0] \<and>
     (\<forall>m. map_option msg_text (blocks w' m) = map_option msg_text (blocks two_messages m))"
proof -
  have "queue_rep (blocks two_messages) \<lparr>q_first = Some 0, q_last = Some 0\<rparr> [0]"
    by (simp add: queue_rep_def two_messages_def example_store_def message_block_def)
  from queue_append_separate [OF _ _ _ this, of jrpc_queue_init "[]" 1] show ?thesis
    by (simp add: two_messages_def example_store_def)
qed

text \<open>C33. The loop of \<open>jrpc_queue_cleanup\<close> ends, frees every message of the queue exactly once and
  nothing else, leaves the queue empty and every queue without a common message as it was; a
  second cleanup changes nothing.\<close>

theorem queue_cleanup_exact:
  assumes "queue_rep (blocks w) q xs"
  shows "\<exists>q' w'. jrpc_queue_cleanup q w = Some (q', w') \<and> jrpc_queue_is_empty q' \<and>
    (\<forall>a. blocks w' a = (if a \<in> set xs then None else blocks w a)) \<and>
    (\<forall>r ys. queue_rep (blocks w) r ys \<longrightarrow> set ys \<inter> set xs = {} \<longrightarrow> queue_rep (blocks w') r ys) \<and>
    jrpc_queue_cleanup q' w' = Some (q', w')"
proof -
  let ?w = "w\<lparr>blocks := blocks w |` (- set xs)\<rparr>"
  have "jrpc_queue_cleanup q w = Some (jrpc_queue_init, ?w)"
    using assms by (rule cleanup_rep)
  moreover have "jrpc_queue_cleanup jrpc_queue_init ?w = Some (jrpc_queue_init, ?w\<lparr>blocks := blocks ?w |` (- set [])\<rparr>)"
    by (rule cleanup_rep) simp
  moreover have "jrpc_queue_is_empty jrpc_queue_init"
    by (simp add: jrpc_queue_is_empty_def jrpc_queue_init_def)
  ultimately show ?thesis
    by (auto simp: queue_rep_restrict disjoint_eq_subset_Compl)
qed

theorem queue_cleanup_exact_witness:
  "\<exists>q' w'. jrpc_queue_cleanup \<lparr>q_first = Some 0, q_last = Some 0\<rparr> two_messages = Some (q', w') \<and>
     jrpc_queue_is_empty q' \<and> blocks w' 0 = None \<and> blocks w' 1 \<noteq> None"
proof -
  have "queue_rep (blocks two_messages) \<lparr>q_first = Some 0, q_last = Some 0\<rparr> [0]"
    by (simp add: queue_rep_def two_messages_def example_store_def message_block_def)
  moreover have "blocks two_messages 1 \<noteq> None"
    by (simp add: two_messages_def example_store_def)
  ultimately show ?thesis
    using queue_cleanup_exact [of two_messages "\<lparr>q_first = Some 0, q_last = Some 0\<rparr>" "[0]"] by fastforce
qed

end
