(* ===== verification/Jrpc_Connection.thy ===== *)
theory Jrpc_Connection
  imports Jrpc_Queue
begin

text \<open>
  Connections (\<open>lib/jrpc/connection_intern.h\<close>, \<open>lib/jrpc/connection.c\<close>): the per-session state
  of a websocket connection and the functions through which the user's code answers requests and
  pushes notifications. All of them build a JSON object and hand it to \<open>jrpc_connection_send\<close>,
  which serialises it, queues it and asks libwebsockets for a writeable callback.

  libwebsockets is third-party code. What passes between it and the library is recorded in
  \<open>lws_log\<close>: the requests and writes of the library, and the writeable callbacks that libwebsockets
  delivers. The lemmas give each function as one equation.
\<close>

section \<open>The exchange with libwebsockets\<close>

type_synonym wsi = nat

datatype lws_event =
    On_writable wsi      \<comment> \<open>the library calls \<open>lws_callback_on_writable\<close>\<close>
  | Write wsi string     \<comment> \<open>the library calls \<open>lws_write\<close> with a text frame\<close>
  | Adopt nat "char_const option"
                         \<comment> \<open>the library calls \<open>lws_adopt_descriptor_vhost\<close>: descriptor, protocol\<close>
  | Writeable wsi        \<comment> \<open>libwebsockets delivers \<open>LWS_CALLBACK_SERVER_WRITEABLE\<close>\<close>

record lheap = mheap +
  lws_log :: "lws_event list"

text \<open>\<open>wants s log\<close>: a writeable callback for \<open>s\<close> was requested after the last one delivered.
  \<open>written s log\<close>: the texts written to \<open>s\<close>, in order.\<close>

fun note_event :: "wsi \<Rightarrow> lws_event \<Rightarrow> bool \<Rightarrow> bool" where
  "note_event s (On_writable s') b = (s' = s \<or> b)"
| "note_event s (Writeable s') b = (s' \<noteq> s \<and> b)"
| "note_event s _ b = b"

definition wants :: "wsi \<Rightarrow> lws_event list \<Rightarrow> bool" where
  "wants s log = fold (note_event s) log False"

fun written :: "wsi \<Rightarrow> lws_event list \<Rightarrow> string list" where
  "written s [] = []"
| "written s (Write s' t # es) = (if s' = s then t # written s es else written s es)"
| "written s (_ # es) = written s es"

lemma wants_simps [simp]:
  "\<not> wants s []"
  "wants s (log @ [e]) = note_event s e (wants s log)"
  by (simp_all add: wants_def)

lemma written_append [simp]: "written s (es @ es') = written s es @ written s es'"
  by (induction s es rule: written.induct) auto

section \<open>State\<close>

record jrpc_connection =
  c_server :: ptr
  c_wsi :: "wsi option"
  c_messages :: jrpc_queue
  c_user_data :: ptr

text \<open>The memory of the sessions is allocated (zeroed) and released by libwebsockets.\<close>

record cheap = lheap +
  conns :: "addr \<rightharpoonup> jrpc_connection"

definition zero_connection :: jrpc_connection where
  "zero_connection = \<lparr>c_server = NULL, c_wsi = NULL,
     c_messages = \<lparr>q_first = NULL, q_last = NULL\<rparr>, c_user_data = NULL\<rparr>"

lemma connection_layers [record_layers]:
  "w\<lparr>conns := cs, lws_log := l\<rparr> = w\<lparr>lws_log := l, conns := cs\<rparr>"
  "w\<lparr>conns := cs, blocks := bs\<rparr> = w\<lparr>blocks := bs, conns := cs\<rparr>"
  "v\<lparr>lws_log := l, blocks := bs\<rparr> = v\<lparr>blocks := bs, lws_log := l\<rparr>"
  by (cases w; cases v; simp)+

section \<open>Operations\<close>

definition lws_callback_on_writable :: "wsi option \<Rightarrow> 'a lheap_scheme \<Rightarrow> 'a lheap_scheme option" where
  "lws_callback_on_writable wsi w = do {
     s \<leftarrow> wsi;
     Some (w\<lparr>lws_log := lws_log w @ [On_writable s]\<rparr>)
   }"

definition jrpc_connection_send ::
  "('j, 'e) env_scheme \<Rightarrow> ptr \<Rightarrow> 'j option \<Rightarrow> 'a cheap_scheme \<Rightarrow> 'a cheap_scheme option" where
  "jrpc_connection_send E connection message_data w = do {
     (message, w1) \<leftarrow> jrpc_message_create E message_data w;
     w2 \<leftarrow> (if message \<noteq> NULL
       then do {
         c \<leftarrow> connection;
         conn \<leftarrow> conns w1 c;
         (q, w') \<leftarrow> jrpc_queue_append (c_messages conn) message w1;
         lws_callback_on_writable (c_wsi conn)
           (w'\<lparr>conns := (conns w')(c \<mapsto> conn\<lparr>c_messages := q\<rparr>)\<rparr>)
       }
       else Some w1);
     Some (json_decref message_data w2)
   }"

definition jrpc_connection_init ::
  "ptr \<Rightarrow> ptr \<Rightarrow> wsi option \<Rightarrow> 'a cheap_scheme \<Rightarrow> 'a cheap_scheme option" where
  "jrpc_connection_init connection server wsi w = do {
     c \<leftarrow> connection;
     conn \<leftarrow> conns w c;
     let conn1 = conn\<lparr>c_server := server, c_wsi := wsi, c_user_data := NULL\<rparr>;
     Some (w\<lparr>conns := (conns w)(c \<mapsto> conn1\<lparr>c_messages := jrpc_queue_init\<rparr>)\<rparr>)
   }"

definition jrpc_connection_cleanup :: "ptr \<Rightarrow> 'a cheap_scheme \<Rightarrow> 'a cheap_scheme option" where
  "jrpc_connection_cleanup connection w = do {
     c \<leftarrow> connection;
     conn \<leftarrow> conns w c;
     (q, w') \<leftarrow> jrpc_queue_cleanup (c_messages conn) w;
     Some (w'\<lparr>conns := (conns w')(c \<mapsto> conn\<lparr>c_messages := q\<rparr>)\<rparr>)
   }"

text \<open>The C expression \<open>json_integer(id)\<close> converts the \<open>int\<close> to \<open>json_int_t\<close>.\<close>

definition int_to_json :: "c_int \<Rightarrow> json_int_t" where
  "int_to_json i = scast i"

definition jrpc_respond ::
  "('j, 'e) env_scheme \<Rightarrow> ptr \<Rightarrow> 'j option \<Rightarrow> c_int \<Rightarrow> 'a cheap_scheme \<Rightarrow> 'a cheap_scheme option" where
  "jrpc_respond E connection result req_id w = (
     let (response, w1) = call_new (json_object E) w;
         (response, w2) = call_object_set_new E response ''result'' result w1;
         (i, w3) = call_new (\<lambda>t. json_integer E t (int_to_json req_id)) w2;
         (response, w4) = call_object_set_new E response ''id'' i w3
     in jrpc_connection_send E connection response w4)"

definition jrpc_respond_error ::
  "('j, 'e) env_scheme \<Rightarrow> ptr \<Rightarrow> c_int \<Rightarrow> string \<Rightarrow> c_int \<Rightarrow> 'a cheap_scheme
     \<Rightarrow> 'a cheap_scheme option" where
  "jrpc_respond_error E connection error_code error_message req_id w = (
     let (holder, w1) = call_new (json_object E) w;
         (i, w2) = call_new (\<lambda>t. json_integer E t (int_to_json error_code)) w1;
         (holder, w3) = call_object_set_new E holder ''code'' i w2;
         (s, w4) = call_new (\<lambda>t. json_string E t error_message) w3;
         (holder, w5) = call_object_set_new E holder ''message'' s w4;
         (response, w6) = call_new (json_object E) w5;
         (response, w7) = call_object_set_new E response ''error'' holder w6;
         (i, w8) = call_new (\<lambda>t. json_integer E t (int_to_json req_id)) w7;
         (response, w9) = call_object_set_new E response ''id'' i w8
     in jrpc_connection_send E connection response w9)"

definition jrpc_notify ::
  "('j, 'e) env_scheme \<Rightarrow> ptr \<Rightarrow> string \<Rightarrow> 'j option \<Rightarrow> 'a cheap_scheme
     \<Rightarrow> 'a cheap_scheme option" where
  "jrpc_notify E connection method_name params w = (
     let (notification, w1) = call_new (json_object E) w;
         (s, w2) = call_new (\<lambda>t. json_string E t method_name) w1;
         (notification, w3) = call_object_set_new E notification ''method'' s w2;
         (notification, w4) = call_object_set_new E notification ''params'' params w3
     in jrpc_connection_send E connection notification w4)"

definition jrpc_connection_get_server :: "ptr \<Rightarrow> 'a cheap_scheme \<Rightarrow> ptr option" where
  "jrpc_connection_get_server connection w = do {
     conn \<leftarrow> deref (conns w) connection;
     Some (c_server conn)
   }"

definition jrpc_connection_set_userdata :: "ptr \<Rightarrow> ptr \<Rightarrow> 'a cheap_scheme \<Rightarrow> 'a cheap_scheme option" where
  "jrpc_connection_set_userdata connection user_data w = do {
     c \<leftarrow> connection;
     conn \<leftarrow> conns w c;
     Some (w\<lparr>conns := (conns w)(c \<mapsto> conn\<lparr>c_user_data := user_data\<rparr>)\<rparr>)
   }"

definition jrpc_connection_get_userdata :: "ptr \<Rightarrow> 'a cheap_scheme \<Rightarrow> ptr option" where
  "jrpc_connection_get_userdata connection w = do {
     conn \<leftarrow> deref (conns w) connection;
     Some (c_user_data conn)
   }"

end
