(* ===== verification/Jrpc_Protocol.thy ===== *)
theory Jrpc_Protocol
  imports Jrpc_Connection
begin

text \<open>
  The JSON-RPC protocol (\<open>lib/jrpc/protocol.h\<close>, \<open>lib/jrpc/protocol.c\<close>): parsing and dispatch of
  incoming messages, the callback that libwebsockets invokes, the default handlers and the wakeup
  socket.

  The user's handlers are function pointers: \<open>invoke_fn\<close> and its siblings name either the default
  function of the library or a function of the user, and the record \<open>user_code\<close>, an argument of
  the definitions, says what the user's functions do to the state. They are arbitrary here;
  \<open>Jrpc_Callback\<close> states what they have to respect.

  \<open>jrpc_protocol\<close> is the first member of \<open>jrpc_server\<close>, so both have the same address.
  The store \<open>protos\<close> holds the protocol parts and \<open>servers\<close> (\<open>Jrpc_Server\<close>) the rest.
\<close>

section \<open>State\<close>

text \<open>The types of the handlers (\<open>include/jrpc/server.h\<close>).\<close>

datatype invoke_fn = Jrpc_default_onmethod | User_onmethod nat
datatype notify_fn = Jrpc_default_onnotify | User_onnotify nat
datatype connected_fn = Jrpc_default_onconnected | User_onconnected nat
datatype disconnected_fn = Jrpc_default_ondisconnected | User_ondisconnected nat

record ('j, 'w) user_code =
  user_onmethod :: "nat \<Rightarrow> ptr \<Rightarrow> string \<Rightarrow> 'j \<Rightarrow> c_int \<Rightarrow> 'w \<Rightarrow> 'w option"
  user_onnotify :: "nat \<Rightarrow> ptr \<Rightarrow> string \<Rightarrow> 'j \<Rightarrow> 'w \<Rightarrow> 'w option"
  user_onconnected :: "nat \<Rightarrow> ptr \<Rightarrow> 'w \<Rightarrow> 'w option"
  user_ondisconnected :: "nat \<Rightarrow> ptr \<Rightarrow> 'w \<Rightarrow> 'w option"

text \<open>A function pointer may be NULL. \<open>p_user_data\<close> and the two descriptors of \<open>p_fd\<close> are
  \<^const>\<open>None\<close> while they are indeterminate, that is until something is stored in them.\<close>

record jrpc_protocol =
  p_server :: ptr
  p_onmethod :: "invoke_fn option"
  p_onnotify :: "notify_fn option"
  p_onconnected :: "connected_fn option"
  p_ondisconnected :: "disconnected_fn option"
  p_user_data :: "ptr option"
  p_fd :: "nat option \<times> nat option"

text \<open>The sockets of the operating system: one end of a datagram pair knows its peer and
  holds the datagrams that have arrived.\<close>

record socket =
  peer :: nat
  inbox :: "string list"

record pheap = cheap +
  protos :: "addr \<rightharpoonup> jrpc_protocol"
  sockets :: "nat \<rightharpoonup> socket"
  next_fd :: nat

section \<open>System calls on the sockets\<close>

text \<open>\<open>socketpair\<close> can fail like an allocation. A \<open>write\<close> to a closed descriptor or with a closed
  peer fails and changes nothing. A \<open>read\<close> takes one datagram; on an empty socket it
  blocks, on a closed descriptor it fails.\<close>

definition sys_socketpair :: "'a pheap_scheme \<Rightarrow> (nat \<times> nat) option \<times> 'a pheap_scheme" where
  "sys_socketpair w =
     (if oom w (clock w) then (NULL, w\<lparr>clock := Suc (clock w)\<rparr>)
      else let a = next_fd w; b = Suc a
           in (Some (a, b),
               w\<lparr>clock := Suc (clock w),
                 sockets := (sockets w)(a \<mapsto> \<lparr>peer = b, inbox = []\<rparr>, b \<mapsto> \<lparr>peer = a, inbox = []\<rparr>),
                 next_fd := Suc b\<rparr>))"

definition sys_write :: "nat \<Rightarrow> string \<Rightarrow> 'a pheap_scheme \<Rightarrow> 'a pheap_scheme" where
  "sys_write fd bs w =
     (case sockets w fd of
        None \<Rightarrow> w
      | Some s \<Rightarrow>
          (case sockets w (peer s) of
             None \<Rightarrow> w
           | Some t \<Rightarrow> w\<lparr>sockets := (sockets w)(peer s \<mapsto> t\<lparr>inbox := inbox t @ [bs]\<rparr>)\<rparr>))"

definition sys_read :: "nat \<Rightarrow> 'a pheap_scheme \<Rightarrow> 'a pheap_scheme option" where
  "sys_read fd w =
     (case sockets w fd of
        None \<Rightarrow> Some w
      | Some s \<Rightarrow>
          (case inbox s of
             [] \<Rightarrow> None
           | d # ds \<Rightarrow> Some (w\<lparr>sockets := (sockets w)(fd \<mapsto> s\<lparr>inbox := ds\<rparr>)\<rparr>)))"

definition sys_close :: "nat \<Rightarrow> 'a pheap_scheme \<Rightarrow> 'a pheap_scheme" where
  "sys_close fd w = w\<lparr>sockets := (sockets w)(fd := None)\<rparr>"

section \<open>Default handlers\<close>

definition jrpc_default_onmethod ::
  "('j, 'e) env_scheme \<Rightarrow> ptr \<Rightarrow> string \<Rightarrow> 'j \<Rightarrow> c_int \<Rightarrow> 'a pheap_scheme \<Rightarrow> 'a pheap_scheme option" where
  "jrpc_default_onmethod E connection method_name params req_id w =
     jrpc_respond_error E connection (-1) ''not implemented'' req_id w"

definition jrpc_default_onnotify ::
  "ptr \<Rightarrow> string \<Rightarrow> 'j \<Rightarrow> 'a pheap_scheme \<Rightarrow> 'a pheap_scheme option" where
  "jrpc_default_onnotify connection method_name content w = Some w"

definition jrpc_default_onconnected :: "ptr \<Rightarrow> 'a pheap_scheme \<Rightarrow> 'a pheap_scheme option" where
  "jrpc_default_onconnected connection w = Some w"

definition jrpc_default_ondisconnected :: "ptr \<Rightarrow> 'a pheap_scheme \<Rightarrow> 'a pheap_scheme option" where
  "jrpc_default_ondisconnected connection w = Some w"

text \<open>Calls through the function pointers of a protocol; a call through NULL is undefined.\<close>

fun call_onmethod ::
  "('j, 'e) env_scheme \<Rightarrow> ('j, 'a pheap_scheme) user_code \<Rightarrow> invoke_fn option
     \<Rightarrow> ptr \<Rightarrow> string \<Rightarrow> 'j \<Rightarrow> c_int \<Rightarrow> 'a pheap_scheme \<Rightarrow> 'a pheap_scheme option" where
  "call_onmethod E U None c name params i w = None"
| "call_onmethod E U (Some Jrpc_default_onmethod) c name params i w =
     jrpc_default_onmethod E c name params i w"
| "call_onmethod E U (Some (User_onmethod n)) c name params i w = user_onmethod U n c name params i w"

fun call_onnotify ::
  "('j, 'a pheap_scheme) user_code \<Rightarrow> notify_fn option
     \<Rightarrow> ptr \<Rightarrow> string \<Rightarrow> 'j \<Rightarrow> 'a pheap_scheme \<Rightarrow> 'a pheap_scheme option" where
  "call_onnotify U None c name params w = None"
| "call_onnotify U (Some Jrpc_default_onnotify) c name params w = jrpc_default_onnotify c name params w"
| "call_onnotify U (Some (User_onnotify n)) c name params w = user_onnotify U n c name params w"

fun call_onconnected ::
  "('j, 'a pheap_scheme) user_code \<Rightarrow> connected_fn option \<Rightarrow> ptr \<Rightarrow> 'a pheap_scheme
     \<Rightarrow> 'a pheap_scheme option" where
  "call_onconnected U None c w = None"
| "call_onconnected U (Some Jrpc_default_onconnected) c w = jrpc_default_onconnected c w"
| "call_onconnected U (Some (User_onconnected n)) c w = user_onconnected U n c w"

fun call_ondisconnected ::
  "('j, 'a pheap_scheme) user_code \<Rightarrow> disconnected_fn option \<Rightarrow> ptr \<Rightarrow> 'a pheap_scheme
     \<Rightarrow> 'a pheap_scheme option" where
  "call_ondisconnected U None c w = None"
| "call_ondisconnected U (Some Jrpc_default_ondisconnected) c w = jrpc_default_ondisconnected c w"
| "call_ondisconnected U (Some (User_ondisconnected n)) c w = user_ondisconnected U n c w"

section \<open>Incoming messages\<close>

text \<open>The C statement \<open>int id = json_integer_value(id_holder)\<close> keeps the low 32 bits.\<close>

definition json_to_int :: "json_int_t \<Rightarrow> c_int" where
  "json_to_int i = ucast i"

text \<open>The checks on a parsed message and the call that they lead to.\<close>

definition jrpc_protocol_dispatch ::
  "('j, 'e) env_scheme \<Rightarrow> ('j, 'a pheap_scheme) user_code \<Rightarrow> ptr \<Rightarrow> ptr \<Rightarrow> 'j
     \<Rightarrow> 'a pheap_scheme \<Rightarrow> 'a pheap_scheme option" where
  "jrpc_protocol_dispatch E U protocol connection request w =
     (case (json_object_get E request ''method'', json_object_get E request ''params'') of
        (Some name_holder, Some params) \<Rightarrow>
          if json_is_string E name_holder \<and> (json_is_array E params \<or> json_is_object E params)
          then do {
            p \<leftarrow> deref (protos w) protocol;
            let method_name = json_string_value E name_holder;
            (case json_object_get E request ''id'' of
               Some id_holder \<Rightarrow>
                 if json_is_integer E id_holder
                 then call_onmethod E U (p_onmethod p) connection method_name params
                        (json_to_int (json_integer_value E id_holder)) w
                 else call_onnotify U (p_onnotify p) connection method_name params w
             | NULL \<Rightarrow> call_onnotify U (p_onnotify p) connection method_name params w)
          }
          else Some w
      | _ \<Rightarrow> Some w)"

definition jrpc_protocol_process ::
  "('j, 'e) env_scheme \<Rightarrow> ('j, 'a pheap_scheme) user_code \<Rightarrow> ptr \<Rightarrow> ptr \<Rightarrow> string
     \<Rightarrow> 'a pheap_scheme \<Rightarrow> 'a pheap_scheme option" where
  "jrpc_protocol_process E U protocol connection buffer w = (
     let (request, w1) = call_new (\<lambda>t. json_loadb E t buffer) w
     in case request of
          NULL \<Rightarrow> Some w1
        | Some r \<Rightarrow> do {
            w2 \<leftarrow> jrpc_protocol_dispatch E U protocol connection r w1;
            Some (json_decref request w2)
          })"

section \<open>The callback of libwebsockets\<close>

datatype lws_callback_reasons =
    LWS_CALLBACK_PROTOCOL_INIT
  | LWS_CALLBACK_ESTABLISHED
  | LWS_CALLBACK_CLOSED
  | LWS_CALLBACK_RECEIVE
  | LWS_CALLBACK_SERVER_WRITEABLE
  | LWS_CALLBACK_RAW_RX_FILE
  | LWS_CALLBACK_OTHER nat

datatype lws_callback = Lws_callback_http_dummy | Jrpc_protocol_callback

text \<open>The fields of \<open>struct lws_protocols\<close> that the sources set; \<open>sizeof\<close> is that of LP64.\<close>

record lws_protocols =
  lp_name :: "char_const option"
  lp_callback :: "lws_callback option"
  lp_per_session_data_size :: nat
  lp_user :: ptr

definition sizeof_jrpc_connection :: nat where
  "sizeof_jrpc_connection = 40"

text \<open>\<open>lws_write\<close> reads \<open>n\<close> bytes at \<open>p\<close> and overwrites the \<open>LWS_PRE\<close> bytes before them, which
  must not reach into the structure at the start of the block.\<close>

definition lws_write ::
  "('j, 'e) env_scheme \<Rightarrow> wsi \<Rightarrow> char_ptr \<Rightarrow> size_t \<Rightarrow> 'a lheap_scheme \<Rightarrow> 'a lheap_scheme option" where
  "lws_write E s p n w =
     (if unat sizeof_jrpc_message + unat (lws_pre E) \<le> snd p
      then do {
        bs \<leftarrow> load_bytes p (unat n) (blocks w);
        Some (w\<lparr>lws_log := lws_log w @ [Write s bs]\<rparr>)
      }
      else None)"

text \<open>The case \<open>LWS_CALLBACK_SERVER_WRITEABLE\<close>: one message per callback.\<close>

definition callback_writeable ::
  "('j, 'e) env_scheme \<Rightarrow> wsi \<Rightarrow> ptr \<Rightarrow> 'a cheap_scheme \<Rightarrow> 'a cheap_scheme option" where
  "callback_writeable E s connection w =
     (case connection of
        NULL \<Rightarrow> Some w
      | Some c \<Rightarrow> do {
          conn \<leftarrow> conns w c;
          if jrpc_queue_is_empty (c_messages conn) then Some w
          else do {
            (message, q) \<leftarrow> jrpc_queue_dequeue (c_messages conn) w;
            let w1 = w\<lparr>conns := (conns w)(c \<mapsto> conn\<lparr>c_messages := q\<rparr>)\<rparr>;
            b \<leftarrow> deref (blocks w1) message;
            w2 \<leftarrow> lws_write E s (msg_data (blk_msg b)) (msg_length (blk_msg b)) w1;
            jrpc_message_dispose message w2
          }
        })"

text \<open>After the switch: a connection that has messages asks for a writeable callback.\<close>

definition request_writeable :: "wsi \<Rightarrow> ptr \<Rightarrow> 'a cheap_scheme \<Rightarrow> 'a cheap_scheme option" where
  "request_writeable s connection w =
     (case connection of
        NULL \<Rightarrow> Some w
      | Some c \<Rightarrow> do {
          conn \<leftarrow> conns w c;
          if jrpc_queue_is_empty (c_messages conn) then Some w
          else lws_callback_on_writable (Some s) w
        })"

text \<open>\<open>lws_protocol\<close> is what \<open>lws_get_protocol(wsi)\<close> returns, \<open>connection\<close> the argument \<open>user\<close> and
  \<open>input\<close> the \<open>length\<close> bytes at \<open>in\<close>.\<close>

definition jrpc_protocol_callback ::
  "('j, 'e) env_scheme \<Rightarrow> ('j, 'a pheap_scheme) user_code \<Rightarrow> lws_protocols option \<Rightarrow> wsi
     \<Rightarrow> lws_callback_reasons \<Rightarrow> ptr \<Rightarrow> string \<Rightarrow> 'a pheap_scheme \<Rightarrow> (c_int \<times> 'a pheap_scheme) option" where
  "jrpc_protocol_callback E U lws_protocol s reason connection input w =
     (case lws_protocol of
        NULL \<Rightarrow> Some (0, w)
      | Some lp \<Rightarrow> do {
          let protocol = lp_user lp;
          w1 \<leftarrow> (case reason of
              LWS_CALLBACK_PROTOCOL_INIT \<Rightarrow> do {
                p \<leftarrow> deref (protos w) protocol;
                fd \<leftarrow> fst (p_fd p);
                Some (w\<lparr>lws_log := lws_log w @ [Adopt fd (lp_name lp)]\<rparr>)
              }
            | LWS_CALLBACK_ESTABLISHED \<Rightarrow>
                if connection \<noteq> NULL
                then do {
                  p \<leftarrow> deref (protos w) protocol;
                  w' \<leftarrow> jrpc_connection_init connection (p_server p) (Some s) w;
                  call_onconnected U (p_onconnected p) connection w'
                }
                else Some w
            | LWS_CALLBACK_CLOSED \<Rightarrow>
                if connection \<noteq> NULL
                then do {
                  p \<leftarrow> deref (protos w) protocol;
                  w' \<leftarrow> call_ondisconnected U (p_ondisconnected p) connection w;
                  jrpc_connection_cleanup connection w'
                }
                else Some w
            | LWS_CALLBACK_RECEIVE \<Rightarrow>
                if connection \<noteq> NULL
                then jrpc_protocol_process E U protocol connection input w
                else Some w
            | LWS_CALLBACK_SERVER_WRITEABLE \<Rightarrow> callback_writeable E s connection w
            | LWS_CALLBACK_RAW_RX_FILE \<Rightarrow> do {
                p \<leftarrow> deref (protos w) protocol;
                fd \<leftarrow> fst (p_fd p);
                sys_read fd w
              }
            | LWS_CALLBACK_OTHER n \<Rightarrow> Some w);
          w2 \<leftarrow> request_writeable s connection w1;
          Some (0, w2)
        })"

section \<open>Set-up, clean-up and wakeup\<close>

text \<open>\<open>protocol->user_data\<close> is not among the fields that are initialised. When \<open>socketpair\<close> fails,
  its result is ignored and the descriptors stay indeterminate.\<close>

definition jrpc_server_protocol_init :: "ptr \<Rightarrow> ptr \<Rightarrow> 'a pheap_scheme \<Rightarrow> 'a pheap_scheme option" where
  "jrpc_server_protocol_init protocol server w = do {
     a \<leftarrow> protocol;
     p \<leftarrow> protos w a;
     let p1 = p\<lparr>p_server := server,
                p_onmethod := Some Jrpc_default_onmethod,
                p_onnotify := Some Jrpc_default_onnotify,
                p_onconnected := Some Jrpc_default_onconnected,
                p_ondisconnected := Some Jrpc_default_ondisconnected\<rparr>;
     let (fds, w1) = sys_socketpair w;
     let p2 = (case fds of NULL \<Rightarrow> p1 | Some (x, y) \<Rightarrow> p1\<lparr>p_fd := (Some x, Some y)\<rparr>);
     Some (w1\<lparr>protos := (protos w1)(a \<mapsto> p2)\<rparr>)
   }"

definition jrpc_protocol_cleanup :: "ptr \<Rightarrow> 'a pheap_scheme \<Rightarrow> 'a pheap_scheme option" where
  "jrpc_protocol_cleanup protocol w = do {
     p \<leftarrow> deref (protos w) protocol;
     fd0 \<leftarrow> fst (p_fd p);
     fd1 \<leftarrow> snd (p_fd p);
     Some (sys_close fd1 (sys_close fd0 w))
   }"

definition jrpc_protocol_init_lws :: "ptr \<Rightarrow> lws_protocols \<Rightarrow> lws_protocols" where
  "jrpc_protocol_init_lws protocol lp =
     lp\<lparr>lp_callback := Some Jrpc_protocol_callback,
        lp_per_session_data_size := sizeof_jrpc_connection,
        lp_user := protocol\<rparr>"

definition jrpc_protocol_wakeup :: "ptr \<Rightarrow> 'a pheap_scheme \<Rightarrow> 'a pheap_scheme option" where
  "jrpc_protocol_wakeup protocol w = do {
     p \<leftarrow> deref (protos w) protocol;
     fd \<leftarrow> snd (p_fd p);
     Some (sys_write fd [CHR 0x2A] w)
   }"

end
