(* ===== verification/Jrpc_Server.thy ===== *)
theory Jrpc_Server
  imports Jrpc_Protocol
begin

text \<open>
  The server object (\<open>lib/jrpc/server.c\<close>): creation, configuration, running and disposal. The
  record \<open>jrpc_server\<close> holds the members behind the protocol part; the strings that the
  server owns are blocks of the store \<open>cstrs\<close>. The functions of libwebsockets that create, run
  and destroy a context are fields of the record \<open>lws_api\<close>, an argument of the definitions.
\<close>

section \<open>State\<close>

datatype lws_option =
    LWS_SERVER_OPTION_HTTP_HEADERS_SECURITY_BEST_PRACTICES_ENFORCE
  | LWS_SERVER_OPTION_DO_SSL_GLOBAL_INIT

datatype lws_mount_protocol = LWSMPRO_FILE

text \<open>The fields of the structures of libwebsockets that the sources set. \<open>i_protocols\<close> is the
  index in \<open>ws_protocols\<close> that \<open>info.protocols\<close> points to, \<open>i_mounts\<close> whether \<open>info.mounts\<close> points
  to the server's mount (else it is NULL). Fields that \<open>memset\<close> zeroes and nothing
  sets are left out.\<close>

record lws_http_mount =
  m_mountpoint :: string
  m_origin :: "char_const option"
  m_def :: string
  m_origin_protocol :: lws_mount_protocol
  m_mountpoint_len :: nat

record lws_context_creation_info =
  i_port :: c_int
  i_mounts :: bool
  i_protocols :: nat
  i_vhost_name :: string
  i_ws_ping_pong_interval :: nat
  i_options :: "lws_option set"
  i_ssl_cert_filepath :: "char_const option"
  i_ssl_private_key_filepath :: "char_const option"

text \<open>\<^const>\<open>None\<close> marks an array or structure that has not been filled in.\<close>

record jrpc_server =
  s_ws_protocols :: "lws_protocols list option"
  s_mount :: "lws_http_mount option"
  s_info :: "lws_context_creation_info option"
  s_context :: ptr
  s_protocol_name :: ptr
  s_document_root :: ptr
  s_cert_path :: ptr
  s_key_path :: ptr
  s_port :: c_int

record sheap = pheap +
  servers :: "addr \<rightharpoonup> jrpc_server"
  cstrs :: "addr \<rightharpoonup> string"

text \<open>libwebsockets: the argument of \<open>lws_create_context\<close> is the address of the server, whose
  \<open>info\<close> it reads.\<close>

record 'w lws_api =
  lws_create_context :: "addr \<Rightarrow> 'w \<Rightarrow> (ptr \<times> 'w) option"
  lws_service :: "addr \<Rightarrow> c_int \<Rightarrow> 'w \<Rightarrow> 'w option"
  lws_context_destroy :: "addr \<Rightarrow> 'w \<Rightarrow> 'w option"

section \<open>Strings of the C library\<close>

definition strdup :: "string option \<Rightarrow> 'a sheap_scheme \<Rightarrow> (ptr \<times> 'a sheap_scheme) option" where
  "strdup s w = do {
     x \<leftarrow> s;
     let (p, w1) = malloc w;
     Some (p, case p of NULL \<Rightarrow> w1 | Some a \<Rightarrow> w1\<lparr>cstrs := (cstrs w1)(a \<mapsto> x)\<rparr>)
   }"

definition free_str :: "ptr \<Rightarrow> 'a sheap_scheme \<Rightarrow> 'a sheap_scheme option" where
  "free_str p w =
     (case p of
        NULL \<Rightarrow> Some w
      | Some a \<Rightarrow> if cstrs w a = None then None else Some (w\<lparr>cstrs := (cstrs w)(a := None)\<rparr>))"

section \<open>The context\<close>

abbreviation JRPC_SERVER_PROTOCOL_COUNT :: nat where
  "JRPC_SERVER_PROTOCOL_COUNT \<equiv> 3"

definition zero_lws_protocols :: lws_protocols where
  "zero_lws_protocols =
     \<lparr>lp_name = NULL, lp_callback = NULL, lp_per_session_data_size = 0, lp_user = NULL\<rparr>"

definition server_protocols :: "addr \<Rightarrow> jrpc_server \<Rightarrow> lws_protocols list" where
  "server_protocols a s = (
     let ps = replicate JRPC_SERVER_PROTOCOL_COUNT zero_lws_protocols;
         ps = ps[0 := (ps ! 0)\<lparr>lp_name := Some (Literal ''http''), lp_callback := Some Lws_callback_http_dummy\<rparr>];
         ps = ps[1 := (ps ! 1)\<lparr>lp_name := map_option At (s_protocol_name s)\<rparr>]
     in ps[1 := jrpc_protocol_init_lws (Some a) (ps ! 1)])"

definition server_mount :: "jrpc_server \<Rightarrow> lws_http_mount" where
  "server_mount s =
     \<lparr>m_mountpoint = ''/'', m_origin = map_option At (s_document_root s), m_def = ''index.html'',
      m_origin_protocol = LWSMPRO_FILE, m_mountpoint_len = 1\<rparr>"

definition server_info :: "jrpc_server \<Rightarrow> lws_context_creation_info" where
  "server_info s = (
     let info = \<lparr>i_port = s_port s, i_mounts = True, i_protocols = 0, i_vhost_name = ''localhost'',
                 i_ws_ping_pong_interval = 10,
                 i_options = {LWS_SERVER_OPTION_HTTP_HEADERS_SECURITY_BEST_PRACTICES_ENFORCE},
                 i_ssl_cert_filepath = NULL, i_ssl_private_key_filepath = NULL\<rparr>;
         info = (if s_document_root s = NULL then info\<lparr>i_protocols := 1, i_mounts := False\<rparr> else info)
     in if s_cert_path s \<noteq> NULL \<and> s_key_path s \<noteq> NULL
        then info\<lparr>i_options := insert LWS_SERVER_OPTION_DO_SSL_GLOBAL_INIT (i_options info),
                  i_ssl_cert_filepath := map_option At (s_cert_path s),
                  i_ssl_private_key_filepath := map_option At (s_key_path s)\<rparr>
        else info)"

definition jrpc_server_create_context ::
  "('a sheap_scheme) lws_api \<Rightarrow> ptr \<Rightarrow> 'a sheap_scheme \<Rightarrow> (ptr \<times> 'a sheap_scheme) option" where
  "jrpc_server_create_context L server w = do {
     a \<leftarrow> server;
     s \<leftarrow> servers w a;
     let s1 = s\<lparr>s_ws_protocols := Some (server_protocols a s), s_mount := Some (server_mount s),
                s_info := Some (server_info s)\<rparr>;
     lws_create_context L a (w\<lparr>servers := (servers w)(a \<mapsto> s1)\<rparr>)
   }"

section \<open>Creation and disposal\<close>

text \<open>What \<open>malloc\<close> returns for the server; every field that is read later is stored first, but
  for those marked indeterminate.\<close>

definition raw_protocol :: jrpc_protocol where
  "raw_protocol = \<lparr>p_server = NULL, p_onmethod = NULL, p_onnotify = NULL, p_onconnected = NULL,
     p_ondisconnected = NULL, p_user_data = None, p_fd = (None, None)\<rparr>"

definition jrpc_server_create :: "'a sheap_scheme \<Rightarrow> (ptr \<times> 'a sheap_scheme) option" where
  "jrpc_server_create w = (
     let (server, w1) = malloc w
     in case server of
          NULL \<Rightarrow> Some (NULL, w1)
        | Some a \<Rightarrow> do {
            w2 \<leftarrow> jrpc_server_protocol_init server server (w1\<lparr>protos := (protos w1)(a \<mapsto> raw_protocol)\<rparr>);
            (name, w3) \<leftarrow> strdup (Some ''jrpc'') w2;
            let s = \<lparr>s_ws_protocols = None, s_mount = None, s_info = None, s_context = NULL,
                     s_protocol_name = name, s_document_root = NULL, s_cert_path = NULL,
                     s_key_path = NULL, s_port = 8080\<rparr>;
            Some (server, w3\<lparr>servers := (servers w3)(a \<mapsto> s)\<rparr>)
          })"

definition jrpc_server_dispose ::
  "('a sheap_scheme) lws_api \<Rightarrow> ptr \<Rightarrow> 'a sheap_scheme \<Rightarrow> 'a sheap_scheme option" where
  "jrpc_server_dispose L server w = do {
     a \<leftarrow> server;
     s \<leftarrow> servers w a;
     w1 \<leftarrow> (case s_context s of NULL \<Rightarrow> Some w | Some ctx \<Rightarrow> lws_context_destroy L ctx w);
     w2 \<leftarrow> jrpc_protocol_cleanup server w1;
     s' \<leftarrow> servers w2 a;
     w3 \<leftarrow> free_str (s_protocol_name s') w2;
     w4 \<leftarrow> free_str (s_document_root s') w3;
     w5 \<leftarrow> free_str (s_cert_path s') w4;
     w6 \<leftarrow> free_str (s_key_path s') w5;
     Some (w6\<lparr>protos := (protos w6)(a := None), servers := (servers w6)(a := None)\<rparr>)
   }"

section \<open>Configuration\<close>

definition jrpc_server_set_port :: "ptr \<Rightarrow> c_int \<Rightarrow> 'a sheap_scheme \<Rightarrow> 'a sheap_scheme option" where
  "jrpc_server_set_port server port w = do {
     a \<leftarrow> server;
     s \<leftarrow> servers w a;
     Some (w\<lparr>servers := (servers w)(a \<mapsto> s\<lparr>s_port := port\<rparr>)\<rparr>)
   }"

definition jrpc_server_set_onmethod ::
  "ptr \<Rightarrow> invoke_fn option \<Rightarrow> 'a pheap_scheme \<Rightarrow> 'a pheap_scheme option" where
  "jrpc_server_set_onmethod server handler w = do {
     a \<leftarrow> server;
     p \<leftarrow> protos w a;
     Some (w\<lparr>protos := (protos w)(a \<mapsto> p\<lparr>p_onmethod := handler\<rparr>)\<rparr>)
   }"

definition jrpc_server_set_onnotify ::
  "ptr \<Rightarrow> notify_fn option \<Rightarrow> 'a pheap_scheme \<Rightarrow> 'a pheap_scheme option" where
  "jrpc_server_set_onnotify server handler w = do {
     a \<leftarrow> server;
     p \<leftarrow> protos w a;
     Some (w\<lparr>protos := (protos w)(a \<mapsto> p\<lparr>p_onnotify := handler\<rparr>)\<rparr>)
   }"

definition jrpc_server_set_onconnected ::
  "ptr \<Rightarrow> connected_fn option \<Rightarrow> 'a pheap_scheme \<Rightarrow> 'a pheap_scheme option" where
  "jrpc_server_set_onconnected server handler w = do {
     a \<leftarrow> server;
     p \<leftarrow> protos w a;
     Some (w\<lparr>protos := (protos w)(a \<mapsto> p\<lparr>p_onconnected := handler\<rparr>)\<rparr>)
   }"

definition jrpc_server_set_ondisconnected ::
  "ptr \<Rightarrow> disconnected_fn option \<Rightarrow> 'a pheap_scheme \<Rightarrow> 'a pheap_scheme option" where
  "jrpc_server_set_ondisconnected server handler w = do {
     a \<leftarrow> server;
     p \<leftarrow> protos w a;
     Some (w\<lparr>protos := (protos w)(a \<mapsto> p\<lparr>p_ondisconnected := handler\<rparr>)\<rparr>)
   }"

definition jrpc_server_set_protocolname ::
  "ptr \<Rightarrow> string option \<Rightarrow> 'a sheap_scheme \<Rightarrow> 'a sheap_scheme option" where
  "jrpc_server_set_protocolname server protocol_name w = do {
     a \<leftarrow> server;
     s \<leftarrow> servers w a;
     w1 \<leftarrow> free_str (s_protocol_name s) w;
     (p, w2) \<leftarrow> strdup protocol_name w1;
     Some (w2\<lparr>servers := (servers w2)(a \<mapsto> s\<lparr>s_protocol_name := p\<rparr>)\<rparr>)
   }"

definition jrpc_server_set_documentroot ::
  "ptr \<Rightarrow> string option \<Rightarrow> 'a sheap_scheme \<Rightarrow> 'a sheap_scheme option" where
  "jrpc_server_set_documentroot server document_root w = do {
     a \<leftarrow> server;
     s \<leftarrow> servers w a;
     w1 \<leftarrow> free_str (s_document_root s) w;
     (p, w2) \<leftarrow> strdup document_root w1;
     Some (w2\<lparr>servers := (servers w2)(a \<mapsto> s\<lparr>s_document_root := p\<rparr>)\<rparr>)
   }"

definition jrpc_server_set_certpath ::
  "ptr \<Rightarrow> string option \<Rightarrow> 'a sheap_scheme \<Rightarrow> 'a sheap_scheme option" where
  "jrpc_server_set_certpath server cert_path w = do {
     a \<leftarrow> server;
     s \<leftarrow> servers w a;
     w1 \<leftarrow> free_str (s_cert_path s) w;
     (p, w2) \<leftarrow> strdup cert_path w1;
     Some (w2\<lparr>servers := (servers w2)(a \<mapsto> s\<lparr>s_cert_path := p\<rparr>)\<rparr>)
   }"

definition jrpc_server_set_keypath ::
  "ptr \<Rightarrow> string option \<Rightarrow> 'a sheap_scheme \<Rightarrow> 'a sheap_scheme option" where
  "jrpc_server_set_keypath server key_path w = do {
     a \<leftarrow> server;
     s \<leftarrow> servers w a;
     w1 \<leftarrow> free_str (s_key_path s) w;
     (p, w2) \<leftarrow> strdup key_path w1;
     Some (w2\<lparr>servers := (servers w2)(a \<mapsto> s\<lparr>s_key_path := p\<rparr>)\<rparr>)
   }"

definition jrpc_server_set_userdata :: "ptr \<Rightarrow> ptr \<Rightarrow> 'a pheap_scheme \<Rightarrow> 'a pheap_scheme option" where
  "jrpc_server_set_userdata server user_data w = do {
     a \<leftarrow> server;
     p \<leftarrow> protos w a;
     Some (w\<lparr>protos := (protos w)(a \<mapsto> p\<lparr>p_user_data := Some user_data\<rparr>)\<rparr>)
   }"

text \<open>Undefined while nothing has been stored in the field.\<close>

definition jrpc_server_get_userdata :: "ptr \<Rightarrow> 'a pheap_scheme \<Rightarrow> ptr option" where
  "jrpc_server_get_userdata server w = do {
     p \<leftarrow> deref (protos w) server;
     p_user_data p
   }"

section \<open>Running\<close>

definition jrpc_server_run ::
  "('a sheap_scheme) lws_api \<Rightarrow> ptr \<Rightarrow> c_int \<Rightarrow> 'a sheap_scheme \<Rightarrow> 'a sheap_scheme option" where
  "jrpc_server_run L server timeout_ms w = do {
     a \<leftarrow> server;
     s \<leftarrow> servers w a;
     w1 \<leftarrow> (if s_context s = NULL
       then do {
         (ctx, w') \<leftarrow> jrpc_server_create_context L server w;
         s' \<leftarrow> servers w' a;
         Some (w'\<lparr>servers := (servers w')(a \<mapsto> s'\<lparr>s_context := ctx\<rparr>)\<rparr>)
       }
       else Some w);
     s1 \<leftarrow> servers w1 a;
     (case s_context s1 of
        NULL \<Rightarrow> Some w1
      | Some ctx \<Rightarrow> lws_service L ctx timeout_ms w1)
   }"

definition jrpc_server_wakeup :: "ptr \<Rightarrow> 'a pheap_scheme \<Rightarrow> 'a pheap_scheme option" where
  "jrpc_server_wakeup server w = jrpc_protocol_wakeup server w"

end
