(* ===== verification/Jrpc_Mailbox.thy ===== *)
theory Jrpc_Mailbox
  imports Jrpc_Connection
begin

text \<open>
  The abstract specification of the connections: a \<open>mailbox\<close> gives every connection the list of
  texts that wait to be written. \<open>models E w P\<close> says that the state \<open>w\<close> implements the mailbox
  \<open>P\<close>: every connection's queue is a well-formed list, no message is in two queues, every
  message block of the store is in some queue (so none has leaked), every message is well formed,
  and the texts of the queued messages are those of \<open>P\<close>.

  The lemmas are the refinement: sending a value posts its text at the end of a connection's list,
  taking a message off takes the first text, cleaning up empties the list.
\<close>

type_synonym mailbox = "addr \<rightharpoonup> string list"

definition post :: "addr \<Rightarrow> string \<Rightarrow> mailbox \<Rightarrow> mailbox" where
  "post c t P = (case P c of None \<Rightarrow> P | Some ts \<Rightarrow> P(c \<mapsto> ts @ [t]))"

definition queues :: "'a cheap_scheme \<Rightarrow> (addr \<rightharpoonup> jrpc_queue)" where
  "queues w = (\<lambda>c. map_option c_messages (conns w c))"

definition owns :: "('j, 'e) env_scheme \<Rightarrow> 'a cheap_scheme \<Rightarrow> (addr \<Rightarrow> addr list) \<Rightarrow> bool" where
  "owns E w f \<longleftrightarrow>
     family (\<lambda>q w. queue_rep (blocks w) q) w (queues w) f \<and>
     dom (blocks w) = (\<Union>c \<in> dom (conns w). set (f c)) \<and>
     (\<forall>a b. blocks w a = Some b \<longrightarrow> msg_ok E a b) \<and>
     (\<forall>a \<in> dom (blocks w). a < clock w)"

definition texts :: "'a cheap_scheme \<Rightarrow> addr list \<Rightarrow> string list" where
  "texts w xs = map (\<lambda>a. the (msg_text (the (blocks w a)))) xs"

definition mailbox_of :: "'a cheap_scheme \<Rightarrow> (addr \<Rightarrow> addr list) \<Rightarrow> mailbox" where
  "mailbox_of w f = (\<lambda>c. if c \<in> dom (conns w) then Some (texts w (f c)) else None)"

definition models :: "('j, 'e) env_scheme \<Rightarrow> 'a cheap_scheme \<Rightarrow> mailbox \<Rightarrow> bool" where
  "models E w P \<longleftrightarrow> (\<exists>f. owns E w f \<and> P = mailbox_of w f)"

section \<open>Basic facts\<close>

lemma dom_queues [simp]: "dom (queues w) = dom (conns w)"
  by (auto simp: queues_def)

lemma mailbox_of_at: "conns w c = Some conn \<Longrightarrow> mailbox_of w f c = Some (texts w (f c))"
  by (auto simp: mailbox_of_def)

lemma texts_simps [simp]: "texts w [] = []" "texts w (a # xs) = the (msg_text (the (blocks w a))) # texts w xs"
  "texts w (xs @ ys) = texts w xs @ texts w ys" "texts w xs = [] \<longleftrightarrow> xs = []"
  by (simp_all add: texts_def)

lemma texts_cong: "(\<And>a. a \<in> set xs \<Longrightarrow> map_option msg_text (blocks w' a) = map_option msg_text (blocks w a)) \<Longrightarrow>
    set xs \<subseteq> dom (blocks w) \<Longrightarrow> texts w' xs = texts w xs"
  unfolding texts_def by (rule map_cong) (fastforce simp: map_option_eq_Some)+

lemma mailbox_of_upd:
  assumes "dom (conns w') = dom (conns w)" and "c \<in> dom (conns w)" and "texts w' (g c) = ts"
    and "\<And>d. d \<in> dom (conns w) \<Longrightarrow> d \<noteq> c \<Longrightarrow> texts w' (g d) = texts w (f d)"
  shows "mailbox_of w' g = (mailbox_of w f)(c \<mapsto> ts)"
  unfolding mailbox_of_def fun_eq_iff using assms by simp

lemma models_dom: "models E w P \<Longrightarrow> dom P = dom (conns w)"
  by (auto simp: models_def mailbox_of_def split: if_splits)

lemma owns_live: "owns E w f \<Longrightarrow> c \<in> dom (conns w) \<Longrightarrow> set (f c) \<subseteq> dom (blocks w)"
  by (auto simp: owns_def)

lemma owns_clock: "owns E w f \<Longrightarrow> a \<in> dom (blocks w) \<Longrightarrow> a < clock w"
  by (simp add: owns_def)

lemma owns_ok: "owns E w f \<Longrightarrow> blocks w a = Some b \<Longrightarrow> msg_ok E a b"
  by (simp add: owns_def)

lemma owns_apart:
  "owns E w f \<Longrightarrow> c \<in> dom (conns w) \<Longrightarrow> d \<in> dom (conns w) \<Longrightarrow> d \<noteq> c \<Longrightarrow> set (f d) \<inter> set (f c) = {}"
  unfolding owns_def family_def disjoint_lists_def dom_queues by blast

lemma owns_fresh: "owns E w f \<Longrightarrow> blocks w (clock w) = None"
  unfolding owns_def by (metis domIff less_irrefl)

lemma owns_rep: "owns E w f \<Longrightarrow> conns w c = Some conn \<Longrightarrow> queue_rep (blocks w) (c_messages conn) (f c)"
  by (auto simp: owns_def family_def queues_def)

lemma owns_unique:
  assumes "owns E w f" and "owns E' w g" and "c \<in> dom (conns w)"
  shows "f c = g c"
proof -
  from assms(3) obtain conn where "conns w c = Some conn" by blast
  with assms(1,2) show ?thesis
    by (blast intro: queue_rep_unique dest: owns_rep)
qed

lemma models_unique: "models E w P \<Longrightarrow> models E' w P' \<Longrightarrow> P = P'"
  unfolding models_def mailbox_of_def fun_eq_iff using owns_unique by metis

text \<open>Only the store of messages, the queues of the connections and the clock matter.\<close>

lemma models_frame:
  assumes "models E w P" and "blocks w' = blocks w" and "queues w' = queues w" and "clock w \<le> clock w'"
  shows "models E w' P"
proof -
  from assms(1) obtain f where f: "owns E w f" and P: "P = mailbox_of w f"
    by (auto simp: models_def)
  have dom: "dom (conns w') = dom (conns w)"
    using assms(3) dom_queues by metis
  have "family (\<lambda>q w. queue_rep (blocks w) q) w' (queues w') f"
    using f by (simp add: owns_def family_def assms(2,3))
  then have "owns E w' f"
    using f dom assms(2,4) unfolding owns_def by (metis less_le_trans)
  moreover have "P = mailbox_of w' f"
    using P assms(2) dom by (simp add: mailbox_of_def texts_def fun_eq_iff)
  ultimately show ?thesis
    by (auto simp: models_def)
qed

lemma models_json [simp]:
  "models E w P \<Longrightarrow> clock w \<le> n \<Longrightarrow> models E (w\<lparr>clock := n\<rparr>) P"
  "models E w P \<Longrightarrow> models E (w\<lparr>json_refs := r\<rparr>) P"
  "models E w P \<Longrightarrow> models E (w\<lparr>lws_log := l\<rparr>) P"
  by (auto elim!: models_frame simp: queues_def)

section \<open>Sessions come and go\<close>

lemma models_new_session:
  assumes "models E w P" and "conns w c = None" and "c_messages conn = jrpc_queue_init"
  shows "models E (w\<lparr>conns := (conns w)(c \<mapsto> conn)\<rparr>) (P(c \<mapsto> []))"
proof -
  let ?w = "w\<lparr>conns := (conns w)(c \<mapsto> conn)\<rparr>"
  from assms(1) obtain f where f: "owns E w f" and P: "P = mailbox_of w f"
    by (auto simp: models_def)
  have q: "queues ?w = (queues w)(c \<mapsto> jrpc_queue_init)"
    using assms(3) by (auto simp: queues_def)
  have c: "c \<notin> dom (queues w)"
    using assms(2) by auto
  from f have "family (\<lambda>q w. queue_rep (blocks w) q) w (queues w) f"
    by (simp add: owns_def)
  from jq.family_insert [OF this c]
  have "family (\<lambda>q w. queue_rep (blocks w) q) ?w (queues ?w) (f(c := []))"
    by (simp add: q family_def)
  moreover have "(\<Union>d \<in> dom (conns ?w). set ((f(c := [])) d)) = (\<Union>d \<in> dom (conns w). set (f d))"
    using assms(2) by (simp, intro SUP_cong) auto
  ultimately have "owns E ?w (f(c := []))"
    using f by (simp add: owns_def)
  moreover have "mailbox_of ?w (f(c := [])) = P(c \<mapsto> [])"
    by (auto simp: P mailbox_of_def texts_def fun_eq_iff)
  ultimately show ?thesis
    unfolding models_def by metis
qed

lemma models_end_session:
  assumes "models E w P" and "P c = Some []"
  shows "models E (w\<lparr>conns := (conns w)(c := None)\<rparr>) (P(c := None))"
proof -
  let ?w = "w\<lparr>conns := (conns w)(c := None)\<rparr>"
  from assms(1) obtain f where f: "owns E w f" and P: "P = mailbox_of w f"
    by (auto simp: models_def)
  have q: "queues ?w = (queues w)(c := None)"
    by (auto simp: queues_def)
  have c: "f c = []"
    using assms(2) P by (auto simp: mailbox_of_def split: if_splits)
  from f have "family (\<lambda>q w. queue_rep (blocks w) q) w (queues w) f"
    by (simp add: owns_def)
  from jq.family_remove [OF this, of c]
  have "family (\<lambda>q w. queue_rep (blocks w) q) ?w (queues ?w) f"
    by (simp add: q family_def)
  moreover have "(\<Union>d \<in> dom (conns ?w). set (f d)) = (\<Union>d \<in> dom (conns w). set (f d))"
    using c by auto
  ultimately have "owns E ?w f"
    using f by (simp add: owns_def)
  moreover have "mailbox_of ?w f = P(c := None)"
    by (auto simp: P mailbox_of_def texts_def fun_eq_iff)
  ultimately show ?thesis
    unfolding models_def by metis
qed

section \<open>Sending, taking, cleaning up\<close>

lemma only_links_ok:
  assumes "only_links w w'"
  shows "blocks w' a = Some b' \<Longrightarrow> \<exists>b. blocks w a = Some b \<and> msg_text b = msg_text b' \<and> (msg_ok E a b \<longrightarrow> msg_ok E a b')"
    and "map_option msg_text (blocks w' a) = map_option msg_text (blocks w a)"
proof -
  have same: "same_payload (blocks w) (blocks w')"
    using assms by (simp add: only_links_def)
  show 1: "\<exists>b. blocks w a = Some b \<and> msg_text b = msg_text b' \<and> (msg_ok E a b \<longrightarrow> msg_ok E a b')"
    if "blocks w' a = Some b'" for b'
    using same_payload_msg [OF same that, of thesis] by (metis same same_payload_msg that)
  show "map_option msg_text (blocks w' a) = map_option msg_text (blocks w a)"
    using 1 same_payload_at(1) [OF same, of a] by (cases "blocks w' a") auto
qed

text \<open>A message that has just been created is appended to the queue of a connection.\<close>

lemma append_models:
  assumes w: "models E w P" and conn: "conns w c = Some conn"
    and a: "a = clock w" and n: "a < n" and b: "msg_ok E a b" and t: "msg_text b = Some t"
  defines "w1 \<equiv> w\<lparr>clock := n, blocks := (blocks w)(a \<mapsto> b)\<rparr>"
  shows "\<exists>q h. jrpc_queue_append (c_messages conn) (Some a) w1 = Some (q, w1\<lparr>blocks := h\<rparr>) \<and>
    models E (w1\<lparr>blocks := h, conns := (conns w)(c \<mapsto> conn\<lparr>c_messages := q\<rparr>)\<rparr>) (post c t P)"
proof -
  from w obtain f where f: "owns E w f" and P: "P = mailbox_of w f"
    by (auto simp: models_def)
  have c: "c \<in> dom (conns w)" and q: "queues w c = Some (c_messages conn)"
    using conn by (auto simp: queues_def)
  have new: "a \<notin> set (f d)" if "d \<in> dom (conns w)" for d
    using owns_live [OF f that] owns_fresh [OF f] a by auto
  have fam: "family (\<lambda>q w. queue_rep (blocks w) q) w1 (queues w) f"
  proof -
    have "queue_rep (blocks w1) q (f d)" if "queues w d = Some q" for d q
    proof -
      from that have "d \<in> dom (conns w)" by (auto simp: queues_def)
      with that f new [of d] show ?thesis
        by (simp add: owns_def family_def w1_def queue_rep_upd_outside)
    qed
    with f show ?thesis by (simp add: owns_def family_def)
  qed
  have "a \<in> dom (blocks w1)" by (simp add: w1_def)
  from jq.family_enq [OF fam q this] new obtain q' w2
    where app: "jrpc_queue_append (c_messages conn) (Some a) w1 = Some (q', w2)"
      and links: "only_links w1 w2"
      and fam2: "family (\<lambda>q w. queue_rep (blocks w) q) w2 ((queues w)(c \<mapsto> q')) (f(c := f c @ [a]))"
    by auto
  let ?h = "blocks w2"
  let ?w = "w1\<lparr>blocks := ?h, conns := (conns w)(c \<mapsto> conn\<lparr>c_messages := q'\<rparr>)\<rparr>"
  have w2: "w2 = w1\<lparr>blocks := ?h\<rparr>"
    using links by (simp add: only_links_def)
  have dom2: "dom ?h = insert a (dom (blocks w))"
    using only_links_dom [OF links] by (simp add: w1_def)
  have queues: "queues ?w = (queues w)(c \<mapsto> q')"
    by (auto simp: queues_def)
  have "family (\<lambda>q w. queue_rep (blocks w) q) ?w (queues ?w) (f(c := f c @ [a]))"
    using fam2 unfolding queues by (simp add: family_def)
  moreover have "dom (blocks ?w) = (\<Union>d \<in> dom (conns ?w). set ((f(c := f c @ [a])) d))"
  proof -
    have "dom (conns ?w) = dom (conns w)" using c by auto
    with f c dom2 show ?thesis
      by (simp add: owns_def all_lists_upd [of c] del: fun_upd_apply)
  qed
  moreover have "msg_ok E x y" if "blocks ?w x = Some y" for x y
    using only_links_ok(1) [OF links, of x y E] that f b by (auto simp: owns_def w1_def split: if_splits)
  moreover have "x < clock ?w" if "x \<in> dom (blocks ?w)" for x
  proof -
    from that dom2 have "x = a \<or> x \<in> dom (blocks w)" by simp
    then have "x \<le> a"
      using owns_clock [OF f, of x] a by (metis less_imp_le order_refl)
    with n show ?thesis by (simp add: w1_def)
  qed
  ultimately have owns: "owns E ?w (f(c := f c @ [a]))"
    unfolding owns_def by blast
  have same_text: "texts ?w (f d) = texts w (f d)" if "d \<in> dom (conns w)" for d
  proof (rule texts_cong)
    show "set (f d) \<subseteq> dom (blocks w)" by (rule owns_live [OF f that])
    show "map_option msg_text (blocks ?w x) = map_option msg_text (blocks w x)" if "x \<in> set (f d)" for x
      using only_links_ok(2) [OF links, of x] new that \<open>d \<in> dom (conns w)\<close> by (auto simp: w1_def)
  qed
  have "the (msg_text (the (?h a))) = t"
    using only_links_ok(2) [OF links, of a] t by (auto simp: w1_def map_option_eq_Some)
  with same_text [OF c] have "texts ?w (f c @ [a]) = texts w (f c) @ [t]"
    by (simp add: texts_def)
  then have "mailbox_of ?w (f(c := f c @ [a])) = (mailbox_of w f)(c \<mapsto> texts w (f c) @ [t])"
    by (intro mailbox_of_upd) (use c same_text in auto)
  moreover have "post c t P = (mailbox_of w f)(c \<mapsto> texts w (f c) @ [t])"
    using mailbox_of_at [OF conn] by (simp add: post_def P)
  ultimately have "mailbox_of ?w (f(c := f c @ [a])) = post c t P" by simp
  with owns have "models E ?w (post c t P)"
    unfolding models_def by metis
  with app w2 show ?thesis by metis
qed

text \<open>The first message of a queue is taken off and freed.\<close>

lemma take_models:
  assumes w: "models E w P" and conn: "conns w c = Some conn" and P: "P c = Some (t # ts)"
  shows "\<exists>a b q. jrpc_queue_dequeue (c_messages conn) w = Some (Some a, q) \<and>
    blocks w a = Some b \<and> msg_ok E a b \<and> msg_text b = Some t \<and>
    models E (w\<lparr>blocks := (blocks w)(a := None), conns := (conns w)(c \<mapsto> conn\<lparr>c_messages := q\<rparr>)\<rparr>)
      (P(c \<mapsto> ts))"
proof -
  from w obtain f where f: "owns E w f" and P': "P = mailbox_of w f"
    by (auto simp: models_def)
  have c: "c \<in> dom (conns w)" and q: "queues w c = Some (c_messages conn)"
    using conn by (auto simp: queues_def)
  from P P' c obtain a as where xs: "f c = a # as"
    and t: "t = the (msg_text (the (blocks w a)))" and ts: "ts = texts w as"
    by (cases "f c") (auto simp: mailbox_of_def)
  from f have fam: "family (\<lambda>q w. queue_rep (blocks w) q) w (queues w) f"
    by (simp add: owns_def)
  from jq.family_deq [OF fam q xs] obtain q'
    where deq: "jrpc_queue_dequeue (c_messages conn) w = Some (Some a, q')"
      and fam': "family (\<lambda>q w. queue_rep (blocks w) q) w ((queues w)(c \<mapsto> q')) (f(c := as))"
    by blast
  have "a \<in> dom (blocks w)"
    using owns_live [OF f c] xs by simp
  then obtain b where b: "blocks w a = Some b" by blast
  with f have ok: "msg_ok E a b" by (simp add: owns_def)
  with b t have same_text: "msg_text b = Some t"
    by (auto simp: msg_ok_def)
  let ?w = "w\<lparr>blocks := (blocks w)(a := None), conns := (conns w)(c \<mapsto> conn\<lparr>c_messages := q'\<rparr>)\<rparr>"
  have queues: "queues ?w = (queues w)(c \<mapsto> q')"
    by (auto simp: queues_def)
  have "distinct (f c)"
    using owns_rep [OF f conn] by (rule queue_rep_distinct)
  then have gone: "a \<notin> set ((f(c := as)) d)" if "d \<in> dom (conns w)" for d
    using xs owns_apart [OF f c that] by (cases "d = c") auto
  have "queue_rep (blocks ?w) r ((f(c := as)) d)" if "queues ?w d = Some r" for d r
  proof -
    from that have "d \<in> dom (queues ?w)" by blast
    then have "d \<in> dom (conns w)" using c by auto
    with that fam' gone [of d] show ?thesis
      unfolding queues by (simp add: family_def queue_rep_upd_outside)
  qed
  with fam' have "family (\<lambda>q w. queue_rep (blocks w) q) ?w (queues ?w) (f(c := as))"
    by (simp add: family_def queues)
  moreover have "dom (blocks ?w) = (\<Union>d \<in> dom (conns ?w). set ((f(c := as)) d))"
  proof -
    have "dom (conns ?w) = dom (conns w)" using c by auto
    moreover have "dom (blocks w) = insert a (\<Union>d \<in> dom (conns w). set ((f(c := as)) d))"
      using f c xs by (simp add: owns_def all_lists_upd [of c] del: fun_upd_apply)
    moreover have "a \<notin> (\<Union>d \<in> dom (conns w). set ((f(c := as)) d))"
      using gone by blast
    ultimately show ?thesis by simp
  qed
  moreover have "msg_ok E x y" if "blocks ?w x = Some y" for x y
    using that owns_ok [OF f, of x y] by (simp split: if_splits)
  moreover have "x < clock ?w" if "x \<in> dom (blocks ?w)" for x
    using that owns_clock [OF f, of x] by simp
  ultimately have "owns E ?w (f(c := as))"
    unfolding owns_def by blast
  moreover have "mailbox_of ?w (f(c := as)) = P(c \<mapsto> ts)"
  proof -
    have same: "texts ?w ((f(c := as)) d) = texts w ((f(c := as)) d)" if "d \<in> dom (conns w)" for d
      using gone [OF that] by (auto simp: texts_def)
    show ?thesis
      unfolding P'
    proof (rule mailbox_of_upd)
      show "dom (conns ?w) = dom (conns w)" using c by auto
      show "texts ?w ((f(c := as)) c) = ts" using same [OF c] ts by simp
      show "texts ?w ((f(c := as)) d) = texts w (f d)" if "d \<in> dom (conns w)" "d \<noteq> c" for d
        using same [OF that(1)] that(2) by simp
    qed (rule c)
  qed
  ultimately have "models E ?w (P(c \<mapsto> ts))"
    unfolding models_def by metis
  with deq b ok same_text show ?thesis by blast
qed

lemma empty_models:
  assumes "models E w P" and "conns w c = Some conn" and "P c = Some ts"
  shows "jrpc_queue_is_empty (c_messages conn) \<longleftrightarrow> ts = []"
  using assms by (auto simp: models_def mailbox_of_def is_empty_rep [OF owns_rep] split: if_splits)

lemma cleanup_models:
  assumes w: "models E w P" and conn: "conns w c = Some conn"
  shows "\<exists>h. jrpc_queue_cleanup (c_messages conn) w = Some (jrpc_queue_init, w\<lparr>blocks := h\<rparr>) \<and>
    models E (w\<lparr>blocks := h, conns := (conns w)(c \<mapsto> conn\<lparr>c_messages := jrpc_queue_init\<rparr>)\<rparr>) (P(c \<mapsto> []))"
proof -
  from w obtain f where f: "owns E w f" and P: "P = mailbox_of w f"
    by (auto simp: models_def)
  have c: "c \<in> dom (conns w)" and q: "queues w c = Some (c_messages conn)"
    using conn by (auto simp: queues_def)
  let ?h = "blocks w |` (- set (f c))"
  let ?w = "w\<lparr>blocks := ?h, conns := (conns w)(c \<mapsto> conn\<lparr>c_messages := jrpc_queue_init\<rparr>)\<rparr>"
  have clean: "jrpc_queue_cleanup (c_messages conn) w = Some (jrpc_queue_init, w\<lparr>blocks := ?h\<rparr>)"
    using owns_rep [OF f conn] by (rule cleanup_rep)
  from f have fam: "family (\<lambda>q w. queue_rep (blocks w) q) w (queues w) f"
    by (simp add: owns_def)
  from jq.family_cleanup [OF fam q] clean
  have "family (\<lambda>q w. queue_rep (blocks w) q) (w\<lparr>blocks := ?h\<rparr>) ((queues w)(c \<mapsto> jrpc_queue_init)) (f(c := []))"
    by auto
  moreover have "queues ?w = (queues w)(c \<mapsto> jrpc_queue_init)"
    by (auto simp: queues_def)
  ultimately have fam': "family (\<lambda>q w. queue_rep (blocks w) q) ?w (queues ?w) (f(c := []))"
    by (simp add: family_def)
  have apart: "set (f d) \<inter> set (f c) = {}" if "d \<in> dom (conns w)" "d \<noteq> c" for d
    using owns_apart [OF f c that] .
  have dom: "dom (blocks ?w) = (\<Union>d \<in> dom (conns ?w). set ((f(c := [])) d))"
  proof -
    have "dom (conns ?w) = dom (conns w)" using c by auto
    moreover have "dom (blocks ?w) = (\<Union>d \<in> dom (conns w). set (f d)) - set (f c)"
      using f by (auto simp: owns_def)
    moreover have "set (f c) \<inter> (\<Union>d \<in> dom (conns w) - {c}. set (f d)) = {}"
      using apart by blast
    ultimately show ?thesis
      using c by (simp add: all_lists_upd [of c] Un_Diff Diff_triv Int_commute del: fun_upd_apply)
  qed
  have "msg_ok E a b" if "blocks ?w a = Some b" for a b
    using that owns_ok [OF f, of a b] by (simp add: restrict_map_def split: if_splits)
  moreover have "a < clock ?w" if "a \<in> dom (blocks ?w)" for a
    using that owns_clock [OF f, of a] by simp
  ultimately have "owns E ?w (f(c := []))"
    unfolding owns_def using fam' dom by blast
  moreover have "mailbox_of ?w (f(c := [])) = P(c \<mapsto> [])"
  proof -
    have "texts ?w (f d) = texts w (f d)" if "d \<in> dom (conns w)" "d \<noteq> c" for d
      using apart [OF that] by (auto simp: texts_def restrict_map_def)
    then show ?thesis
      unfolding P by (intro mailbox_of_upd) (use c in auto)
  qed
  ultimately have "models E ?w (P(c \<mapsto> []))"
    unfolding models_def by metis
  with clean show ?thesis by blast
qed

end
