(* ===== verification/Jrpc_Session.thy ===== *)
theory Jrpc_Session
  imports Jrpc_Mailbox
begin

text \<open>
  The invariant of the sessions between two calls into the library, and what the functions of
  \<open>lib/jrpc/connection.c\<close> do under it. \<open>inv E w P\<close>: the state implements the mailbox \<open>P\<close>
  (\<open>Jrpc_Mailbox\<close>), every connection has a websocket of its own, and a connection with waiting
  messages has a writeable callback coming. \<open>extends\<close> is what user code may do through the
  library: add texts at the end of lists and request writeable callbacks.
\<close>

section \<open>The invariant\<close>

definition wsi_of :: "'a cheap_scheme \<Rightarrow> addr \<Rightarrow> wsi option" where
  "wsi_of w c = Option.bind (conns w c) c_wsi"

definition inv :: "('j, 'e) env_scheme \<Rightarrow> 'a cheap_scheme \<Rightarrow> mailbox \<Rightarrow> bool" where
  "inv E w P \<longleftrightarrow>
     models E w P \<and>
     (\<forall>c \<in> dom P. wsi_of w c \<noteq> NULL) \<and>
     (\<forall>c \<in> dom P. \<forall>d \<in> dom P. wsi_of w c = wsi_of w d \<longrightarrow> c = d) \<and>
     (\<forall>c t ts s. P c = Some (t # ts) \<longrightarrow> wsi_of w c = Some s \<longrightarrow> wants s (lws_log w))"

definition extends :: "'a cheap_scheme \<Rightarrow> mailbox \<Rightarrow> 'a cheap_scheme \<Rightarrow> mailbox \<Rightarrow> bool" where
  "extends w P w' P' \<longleftrightarrow>
     dom P' = dom P \<and> wsi_of w' = wsi_of w \<and>
     (\<forall>c ts. P c = Some ts \<longrightarrow> (\<exists>ts'. P' c = Some (ts @ ts'))) \<and>
     (\<exists>ss. lws_log w' = lws_log w @ map On_writable ss)"

text \<open>Sessions that differ in their queues only, and a state that is otherwise the same.\<close>

definition same_sessions :: "'a cheap_scheme \<Rightarrow> 'a cheap_scheme \<Rightarrow> bool" where
  "same_sessions w w' \<longleftrightarrow>
     (\<forall>c. map_option (c_messages_update (\<lambda>_. jrpc_queue_init)) (conns w' c)
        = map_option (c_messages_update (\<lambda>_. jrpc_queue_init)) (conns w c)) \<and>
     oom w' = oom w \<and> clock w \<le> clock w' \<and> cheap.more w' = cheap.more w"

lemma extends_refl [simp]: "extends w P w P"
  by (auto simp: extends_def intro: exI [of _ "[]"])

lemma extends_trans [trans]:
  assumes "extends w P w' P'" and "extends w' P' w'' P''"
  shows "extends w P w'' P''"
proof -
  from assms obtain ss ss' where "lws_log w'' = lws_log w @ map On_writable (ss @ ss')"
    by (auto simp: extends_def)
  moreover have "\<exists>ts'. P'' c = Some (ts @ ts')" if "P c = Some ts" for c ts
    using assms that unfolding extends_def by (metis append_assoc)
  ultimately show ?thesis
    using assms unfolding extends_def by metis
qed

lemma same_sessions_refl [simp]: "same_sessions w w"
  by (simp add: same_sessions_def)

lemma same_sessions_trans [trans]: "same_sessions w w' \<Longrightarrow> same_sessions w' w'' \<Longrightarrow> same_sessions w w''"
  by (auto simp: same_sessions_def)

lemma same_sessions_wsi:
  assumes "same_sessions w w'"
  shows "wsi_of w' = wsi_of w"
proof
  fix c
  have "map_option (c_messages_update (\<lambda>_. jrpc_queue_init)) (conns w' c)
      = map_option (c_messages_update (\<lambda>_. jrpc_queue_init)) (conns w c)"
    using assms by (simp add: same_sessions_def)
  then show "wsi_of w' c = wsi_of w c"
    by (cases "conns w' c"; cases "conns w c")
       (auto simp: wsi_of_def, metis jrpc_connection.select_convs(2) jrpc_connection.surjective
          jrpc_connection.update_convs(3))
qed

lemma inv_models: "inv E w P \<Longrightarrow> models E w P"
  by (simp add: inv_def)

lemma inv_wants: "inv E w P \<Longrightarrow> P c = Some (t # ts) \<Longrightarrow> wsi_of w c = Some s \<Longrightarrow> wants s (lws_log w)"
  unfolding inv_def by blast

lemma inv_wsi_inj:
  "inv E w P \<Longrightarrow> c \<in> dom P \<Longrightarrow> d \<in> dom P \<Longrightarrow> wsi_of w c = wsi_of w d \<Longrightarrow> c = d"
  unfolding inv_def by blast

lemma inv_conn:
  assumes "inv E w P" and "c \<in> dom P"
  obtains conn s where "conns w c = Some conn" and "c_wsi conn = Some s" and "wsi_of w c = Some s"
proof -
  from assms obtain s where s: "wsi_of w c = Some s"
    unfolding inv_def by blast
  then obtain conn where "conns w c = Some conn" and "c_wsi conn = Some s"
    by (auto simp: wsi_of_def Option.bind_eq_Some_conv)
  with s show ?thesis using that by blast
qed

lemma wants_more: "wants s log \<Longrightarrow> wants s (log @ map On_writable ss)"
  by (induction ss rule: rev_induct) (simp_all flip: append_assoc)

text \<open>The invariant after a step that keeps the sessions.\<close>

lemma inv_step:
  assumes "inv E w P" and "models E w' P'" and "dom P' = dom P" and "wsi_of w' = wsi_of w"
    and "\<And>c t ts s. P' c = Some (t # ts) \<Longrightarrow> wsi_of w c = Some s \<Longrightarrow> wants s (lws_log w')"
  shows "inv E w' P'"
  using assms by (simp add: inv_def)

lemma inv_frame:
  assumes "inv E w P" and "blocks w' = blocks w" and "conns w' = conns w"
    and "clock w \<le> clock w'" and "lws_log w' = lws_log w"
  shows "inv E w' P"
proof (rule inv_step [OF assms(1)])
  show "models E w' P"
    using assms by (intro models_frame [OF inv_models]) (auto simp: queues_def)
  show "wsi_of w' = wsi_of w"
    using assms(3) by (simp add: wsi_of_def fun_eq_iff)
  show "wants s (lws_log w')" if "P c = Some (t # ts)" "wsi_of w c = Some s" for c t ts s
    using that assms(1,5) inv_wants by metis
qed simp

lemma inv_json [simp]:
  "inv E w P \<Longrightarrow> clock w \<le> n \<Longrightarrow> inv E (w\<lparr>clock := n\<rparr>) P"
  "inv E w P \<Longrightarrow> inv E (w\<lparr>json_refs := r\<rparr>) P"
  by (auto elim!: inv_frame)

section \<open>Sessions come and go\<close>

lemma inv_empty: "conns w = Map.empty \<Longrightarrow> blocks w = Map.empty \<Longrightarrow> inv E w Map.empty"
  by (auto simp: inv_def models_def owns_def mailbox_of_def family_def disjoint_lists_def queues_def
      fun_eq_iff)

lemma inv_end_session:
  assumes w: "inv E w P" and "P c = Some []"
  shows "inv E (w\<lparr>conns := (conns w)(c := None)\<rparr>) (P(c := None))"
proof -
  let ?w = "w\<lparr>conns := (conns w)(c := None)\<rparr>"
  have "wsi_of ?w d = wsi_of w d" if "d \<noteq> c" for d
    using that by (simp add: wsi_of_def)
  then show ?thesis
    using models_end_session [OF inv_models [OF w] assms(2)] w unfolding inv_def
    by (auto split: if_splits)
qed

text \<open>A session whose memory libwebsockets has allocated and \<open>jrpc_connection_init\<close> has filled
  in.\<close>

definition open_session :: "ptr \<Rightarrow> addr \<Rightarrow> wsi \<Rightarrow> 'a cheap_scheme \<Rightarrow> 'a cheap_scheme" where
  "open_session server c s w =
     w\<lparr>conns := (conns w)(c \<mapsto> \<lparr>c_server = server, c_wsi = Some s, c_messages = jrpc_queue_init,
                              c_user_data = NULL\<rparr>)\<rparr>"

lemma connection_init_eq:
  "jrpc_connection_init (Some c) server (Some s) (w\<lparr>conns := (conns w)(c \<mapsto> conn)\<rparr>)
     = Some (open_session server c s w)"
  by (cases conn) (simp add: jrpc_connection_init_def open_session_def)

lemma open_session_wsi: "wsi_of (open_session server c s w) = (wsi_of w)(c := Some s)"
  by (auto simp: wsi_of_def open_session_def)

lemma inv_open_session:
  assumes w: "inv E w P" and c: "conns w c = None" and s: "\<And>d. wsi_of w d \<noteq> Some s"
  shows "inv E (open_session server c s w) (P(c \<mapsto> []))"
proof -
  let ?w = "open_session server c s w"
  have m: "models E ?w (P(c \<mapsto> []))"
    unfolding open_session_def using inv_models [OF w] c by (rule models_new_session) simp
  have log: "lws_log ?w = lws_log w"
    by (simp add: open_session_def)
  show ?thesis
    unfolding inv_def open_session_wsi log
  proof (intro conjI ballI allI impI)
    fix d t ts s'
    assume "(P(c \<mapsto> [])) d = Some (t # ts)" "((wsi_of w)(c := Some s)) d = Some s'"
    then show "wants s' (lws_log w)"
      using inv_wants [OF w] by (simp split: if_splits)
  next
    fix d d'
    assume "d \<in> dom (P(c \<mapsto> []))" "d' \<in> dom (P(c \<mapsto> []))"
      "((wsi_of w)(c := Some s)) d = ((wsi_of w)(c := Some s)) d'"
    then show "d = d'"
      using inv_wsi_inj [OF w, of d d'] s [of d] s [of d'] by (auto split: if_splits)
  next
    fix d
    assume "d \<in> dom (P(c \<mapsto> []))"
    then show "((wsi_of w)(c := Some s)) d \<noteq> None"
      using w unfolding inv_def by (auto split: if_splits)
  qed (rule m)
qed

section \<open>Sending\<close>

text \<open>The outcome of sending a value: nothing is queued when the allocation of the message
  fails, and the text is posted otherwise.\<close>

definition after_send :: "('j, 'e) env_scheme \<Rightarrow> addr \<Rightarrow> 'j option \<Rightarrow> 'a cheap_scheme \<Rightarrow> mailbox \<Rightarrow> mailbox" where
  "after_send E c v w P = (if oom w (clock w) then P else post c (json_text E v) P)"

lemma dom_post [simp]: "dom (post c t P) = dom P"
  by (auto simp: post_def split: option.splits)

lemma dom_after_send [simp]: "dom (after_send E c v w P) = dom P"
  by (simp add: after_send_def)

lemma post_other: "d \<noteq> c \<Longrightarrow> post c t P d = P d"
  by (simp add: post_def split: option.splits)

lemma post_at: "P c = Some ts \<Longrightarrow> post c t P c = Some (ts @ [t])"
  by (simp add: post_def)

context jansson
begin

lemma send_spec:
  assumes w: "inv E w P" and c: "c \<in> dom P"
  shows "\<exists>w'. jrpc_connection_send E (Some c) v w = Some w' \<and>
    inv E w' (after_send E c v w P) \<and> extends w P w' (after_send E c v w P) \<and>
    same_sessions w w' \<and> json_refs w' = json_refs w - ref_count v \<and> clock w' = Suc (clock w)"
proof -
  from w c obtain conn s where conn: "conns w c = Some conn" and s: "c_wsi conn = Some s"
    and wsi: "wsi_of w c = Some s"
    by (rule inv_conn)
  show ?thesis
  proof (cases "oom w (clock w)")
    case True
    let ?w = "w\<lparr>clock := Suc (clock w), json_refs := json_refs w - ref_count v\<rparr>"
    have "jrpc_connection_send E (Some c) v w = Some ?w"
      using True by (simp add: jrpc_connection_send_def create_eq json_decref_def)
    moreover have "wsi_of ?w = wsi_of w"
      by (simp add: wsi_of_def fun_eq_iff)
    ultimately show ?thesis
      using w True by (auto simp: after_send_def extends_def same_sessions_def intro: exI [of _ "[]"])
  next
    case False
    let ?b = "message_block E (clock w) v"
    let ?w1 = "w\<lparr>clock := Suc (clock w), blocks := (blocks w)(clock w \<mapsto> ?b)\<rparr>"
    have create: "jrpc_message_create E v w = Some (Some (clock w), ?w1)"
      using False by (simp add: create_eq)
    from append_models [OF inv_models [OF w] conn refl lessI msg_ok_message_block msg_text_message_block]
    obtain q h where app: "jrpc_queue_append (c_messages conn) (Some (clock w)) ?w1 = Some (q, ?w1\<lparr>blocks := h\<rparr>)"
      and m: "models E (?w1\<lparr>blocks := h, conns := (conns w)(c \<mapsto> conn\<lparr>c_messages := q\<rparr>)\<rparr>)
        (post c (json_text E v) P)"
      by blast
    let ?w2 = "?w1\<lparr>blocks := h, conns := (conns w)(c \<mapsto> conn\<lparr>c_messages := q\<rparr>),
      lws_log := lws_log w @ [On_writable s], json_refs := json_refs w - ref_count v\<rparr>"
    have send: "jrpc_connection_send E (Some c) v w = Some ?w2"
      using create app conn s
      by (simp add: jrpc_connection_send_def lws_callback_on_writable_def json_decref_def)
    have m2: "models E ?w2 (post c (json_text E v) P)"
      by (rule models_frame [OF m]) (simp_all add: queues_def)
    have same: "same_sessions w ?w2"
      using conn by (simp add: same_sessions_def)
    then have wsi2: "wsi_of ?w2 = wsi_of w"
      by (rule same_sessions_wsi)
    have "inv E ?w2 (post c (json_text E v) P)"
    proof (rule inv_step [OF w m2 dom_post wsi2])
      fix d t ts s'
      assume d: "post c (json_text E v) P d = Some (t # ts)" "wsi_of w d = Some s'"
      show "wants s' (lws_log ?w2)"
      proof (cases "d = c")
        case True
        with d wsi show ?thesis by simp
      next
        case False
        with d have "P d = Some (t # ts)"
          by (simp add: post_other)
        with w d(2) have "wants s' (lws_log w)"
          using inv_wants by blast
        then show ?thesis by simp
      qed
    qed
    moreover have "extends w P ?w2 (post c (json_text E v) P)"
    proof -
      have "\<exists>ts'. post c (json_text E v) P d = Some (ts @ ts')" if "P d = Some ts" for d ts
        using that by (cases "d = c") (auto simp: post_other post_at)
      then show ?thesis
        using wsi2 by (auto simp: extends_def intro: exI [of _ "[s]"])
    qed
    ultimately show ?thesis
      using send same False by (auto simp: after_send_def)
  qed
qed

end

section \<open>Responses, errors and notifications\<close>

text \<open>The values that are sent, built by the jansson calls numbered from \<open>t\<close>.\<close>

definition respond_value :: "('j, 'e) env_scheme \<Rightarrow> nat \<Rightarrow> 'j option \<Rightarrow> c_int \<Rightarrow> 'j option" where
  "respond_value E t result req_id =
     json_object_set_new E (t + 3)
       (json_object_set_new E (t + 1) (json_object E t) ''result'' result)
       ''id'' (json_integer E (t + 2) (int_to_json req_id))"

definition holder_value :: "('j, 'e) env_scheme \<Rightarrow> nat \<Rightarrow> c_int \<Rightarrow> string \<Rightarrow> 'j option" where
  "holder_value E t code txt =
     json_object_set_new E (t + 4)
       (json_object_set_new E (t + 2) (json_object E t)
          ''code'' (json_integer E (t + 1) (int_to_json code)))
       ''message'' (json_string E (t + 3) txt)"

definition error_value :: "('j, 'e) env_scheme \<Rightarrow> nat \<Rightarrow> c_int \<Rightarrow> string \<Rightarrow> c_int \<Rightarrow> 'j option" where
  "error_value E t code txt req_id =
     json_object_set_new E (t + 8)
       (json_object_set_new E (t + 6) (json_object E (t + 5)) ''error'' (holder_value E t code txt))
       ''id'' (json_integer E (t + 7) (int_to_json req_id))"

definition notify_value :: "('j, 'e) env_scheme \<Rightarrow> nat \<Rightarrow> string \<Rightarrow> 'j option \<Rightarrow> 'j option" where
  "notify_value E t name params =
     json_object_set_new E (t + 3)
       (json_object_set_new E (t + 2) (json_object E t) ''method'' (json_string E (t + 1) name))
       ''params'' params"

lemma jrpc_respond_send:
  "jrpc_respond E connection result i w =
     jrpc_connection_send E connection (respond_value E (clock w) result i)
       (w\<lparr>clock := clock w + 4,
          json_refs := json_refs w + ref_count (json_object E (clock w)) - ref_count result\<rparr>)"
  by (simp add: jrpc_respond_def call_new_def call_object_set_new_def Let_def respond_value_def
      numeral_eq_Suc)

lemma jrpc_respond_error_send:
  "jrpc_respond_error E connection code txt i w =
     jrpc_connection_send E connection (error_value E (clock w) code txt i)
       (w\<lparr>clock := clock w + 9,
          json_refs := json_refs w + ref_count (json_object E (clock w))
            + ref_count (json_object E (clock w + 5)) - ref_count (holder_value E (clock w) code txt)\<rparr>)"
  by (simp add: jrpc_respond_error_def call_new_def call_object_set_new_def Let_def error_value_def
      holder_value_def numeral_eq_Suc)

lemma jrpc_notify_send:
  "jrpc_notify E connection name params w =
     jrpc_connection_send E connection (notify_value E (clock w) name params)
       (w\<lparr>clock := clock w + 4,
          json_refs := json_refs w + ref_count (json_object E (clock w)) - ref_count params\<rparr>)"
  by (simp add: jrpc_notify_def call_new_def call_object_set_new_def Let_def notify_value_def
      numeral_eq_Suc)

text \<open>NULL or an object.\<close>

definition object_or_NULL :: "('j, 'e) env_scheme \<Rightarrow> 'j option \<Rightarrow> bool" where
  "object_or_NULL E v \<longleftrightarrow> (\<forall>x. v = Some x \<longrightarrow> json_is_object E x)"

context jansson
begin

lemma object_or_NULL_new [simp]: "object_or_NULL E (json_object E t)"
  using object_new by (auto simp: object_or_NULL_def)

lemma object_or_NULL_set [simp]:
  assumes "object_or_NULL E obj"
  shows "object_or_NULL E (json_object_set_new E t obj k v)"
    and "ref_count (json_object_set_new E t obj k v) = ref_count obj"
proof -
  have "object_or_NULL E (json_object_set_new E t obj k v) \<and>
      ref_count (json_object_set_new E t obj k v) = ref_count obj"
  proof (cases obj)
    case None
    then show ?thesis by (simp add: set_new_NULL object_or_NULL_def)
  next
    case (Some x)
    with assms have x: "json_is_object E x" by (simp add: object_or_NULL_def)
    show ?thesis
    proof (cases v)
      case None
      with assms show ?thesis by (simp add: set_new_no_value)
    next
      case v: (Some y)
      from set_new_object [OF x, of t k y] Some v show ?thesis
        by (auto simp: object_or_NULL_def)
    qed
  qed
  then show "object_or_NULL E (json_object_set_new E t obj k v)"
    and "ref_count (json_object_set_new E t obj k v) = ref_count obj" by simp_all
qed

lemma value_refs [simp]:
  "ref_count (respond_value E t result i) = ref_count (json_object E t)"
  "ref_count (holder_value E t code txt) = ref_count (json_object E t)"
  "ref_count (error_value E t code txt i) = ref_count (json_object E (t + 5))"
  "ref_count (notify_value E t name params) = ref_count (json_object E t)"
  by (simp_all add: respond_value_def holder_value_def error_value_def notify_value_def)

end

text \<open>The common outcome of the three functions: the value \<open>v\<close> is sent to connection \<open>c\<close> after
  \<open>n\<close> jansson calls, and the program ends up with \<open>d\<close> references fewer.\<close>

definition sends ::
  "('j, 'e) env_scheme \<Rightarrow> addr \<Rightarrow> 'j option \<Rightarrow> nat \<Rightarrow> int \<Rightarrow> 'a cheap_scheme \<Rightarrow> mailbox
     \<Rightarrow> 'a cheap_scheme \<Rightarrow> mailbox \<Rightarrow> bool" where
  "sends E c v n d w P w' P' \<longleftrightarrow>
     P' = (if oom w (clock w + n) then P else post c (json_text E v) P) \<and>
     inv E w' P' \<and> extends w P w' P' \<and> same_sessions w w' \<and> json_refs w' = json_refs w - d \<and>
     clock w' = Suc (clock w + n)"

lemma sends_dom: "sends E c v n d w P w' P' \<Longrightarrow> dom P' = dom P"
  by (simp add: sends_def)

context jansson
begin

lemma send_after_calls:
  assumes w: "inv E w P" and c: "c \<in> dom P"
  shows "\<exists>w' P'. jrpc_connection_send E (Some c) v (w\<lparr>clock := clock w + n, json_refs := r\<rparr>) = Some w' \<and>
    sends E c v n (json_refs w - r + ref_count v) w P w' P'"
proof -
  let ?w = "w\<lparr>clock := clock w + n, json_refs := r\<rparr>"
  have 0: "wsi_of ?w = wsi_of w"
    by (simp add: wsi_of_def fun_eq_iff)
  then have 1: "extends w P ?w P"
    by (auto simp: extends_def intro: exI [of _ "[]"])
  have 2: "same_sessions w ?w"
    by (simp add: same_sessions_def)
  have "inv E ?w P" using w by simp
  from send_spec [OF this c, of v] obtain w' where
    "jrpc_connection_send E (Some c) v ?w = Some w'"
    "inv E w' (after_send E c v ?w P)" "extends ?w P w' (after_send E c v ?w P)"
    "same_sessions ?w w'" "json_refs w' = json_refs ?w - ref_count v" "clock w' = Suc (clock ?w)"
    by blast
  moreover have "after_send E c v ?w P = (if oom w (clock w + n) then P else post c (json_text E v) P)"
    by (simp add: after_send_def)
  ultimately show ?thesis
    using 1 2 extends_trans same_sessions_trans unfolding sends_def by fastforce
qed

lemma respond_spec:
  assumes "inv E w P" and "c \<in> dom P"
  shows "\<exists>w' P'. jrpc_respond E (Some c) result i w = Some w' \<and>
    sends E c (respond_value E (clock w) result i) 4 (ref_count result) w P w' P'"
  using send_after_calls [OF assms, where v = "respond_value E (clock w) result i" and n = 4
      and r = "json_refs w + ref_count (json_object E (clock w)) - ref_count result"]
  by (simp add: jrpc_respond_send)

lemma respond_error_spec:
  assumes "inv E w P" and "c \<in> dom P"
  shows "\<exists>w' P'. jrpc_respond_error E (Some c) code txt i w = Some w' \<and>
    sends E c (error_value E (clock w) code txt i) 9 0 w P w' P'"
  using send_after_calls [OF assms, where v = "error_value E (clock w) code txt i" and n = 9
      and r = "json_refs w + ref_count (json_object E (clock w))
        + ref_count (json_object E (clock w + 5)) - ref_count (holder_value E (clock w) code txt)"]
  by (simp add: jrpc_respond_error_send)

lemma notify_spec:
  assumes "inv E w P" and "c \<in> dom P"
  shows "\<exists>w' P'. jrpc_notify E (Some c) name params w = Some w' \<and>
    sends E c (notify_value E (clock w) name params) 4 (ref_count params) w P w' P'"
  using send_after_calls [OF assms, where v = "notify_value E (clock w) name params" and n = 4
      and r = "json_refs w + ref_count (json_object E (clock w)) - ref_count params"]
  by (simp add: jrpc_notify_send)

end

text \<open>The common outcome of calls into the library that keep the sessions.\<close>

definition quiet ::
  "('j, 'e) env_scheme \<Rightarrow> 'a cheap_scheme \<Rightarrow> mailbox \<Rightarrow> 'a cheap_scheme \<Rightarrow> mailbox \<Rightarrow> bool" where
  "quiet E w P w' P' \<longleftrightarrow> inv E w' P' \<and> extends w P w' P' \<and> same_sessions w w'"

lemma quiet_trans [trans]: "quiet E w P w' P' \<Longrightarrow> quiet E w' P' w'' P'' \<Longrightarrow> quiet E w P w'' P''"
  unfolding quiet_def by (blast intro: extends_trans same_sessions_trans)

lemma quiet_refl: "inv E w P \<Longrightarrow> quiet E w P w P"
  by (simp add: quiet_def)

lemma quiet_dom: "quiet E w P w' P' \<Longrightarrow> dom P' = dom P"
  by (simp add: quiet_def extends_def)

lemma quiet_inv: "quiet E w P w' P' \<Longrightarrow> inv E w' P'"
  by (simp add: quiet_def)

lemma quiet_calls:
  assumes "inv E w P"
  shows "quiet E w P (w\<lparr>clock := clock w + n, json_refs := r\<rparr>) P"
proof -
  have "wsi_of (w\<lparr>clock := clock w + n, json_refs := r\<rparr>) = wsi_of w"
    by (simp add: wsi_of_def fun_eq_iff)
  with assms show ?thesis
    by (auto simp: quiet_def extends_def same_sessions_def intro: exI [of _ "[]"])
qed

lemma sends_quiet: "sends E c v n d w P w' P' \<Longrightarrow> quiet E w P w' P'"
  unfolding sends_def quiet_def by blast

section \<open>The content of what is sent\<close>

definition int_member :: "('j, 'e) env_scheme \<Rightarrow> 'j \<Rightarrow> string \<Rightarrow> c_int \<Rightarrow> bool" where
  "int_member E v k i \<longleftrightarrow> (\<exists>x. json_object_get E v k = Some x \<and> json_is_integer E x \<and>
     json_integer_value E x = int_to_json i)"

definition string_member :: "('j, 'e) env_scheme \<Rightarrow> 'j \<Rightarrow> string \<Rightarrow> string \<Rightarrow> bool" where
  "string_member E v k s \<longleftrightarrow> (\<exists>x. json_object_get E v k = Some x \<and> json_is_string E x \<and>
     json_string_value E x = s)"

definition is_response :: "('j, 'e) env_scheme \<Rightarrow> 'j option \<Rightarrow> c_int \<Rightarrow> 'j \<Rightarrow> bool" where
  "is_response E result i v \<longleftrightarrow>
     json_is_object E v \<and> json_object_get E v ''result'' = result \<and> int_member E v ''id'' i \<and>
     (\<forall>k. k \<noteq> ''result'' \<longrightarrow> k \<noteq> ''id'' \<longrightarrow> json_object_get E v k = NULL)"

definition is_error :: "('j, 'e) env_scheme \<Rightarrow> c_int \<Rightarrow> string \<Rightarrow> c_int \<Rightarrow> 'j \<Rightarrow> bool" where
  "is_error E code txt i v \<longleftrightarrow>
     json_is_object E v \<and> int_member E v ''id'' i \<and> json_object_get E v ''result'' = NULL \<and>
     (\<exists>e. json_object_get E v ''error'' = Some e \<and> json_is_object E e \<and>
        int_member E e ''code'' code \<and> string_member E e ''message'' txt)"

definition is_notification :: "('j, 'e) env_scheme \<Rightarrow> string \<Rightarrow> 'j option \<Rightarrow> 'j \<Rightarrow> bool" where
  "is_notification E name params v \<longleftrightarrow>
     json_is_object E v \<and> string_member E v ''method'' name \<and>
     json_object_get E v ''params'' = params \<and> json_object_get E v ''id'' = NULL"

text \<open>The jansson calls with the numbers \<open>N\<close> do not fail.\<close>

definition works :: "('j, 'e) env_scheme \<Rightarrow> nat set \<Rightarrow> bool" where
  "works E N \<longleftrightarrow>
     (\<forall>t \<in> N. json_object E t \<noteq> NULL \<and> (\<forall>i. json_integer E t i \<noteq> NULL) \<and>
        (\<forall>v k x v'. json_is_object E v \<longrightarrow> json_object_set_new E t (Some v) k (Some x) = Some v' \<longrightarrow>
           json_object_get E v' = (json_object_get E v)(k \<mapsto> x)))"

lemma works_subset: "works E N \<Longrightarrow> N' \<subseteq> N \<Longrightarrow> works E N'"
  unfolding works_def by blast

context jansson
begin

lemma set_works:
  assumes "works E N" and "t \<in> N" and "json_is_object E v"
  obtains v' where "json_object_set_new E t (Some v) k r = Some v'" and "json_is_object E v'"
    and "json_object_get E v' = (case r of NULL \<Rightarrow> json_object_get E v | Some x \<Rightarrow> (json_object_get E v)(k \<mapsto> x))"
proof (cases r)
  case None
  then show ?thesis using that [of v] assms by (simp add: set_new_no_value)
next
  case (Some x)
  from set_new_object [OF assms(3)] obtain v'
    where v': "json_object_set_new E t (Some v) k (Some x) = Some v'" "json_is_object E v'"
    by blast
  with assms have "json_object_get E v' = (json_object_get E v)(k \<mapsto> x)" unfolding works_def by blast
  with Some v' that [of v'] show ?thesis by simp
qed

lemma object_works:
  assumes "works E N" and "t \<in> N"
  obtains v where "json_object E t = Some v" and "json_is_object E v" and "json_object_get E v = Map.empty"
proof -
  obtain v where v: "json_object E t = Some v"
    using assms by (auto simp: works_def)
  with object_new [OF v] that show ?thesis by (simp add: fun_eq_iff)
qed

lemma integer_works:
  assumes "works E N" and "t \<in> N"
  obtains x where "json_integer E t i = Some x" and "json_is_integer E x" and "json_integer_value E x = i"
  using assms integer_new unfolding works_def by blast

lemma respond_value_works:
  assumes ok: "works E {t..<t + 4}"
  shows "\<exists>v. respond_value E t result i = Some v \<and> is_response E result i v"
proof -
  obtain v0 where 0: "json_object E t = Some v0" "json_is_object E v0" "json_object_get E v0 = Map.empty"
    by (rule object_works [OF ok, rotated], assumption, simp)
  obtain v1 where 1: "json_object_set_new E (t + 1) (Some v0) ''result'' result = Some v1" "json_is_object E v1"
    "json_object_get E v1 = (case result of NULL \<Rightarrow> json_object_get E v0 | Some x \<Rightarrow> (json_object_get E v0)(''result'' \<mapsto> x))"
    by (rule set_works [OF ok _ 0(2), rotated], assumption, simp)
  obtain x where x: "json_integer E (t + 2) (int_to_json i) = Some x" "json_is_integer E x"
    "json_integer_value E x = int_to_json i"
    by (rule integer_works [OF ok, rotated], assumption, simp)
  obtain v2 where 2: "json_object_set_new E (t + 3) (Some v1) ''id'' (Some x) = Some v2" "json_is_object E v2"
    "json_object_get E v2 = (case Some x of NULL \<Rightarrow> json_object_get E v1 | Some x \<Rightarrow> (json_object_get E v1)(''id'' \<mapsto> x))"
    by (rule set_works [OF ok _ 1(2), rotated], assumption, simp)
  from 0 1 x 2 show ?thesis
    by (cases result) (simp_all add: respond_value_def is_response_def int_member_def)
qed

lemma holder_value_works:
  assumes ok: "works E {t..<t + 5}" and str: "json_string E (t + 3) s \<noteq> NULL"
  shows "\<exists>v. holder_value E t code s = Some v \<and> json_is_object E v \<and> int_member E v ''code'' code \<and>
    string_member E v ''message'' s"
proof -
  obtain v0 where 0: "json_object E t = Some v0" "json_is_object E v0" "json_object_get E v0 = Map.empty"
    by (rule object_works [OF ok, rotated], assumption, simp)
  obtain x where x: "json_integer E (t + 1) (int_to_json code) = Some x" "json_is_integer E x"
    "json_integer_value E x = int_to_json code"
    by (rule integer_works [OF ok, rotated], assumption, simp)
  obtain v1 where 1: "json_object_set_new E (t + 2) (Some v0) ''code'' (Some x) = Some v1" "json_is_object E v1"
    "json_object_get E v1 = (case Some x of NULL \<Rightarrow> json_object_get E v0 | Some x \<Rightarrow> (json_object_get E v0)(''code'' \<mapsto> x))"
    by (rule set_works [OF ok _ 0(2), rotated], assumption, simp)
  from str obtain y where y: "json_string E (t + 3) s = Some y" "json_is_string E y" "json_string_value E y = s"
    using string_new by blast
  obtain v2 where 2: "json_object_set_new E (t + 4) (Some v1) ''message'' (Some y) = Some v2" "json_is_object E v2"
    "json_object_get E v2 = (case Some y of NULL \<Rightarrow> json_object_get E v1 | Some x \<Rightarrow> (json_object_get E v1)(''message'' \<mapsto> x))"
    by (rule set_works [OF ok _ 1(2), rotated], assumption, simp)
  from 0 x 1 y 2 show ?thesis
    by (simp add: holder_value_def int_member_def string_member_def)
qed

lemma error_value_works:
  assumes ok: "works E {t..<t + 9}" and str: "json_string E (t + 3) s \<noteq> NULL"
  shows "\<exists>v. error_value E t code s i = Some v \<and> is_error E code s i v"
proof -
  have "works E {t..<t + 5}" using ok by (rule works_subset) simp
  from holder_value_works [OF this str, of code] obtain e where e: "holder_value E t code s = Some e"
    "json_is_object E e" "int_member E e ''code'' code" "string_member E e ''message'' s"
    by blast
  obtain v0 where 0: "json_object E (t + 5) = Some v0" "json_is_object E v0" "json_object_get E v0 = Map.empty"
    by (rule object_works [OF ok, rotated], assumption, simp)
  obtain v1 where 1: "json_object_set_new E (t + 6) (Some v0) ''error'' (Some e) = Some v1" "json_is_object E v1"
    "json_object_get E v1 = (case Some e of NULL \<Rightarrow> json_object_get E v0 | Some x \<Rightarrow> (json_object_get E v0)(''error'' \<mapsto> x))"
    by (rule set_works [OF ok _ 0(2), rotated], assumption, simp)
  obtain x where x: "json_integer E (t + 7) (int_to_json i) = Some x" "json_is_integer E x"
    "json_integer_value E x = int_to_json i"
    by (rule integer_works [OF ok, rotated], assumption, simp)
  obtain v2 where 2: "json_object_set_new E (t + 8) (Some v1) ''id'' (Some x) = Some v2" "json_is_object E v2"
    "json_object_get E v2 = (case Some x of NULL \<Rightarrow> json_object_get E v1 | Some x \<Rightarrow> (json_object_get E v1)(''id'' \<mapsto> x))"
    by (rule set_works [OF ok _ 1(2), rotated], assumption, simp)
  from e 0 1 x 2 show ?thesis
    by (simp add: error_value_def is_error_def int_member_def)
qed

lemma notify_value_works:
  assumes ok: "works E {t..<t + 4}" and str: "json_string E (t + 1) name \<noteq> NULL"
  shows "\<exists>v. notify_value E t name params = Some v \<and> is_notification E name params v"
proof -
  obtain v0 where 0: "json_object E t = Some v0" "json_is_object E v0" "json_object_get E v0 = Map.empty"
    by (rule object_works [OF ok, rotated], assumption, simp)
  from str obtain y where y: "json_string E (t + 1) name = Some y" "json_is_string E y" "json_string_value E y = name"
    using string_new by blast
  obtain v1 where 1: "json_object_set_new E (t + 2) (Some v0) ''method'' (Some y) = Some v1" "json_is_object E v1"
    "json_object_get E v1 = (case Some y of NULL \<Rightarrow> json_object_get E v0 | Some x \<Rightarrow> (json_object_get E v0)(''method'' \<mapsto> x))"
    by (rule set_works [OF ok _ 0(2), rotated], assumption, simp)
  obtain v2 where 2: "json_object_set_new E (t + 3) (Some v1) ''params'' params = Some v2" "json_is_object E v2"
    "json_object_get E v2 = (case params of NULL \<Rightarrow> json_object_get E v1 | Some x \<Rightarrow> (json_object_get E v1)(''params'' \<mapsto> x))"
    by (rule set_works [OF ok _ 1(2), rotated], assumption, simp)
  from 0 y 1 2 show ?thesis
    by (cases params) (simp_all add: notify_value_def is_notification_def string_member_def)
qed

end

context jansson_total
begin

lemma works_all: "works E N"
  using object_total integer_total set_new_total unfolding works_def by blast

lemma set_total:
  assumes "json_is_object E v"
  obtains v' where "json_object_set_new E t (Some v) k r = Some v'" and "json_is_object E v'"
    and "json_object_get E v' = (case r of NULL \<Rightarrow> json_object_get E v | Some x \<Rightarrow> (json_object_get E v)(k \<mapsto> x))"
  using set_works [OF works_all UNIV_I assms] .

lemmas object_total_new = object_works [OF works_all UNIV_I]

lemmas respond_value_content = respond_value_works [OF works_all]
lemmas error_value_content = error_value_works [OF works_all]
lemmas notify_value_content = notify_value_works [OF works_all]

text \<open>The text of an object that was dumped without error reads back as the object.\<close>

lemma text_reads_back:
  "json_is_object E v \<Longrightarrow> fst (json_dumpb E (Some v) 0) \<noteq> 0 \<Longrightarrow> json_loadb E t (json_text E (Some v)) = Some v"
  by (rule load_dump) simp_all

end

section \<open>Properties\<close>

text \<open>Two sessions: connection 0 on websocket 5 and connection 1 on websocket 6. The allocations
  whose numbers are in \<open>bad\<close> fail.\<close>

definition two_sessions :: "nat set \<Rightarrow> cheap" where
  "two_sessions bad = open_session NULL 1 6 (open_session NULL 0 5
     \<lparr>clock = 2, oom = (\<lambda>i. i \<in> bad), json_refs = 0, blocks = Map.empty, lws_log = [],
      conns = Map.empty\<rparr>)"

lemma two_sessions_simps [simp]:
  "clock (two_sessions bad) = 2" "oom (two_sessions bad) = (\<lambda>i. i \<in> bad)" "json_refs (two_sessions bad) = 0"
  by (simp_all add: two_sessions_def open_session_def)

lemma inv_two_sessions: "inv E (two_sessions bad) [0 \<mapsto> [], 1 \<mapsto> []]"
  unfolding two_sessions_def
  by (intro inv_open_session inv_empty) (simp_all add: open_session_def wsi_of_def split: if_splits)

text \<open>C8. \<open>jrpc_connection_send\<close> refines the mailbox: under the invariant it always returns. Either
  the allocation of the message fails and no list changes, or the complete text of the value is
  added at the end of the connection's list and nowhere else, with a writeable callback requested.
  In both cases it gives up exactly the reference to the value that it was passed, and the
  invariant holds afterwards.\<close>

theorem send_refines_post:
  assumes "jansson E" and "inv E w P" and "c \<in> dom P"
  shows "\<exists>w'. jrpc_connection_send E (Some c) v w = Some w' \<and>
    inv E w' (if oom w (clock w) then P else post c (json_text E v) P) \<and>
    (\<forall>s. wsi_of w c = Some s \<longrightarrow> \<not> oom w (clock w) \<longrightarrow> wants s (lws_log w')) \<and>
    json_refs w' = json_refs w - ref_count v"
proof -
  from jansson.send_spec [OF assms, of v] obtain w'
    where send: "jrpc_connection_send E (Some c) v w = Some w'"
      and inv: "inv E w' (if oom w (clock w) then P else post c (json_text E v) P)"
      and same: "same_sessions w w'" and refs: "json_refs w' = json_refs w - ref_count v"
    by (auto simp: after_send_def)
  have "wants s (lws_log w')" if s: "wsi_of w c = Some s" and "\<not> oom w (clock w)" for s
  proof -
    from assms(3) obtain ts where "P c = Some ts" by blast
    then have "post c (json_text E v) P c = Some (ts @ [json_text E v])"
      by (rule post_at)
    with inv that same_sessions_wsi [OF same] show ?thesis
      by (cases ts) (auto dest: inv_wants)
  qed
  with send inv refs show ?thesis by blast
qed

theorem send_refines_post_witness:
  "\<exists>w'. jrpc_connection_send ref_env (Some 1) (Some (JArray [])) (two_sessions {}) = Some w' \<and>
     inv ref_env w' [0 \<mapsto> [], 1 \<mapsto> [''[]'']] \<and> json_refs w' = -1"
proof -
  have "json_text ref_env (Some (JArray [])) = ''[]''"
    by (simp add: json_text_def ref_env_def ref_dumpb_def is_container_def)
  then have "post 1 (json_text ref_env (Some (JArray []))) [0 \<mapsto> [], 1 \<mapsto> []] = [0 \<mapsto> [], 1 \<mapsto> [''[]'']]"
    by (simp add: post_def fun_eq_iff)
  with send_refines_post [OF ref.jansson_axioms inv_two_sessions, of 1 "Some (JArray [])" "{}"]
  show ?thesis by auto
qed

text \<open>The outcome of \<open>sends\<close> when the message can be allocated, at a connection with texts \<open>ts\<close>.\<close>

lemma sends_posted:
  "sends E c v n d w P w' P' \<Longrightarrow> \<not> oom w (clock w + n) \<Longrightarrow> P c = Some ts \<Longrightarrow>
   inv E w' (P(c \<mapsto> ts @ [json_text E v])) \<and> quiet E w P w' (P(c \<mapsto> ts @ [json_text E v])) \<and>
   json_refs w' = json_refs w - d"
  by (auto simp: sends_def post_def quiet_def)

context jansson
begin

lemma respond_posts_works:
  assumes "works E {clock w..<clock w + 4}" and "inv E w P" and "P c = Some ts" and "\<not> oom w (clock w + 4)"
  shows "\<exists>w' v. jrpc_respond E (Some c) result i w = Some w' \<and>
    respond_value E (clock w) result i = Some v \<and> is_response E result i v \<and>
    inv E w' (P(c \<mapsto> ts @ [json_text E (Some v)])) \<and>
    quiet E w P w' (P(c \<mapsto> ts @ [json_text E (Some v)])) \<and> json_refs w' = json_refs w - ref_count result"
proof -
  have c: "c \<in> dom P" using assms(3) by blast
  from respond_value_works [OF assms(1), of result i] obtain v
    where v: "respond_value E (clock w) result i = Some v" "is_response E result i v" by blast
  from respond_spec [OF assms(2) c, of result i] obtain w' P'
    where call: "jrpc_respond E (Some c) result i w = Some w'"
      and sends: "sends E c (Some v) 4 (ref_count result) w P w' P'"
    unfolding v(1) by blast
  from sends_posted [OF sends assms(4,3)] call v show ?thesis by blast
qed

lemma respond_error_posts_works:
  assumes "works E {clock w..<clock w + 9}" and "inv E w P" and "P c = Some ts" and "\<not> oom w (clock w + 9)"
    and "json_string E (clock w + 3) s \<noteq> NULL"
  shows "\<exists>w' v. jrpc_respond_error E (Some c) code s i w = Some w' \<and>
    error_value E (clock w) code s i = Some v \<and> is_error E code s i v \<and>
    inv E w' (P(c \<mapsto> ts @ [json_text E (Some v)])) \<and>
    quiet E w P w' (P(c \<mapsto> ts @ [json_text E (Some v)])) \<and> json_refs w' = json_refs w"
proof -
  have c: "c \<in> dom P" using assms(3) by blast
  from error_value_works [OF assms(1,5), of code i] obtain v
    where v: "error_value E (clock w) code s i = Some v" "is_error E code s i v" by blast
  from respond_error_spec [OF assms(2) c, of code s i] obtain w' P'
    where call: "jrpc_respond_error E (Some c) code s i w = Some w'"
      and sends: "sends E c (Some v) 9 0 w P w' P'"
    unfolding v(1) by blast
  from sends_posted [OF sends assms(4,3)] call v show ?thesis by auto
qed

lemma notify_posts_works:
  assumes "works E {clock w..<clock w + 4}" and "inv E w P" and "P c = Some ts" and "\<not> oom w (clock w + 4)"
    and "json_string E (clock w + 1) name \<noteq> NULL"
  shows "\<exists>w' v. jrpc_notify E (Some c) name params w = Some w' \<and>
    notify_value E (clock w) name params = Some v \<and> is_notification E name params v \<and>
    inv E w' (P(c \<mapsto> ts @ [json_text E (Some v)])) \<and>
    quiet E w P w' (P(c \<mapsto> ts @ [json_text E (Some v)])) \<and> json_refs w' = json_refs w - ref_count params"
proof -
  have c: "c \<in> dom P" using assms(3) by blast
  from notify_value_works [OF assms(1,5), of params] obtain v
    where v: "notify_value E (clock w) name params = Some v" "is_notification E name params v" by blast
  from notify_spec [OF assms(2) c, of name params] obtain w' P'
    where call: "jrpc_notify E (Some c) name params w = Some w'"
      and sends: "sends E c (Some v) 4 (ref_count params) w P w' P'"
    unfolding v(1) by blast
  from sends_posted [OF sends assms(4,3)] call v show ?thesis by blast
qed

end

lemma respond_posts:
  assumes "jansson_total E" and "inv E w P" and "P c = Some ts" and "\<not> oom w (clock w + 4)"
  shows "\<exists>w' v. jrpc_respond E (Some c) result i w = Some w' \<and>
    respond_value E (clock w) result i = Some v \<and> is_response E result i v \<and>
    inv E w' (P(c \<mapsto> ts @ [json_text E (Some v)])) \<and>
    quiet E w P w' (P(c \<mapsto> ts @ [json_text E (Some v)])) \<and> json_refs w' = json_refs w - ref_count result"
  using jansson.respond_posts_works [OF _ jansson_total.works_all [OF assms(1)] assms(2-4)] assms(1)
  by (simp add: jansson_total_def)

lemma respond_error_posts:
  assumes "jansson_total E" and "inv E w P" and "P c = Some ts" and "\<not> oom w (clock w + 9)"
    and "json_string E (clock w + 3) s \<noteq> NULL"
  shows "\<exists>w' v. jrpc_respond_error E (Some c) code s i w = Some w' \<and>
    error_value E (clock w) code s i = Some v \<and> is_error E code s i v \<and>
    inv E w' (P(c \<mapsto> ts @ [json_text E (Some v)])) \<and>
    quiet E w P w' (P(c \<mapsto> ts @ [json_text E (Some v)])) \<and> json_refs w' = json_refs w"
  using jansson.respond_error_posts_works [OF _ jansson_total.works_all [OF assms(1)] assms(2-5)] assms(1)
  by (simp add: jansson_total_def)

lemma notify_posts:
  assumes "jansson_total E" and "inv E w P" and "P c = Some ts" and "\<not> oom w (clock w + 4)"
    and "json_string E (clock w + 1) name \<noteq> NULL"
  shows "\<exists>w' v. jrpc_notify E (Some c) name params w = Some w' \<and>
    notify_value E (clock w) name params = Some v \<and> is_notification E name params v \<and>
    inv E w' (P(c \<mapsto> ts @ [json_text E (Some v)])) \<and>
    quiet E w P w' (P(c \<mapsto> ts @ [json_text E (Some v)])) \<and> json_refs w' = json_refs w - ref_count params"
  using jansson.notify_posts_works [OF _ jansson_total.works_all [OF assms(1)] assms(2-5)] assms(1)
  by (simp add: jansson_total_def)

text \<open>C30. A response carries what it was asked to carry: if no allocation fails,
  \<open>jrpc_respond\<close> posts the text of an object whose \<open>result\<close> is the given value, whose \<open>id\<close> is the
  integer given, and that has no other member; that text can be read back by a JSON parser. The
  reference to the result is consumed and no other reference is kept or lost.\<close>

theorem respond_content:
  assumes "jansson_total E" and "inv E w P" and "P c = Some ts" and "\<not> oom w (clock w + 4)"
  shows "\<exists>w' v. jrpc_respond E (Some c) result i w = Some w' \<and> is_response E result i v \<and>
    inv E w' (P(c \<mapsto> ts @ [json_text E (Some v)])) \<and>
    (fst (json_dumpb E (Some v) 0) \<noteq> 0 \<longrightarrow> json_loadb E n (json_text E (Some v)) = Some v) \<and>
    json_refs w' = json_refs w - ref_count result"
proof -
  from respond_posts [OF assms, of result i] obtain w' v
    where "jrpc_respond E (Some c) result i w = Some w'" "is_response E result i v"
      "inv E w' (P(c \<mapsto> ts @ [json_text E (Some v)]))" "json_refs w' = json_refs w - ref_count result"
    by blast
  with jansson_total.text_reads_back [OF assms(1), of v n] show ?thesis
    by (auto simp: is_response_def)
qed

theorem respond_content_witness:
  "\<exists>w' v. jrpc_respond ref_env (Some 0) (Some (JInt 42)) 7 (two_sessions {}) = Some w' \<and>
     is_response ref_env (Some (JInt 42)) 7 v \<and>
     inv ref_env w' [0 \<mapsto> [json_text ref_env (Some v)], 1 \<mapsto> []]"
proof -
  have "([0 \<mapsto> [], 1 \<mapsto> []] :: mailbox) 0 = Some []" by simp
  from respond_content [OF ref.jansson_total_axioms inv_two_sessions this, of "{}" "Some (JInt 42)" 7]
  show ?thesis by (fastforce simp: fun_upd_twist)
qed

text \<open>C31. An error response: if no allocation fails and the message is valid UTF-8 (the
  documented condition of \<open>json_string\<close>), \<open>jrpc_respond_error\<close> posts an object without \<open>result\<close>,
  whose \<open>error\<close> is an object with the given code and message, and whose \<open>id\<close> is the given
  integer; no reference is kept or lost.\<close>

theorem respond_error_content:
  assumes "jansson_total E" and "inv E w P" and "P c = Some ts" and "\<not> oom w (clock w + 9)"
    and "json_string E (clock w + 3) s \<noteq> NULL"
  shows "\<exists>w' v. jrpc_respond_error E (Some c) code s i w = Some w' \<and> is_error E code s i v \<and>
    inv E w' (P(c \<mapsto> ts @ [json_text E (Some v)])) \<and>
    (fst (json_dumpb E (Some v) 0) \<noteq> 0 \<longrightarrow> json_loadb E n (json_text E (Some v)) = Some v) \<and>
    json_refs w' = json_refs w"
proof -
  from respond_error_posts [OF assms, of code i] obtain w' v
    where "jrpc_respond_error E (Some c) code s i w = Some w'" "is_error E code s i v"
      "inv E w' (P(c \<mapsto> ts @ [json_text E (Some v)]))" "json_refs w' = json_refs w"
    by blast
  with jansson_total.text_reads_back [OF assms(1), of v n] show ?thesis
    by (auto simp: is_error_def)
qed

theorem respond_error_content_witness:
  "\<exists>w' v. jrpc_respond_error ref_env (Some 1) (-1) ''name already used'' 3 (two_sessions {1}) = Some w' \<and>
     is_error ref_env (-1) ''name already used'' 3 v \<and>
     inv ref_env w' [0 \<mapsto> [], 1 \<mapsto> [json_text ref_env (Some v)]] \<and> json_refs w' = 0"
proof -
  have P: "([0 \<mapsto> [], 1 \<mapsto> []] :: mailbox) 1 = Some []" by simp
  have "json_string ref_env (clock (two_sessions {1}) + 3) ''name already used'' \<noteq> NULL"
    by (simp add: ref_env_def)
  from respond_error_content [OF ref.jansson_total_axioms inv_two_sessions P _ this, of "-1" 3]
  show ?thesis by fastforce
qed

text \<open>A notification: \<open>jrpc_notify\<close> posts an object with the given method name and parameters
  and without an \<open>id\<close>, so that the peer does not answer it; the reference to the parameters
  is consumed.\<close>

theorem notify_content:
  assumes "jansson_total E" and "inv E w P" and "P c = Some ts" and "\<not> oom w (clock w + 4)"
    and "json_string E (clock w + 1) name \<noteq> NULL"
  shows "\<exists>w' v. jrpc_notify E (Some c) name params w = Some w' \<and> is_notification E name params v \<and>
    inv E w' (P(c \<mapsto> ts @ [json_text E (Some v)])) \<and>
    json_refs w' = json_refs w - ref_count params"
  using notify_posts [OF assms, of params] by blast

theorem notify_content_witness:
  "\<exists>w' v. jrpc_notify ref_env (Some 0) ''joined'' (Some (JArray [JString ''ann''])) (two_sessions {0, 1}) = Some w' \<and>
     is_notification ref_env ''joined'' (Some (JArray [JString ''ann''])) v \<and>
     inv ref_env w' [0 \<mapsto> [json_text ref_env (Some v)], 1 \<mapsto> []] \<and> json_refs w' = -1"
proof -
  have P: "([0 \<mapsto> [], 1 \<mapsto> []] :: mailbox) 0 = Some []" by simp
  have "json_string ref_env (clock (two_sessions {0, 1}) + 1) ''joined'' \<noteq> NULL"
    by (simp add: ref_env_def)
  from notify_content [OF ref.jansson_total_axioms inv_two_sessions P _ this,
      of "Some (JArray [JString ''ann''])"]
  show ?thesis by (fastforce simp: fun_upd_twist)
qed

end
