(* ===== verification/Jrpc_Callback.thy ===== *)
theory Jrpc_Callback
  imports Jrpc_Session Jrpc_Protocol
begin

text \<open>
  What the callback of the protocol does for every reason, under the invariant of \<open>Jrpc_Session\<close>.

  The locale \<open>handlers\<close> is the contract between the library and the handlers that are installed:
  called for a live connection, a handler returns, keeps the invariant, changes the connections only
  as the library's functions do, and leaves the configured protocols usable. \<open>good\<close> are the
  protocol structures whose handlers the contract is about; \<open>I w C\<close> is an invariant of the
  user's own state while the connections \<open>C\<close> are open, which the library does not touch.
  The default handlers satisfy the contract.
\<close>

section \<open>The contract of the handlers\<close>

definition configured :: "(jrpc_protocol \<Rightarrow> bool) \<Rightarrow> 'a pheap_scheme \<Rightarrow> ptr \<Rightarrow> bool" where
  "configured good w protocol \<longleftrightarrow> (\<exists>p. deref (protos w) protocol = Some p \<and> good p)"

definition handled ::
  "('j, 'e) env_scheme \<Rightarrow> (jrpc_protocol \<Rightarrow> bool) \<Rightarrow> ('a pheap_scheme \<Rightarrow> addr set \<Rightarrow> bool) \<Rightarrow> addr set
     \<Rightarrow> 'a pheap_scheme \<Rightarrow> mailbox \<Rightarrow> 'a pheap_scheme \<Rightarrow> mailbox \<Rightarrow> bool" where
  "handled E good I C w P w' P' \<longleftrightarrow>
     inv E w' P' \<and> extends w P w' P' \<and>
     (\<forall>a. configured good w a \<longrightarrow> configured good w' a) \<and> I w' C"

locale handlers = jansson E for E :: "('j, 'e) env_scheme" +
  fixes U :: "('j, 'a pheap_scheme) user_code"
    and good :: "jrpc_protocol \<Rightarrow> bool"
    and I :: "'a pheap_scheme \<Rightarrow> addr set \<Rightarrow> bool"
  assumes I_frame: "I w C \<Longrightarrow> pheap.more w' = pheap.more w \<Longrightarrow> I w' C"
    and onmethod_ok: "good p \<Longrightarrow> inv E w P \<Longrightarrow> I w (dom P) \<Longrightarrow> c \<in> dom P \<Longrightarrow>
      \<exists>w' P'. call_onmethod E U (p_onmethod p) (Some c) name params i w = Some w' \<and>
        handled E good I (dom P) w P w' P'"
    and onnotify_ok: "good p \<Longrightarrow> inv E w P \<Longrightarrow> I w (dom P) \<Longrightarrow> c \<in> dom P \<Longrightarrow>
      \<exists>w' P'. call_onnotify U (p_onnotify p) (Some c) name params w = Some w' \<and>
        handled E good I (dom P) w P w' P'"
    and onconnected_ok: "good p \<Longrightarrow> inv E w P \<Longrightarrow> I w (dom P - {c}) \<Longrightarrow> c \<in> dom P \<Longrightarrow>
      \<exists>w' P'. call_onconnected U (p_onconnected p) (Some c) w = Some w' \<and>
        handled E good I (dom P) w P w' P'"
    and ondisconnected_ok: "good p \<Longrightarrow> inv E w P \<Longrightarrow> I w (dom P) \<Longrightarrow> c \<in> dom P \<Longrightarrow>
      \<exists>w' P'. call_ondisconnected U (p_ondisconnected p) (Some c) w = Some w' \<and>
        handled E good I (dom P - {c}) w P w' P'"

section \<open>Framing\<close>

lemma inv_sockets: "inv E w P \<Longrightarrow> inv E (w\<lparr>sockets := s\<rparr>) P"
  by (erule inv_frame) simp_all

lemma same_sessions_protos:
  assumes "same_sessions w w'"
  shows "protos w' = protos w" and "sockets w' = sockets w" and "pheap.more w' = pheap.more w"
proof -
  have "cheap.more w' = cheap.more w"
    using assms by (simp add: same_sessions_def)
  then show "protos w' = protos w" and "sockets w' = sockets w" and "pheap.more w' = pheap.more w"
    by (cases w; cases w'; simp)+
qed

lemma handled_refl: "inv E w P \<Longrightarrow> I w C \<Longrightarrow> handled E good I C w P w P"
  by (simp add: handled_def)

lemma handled_trans:
  "handled E good I C w P w' P' \<Longrightarrow> handled E good I C' w' P' w'' P'' \<Longrightarrow> handled E good I C' w P w'' P''"
  unfolding handled_def by (blast intro: extends_trans)

lemma handled_dom: "handled E good I C w P w' P' \<Longrightarrow> dom P' = dom P"
  by (simp add: handled_def extends_def)

lemma handled_inv: "handled E good I C w P w' P' \<Longrightarrow> inv E w' P'"
  by (simp add: handled_def)

lemma configured_protos: "protos w' = protos w \<Longrightarrow> configured good w' a = configured good w a"
  by (simp add: configured_def)

lemma request_writeable_eq:
  assumes "models E w P" and "c \<in> dom P"
  shows "request_writeable s (Some c) w =
    Some (if P c = Some [] then w else w\<lparr>lws_log := lws_log w @ [On_writable s]\<rparr>)"
proof -
  from assms obtain conn ts where conn: "conns w c = Some conn" and ts: "P c = Some ts"
    using models_dom by (metis domD)
  with empty_models [OF assms(1) conn ts] show ?thesis
    by (simp add: request_writeable_def lws_callback_on_writable_def)
qed

lemma request_writeable_spec:
  assumes w: "inv E w P" and c: "c \<in> dom P"
  obtains w' ss where "request_writeable s (Some c) w = Some w'" and "inv E w' P"
    and "extends w P w' P" and "same_sessions w w'"
    and "lws_log w' = lws_log w @ map On_writable ss"
proof -
  let ?w = "if P c = Some [] then w else w\<lparr>lws_log := lws_log w @ [On_writable s]\<rparr>"
  have log: "lws_log ?w = lws_log w @ map On_writable (if P c = Some [] then [] else [s])"
    by simp
  have wsi: "wsi_of ?w = wsi_of w"
    by (simp add: wsi_of_def fun_eq_iff)
  have "inv E ?w P"
  proof (rule inv_step [OF w _ refl wsi])
    show "models E ?w P"
      using inv_models [OF w] by simp
    show "wants s' (lws_log ?w)" if "P d = Some (t # ts)" "wsi_of w d = Some s'" for d t ts s'
      unfolding log using inv_wants [OF w that] by (rule wants_more)
  qed
  moreover have "extends w P ?w P"
    unfolding extends_def wsi using log by (intro conjI exI) (assumption | simp)+
  moreover have "same_sessions w ?w"
    by (simp add: same_sessions_def)
  ultimately show ?thesis
    using that request_writeable_eq [OF inv_models [OF w] c] log by blast
qed

section \<open>Writing\<close>

text \<open>What the log shows for one writeable callback: at most one message, the oldest, and a
  new request exactly when more are waiting.\<close>

fun writeable_events :: "wsi \<Rightarrow> string list \<Rightarrow> lws_event list" where
  "writeable_events s [] = [Writeable s]"
| "writeable_events s [t] = [Writeable s, Write s t]"
| "writeable_events s (t # ts) = [Writeable s, Write s t, On_writable s]"

lemma wants_after_writeable:
  assumes "s' = s \<longrightarrow> length ts > 1" and "s' \<noteq> s \<longrightarrow> wants s' log"
  shows "wants s' (log @ writeable_events s ts)"
  using assms by (cases "(s, ts)" rule: writeable_events.cases) (auto simp: wants_def)

lemma inv_after_writeable:
  assumes w: "inv E w P" and s: "wsi_of w c = Some s" and P: "P c = Some ts"
    and m: "models E w' (P(c \<mapsto> tl ts))" and wsi: "wsi_of w' = wsi_of w"
    and log: "lws_log w' = lws_log w @ writeable_events s ts"
  shows "inv E w' (P(c \<mapsto> tl ts))"
proof (rule inv_step [OF w m _ wsi])
  show "dom (P(c \<mapsto> tl ts)) = dom P" using P by auto
  fix d u us s'
  assume d: "(P(c \<mapsto> tl ts)) d = Some (u # us)" and s': "wsi_of w d = Some s'"
  show "wants s' (lws_log w')"
    unfolding log
  proof (rule wants_after_writeable)
    show "s' = s \<longrightarrow> length ts > 1"
    proof
      assume "s' = s"
      moreover have "c \<in> dom P" "d \<in> dom P"
        using P d by (auto split: if_splits)
      ultimately have "d = c"
        using inv_wsi_inj [OF w] s s' by metis
      with d show "length ts > 1" by (cases ts) auto
    qed
    show "s' \<noteq> s \<longrightarrow> wants s' (lws_log w)"
      using d s s' inv_wants [OF w, of d] by (auto split: if_splits)
  qed
qed

lemma callback_writeable_spec:
  fixes w :: "'a pheap_scheme"
  assumes w: "inv E w P" and s: "wsi_of w c = Some s" and P: "P c = Some ts"
  shows "\<exists>w'. jrpc_protocol_callback E U (Some lp) s LWS_CALLBACK_SERVER_WRITEABLE (Some c) input
      (w\<lparr>lws_log := lws_log w @ [Writeable s]\<rparr>) = Some (0, w') \<and>
    inv E w' (P(c \<mapsto> tl ts)) \<and> lws_log w' = lws_log w @ writeable_events s ts \<and>
    wsi_of w' = wsi_of w \<and> json_refs w' = json_refs w \<and> cheap.more w' = cheap.more w \<and> oom w' = oom w"
proof -
  let ?w0 = "w\<lparr>lws_log := lws_log w @ [Writeable s]\<rparr>"
  have m0: "models E ?w0 P"
    using inv_models [OF w] by simp
  obtain conn where conn: "conns w c = Some conn" and cs: "c_wsi conn = Some s"
    using s by (auto simp: wsi_of_def Option.bind_eq_Some_conv)
  have conn0: "conns ?w0 c = Some conn" using conn by simp
  note simps = jrpc_protocol_callback_def Let_def callback_writeable_def request_writeable_def
    lws_callback_on_writable_def empty_models [OF m0 conn0 P]
  show ?thesis
  proof (cases ts)
    case Nil
    have "wsi_of ?w0 = wsi_of w" by (simp add: wsi_of_def fun_eq_iff)
    moreover have "P(c \<mapsto> tl ts) = P" using P Nil by auto
    ultimately show ?thesis
      using inv_after_writeable [OF w s P, of ?w0] m0 Nil conn by (simp add: simps)
  next
    case (Cons t us)
    with P take_models [OF m0 conn0] obtain a b q
      where deq: "jrpc_queue_dequeue (c_messages conn) ?w0 = Some (Some a, q)"
        and b: "blocks w a = Some b" and ok: "msg_ok E a b" and t: "msg_text b = Some t"
        and m: "models E (?w0\<lparr>blocks := (blocks ?w0)(a := None),
          conns := (conns ?w0)(c \<mapsto> conn\<lparr>c_messages := q\<rparr>)\<rparr>) (P(c \<mapsto> us))"
      by auto
    let ?log = "lws_log w @ writeable_events s ts"
    let ?w1 = "w\<lparr>blocks := (blocks w)(a := None), conns := (conns w)(c \<mapsto> conn\<lparr>c_messages := q\<rparr>),
      lws_log := ?log\<rparr>"
    have m1: "models E ?w1 (P(c \<mapsto> us))"
      by (rule models_frame [OF m]) (simp_all add: queues_def)
    have wsi: "wsi_of ?w1 = wsi_of w"
      using conn by (auto simp: wsi_of_def)
    have "inv E ?w1 (P(c \<mapsto> tl ts))"
      using inv_after_writeable [OF w s P, of ?w1] m1 wsi Cons by simp
    moreover have "lws_write E s (msg_data (blk_msg b)) (msg_length (blk_msg b)) x
        = Some (x\<lparr>lws_log := lws_log x @ [Write s t]\<rparr>)" if "blocks x = blocks w" for x :: "'a pheap_scheme"
      using ok t b that load_bytes_msg [of "blocks w" a b E]
      by (simp add: lws_write_def msg_ok_def)
    moreover have "jrpc_queue_is_empty q \<longleftrightarrow> us = []"
      by (rule empty_models [OF m1, of c "conn\<lparr>c_messages := q\<rparr>", simplified]) simp_all
    ultimately show ?thesis
      using deq b conn wsi Cons
      by (cases us) (simp_all add: simps record_layers)
  qed
qed

section \<open>Closing\<close>

text \<open>The library's part of \<open>LWS_CALLBACK_CLOSED\<close>: the waiting messages go, nothing is requested.\<close>

lemma close_session:
  assumes w: "inv E w P" and c: "c \<in> dom P"
  shows "\<exists>w'. jrpc_connection_cleanup (Some c) w = Some w' \<and> request_writeable s (Some c) w' = Some w' \<and>
    inv E w' (P(c \<mapsto> [])) \<and> wsi_of w' = wsi_of w \<and> lws_log w' = lws_log w \<and>
    cheap.more w' = cheap.more w \<and> json_refs w' = json_refs w \<and> oom w' = oom w \<and> clock w' = clock w"
proof -
  from w c obtain conn where conn: "conns w c = Some conn"
    by (rule inv_conn)
  from cleanup_models [OF inv_models [OF w] conn] obtain h'
    where clean: "jrpc_queue_cleanup (c_messages conn) w = Some (jrpc_queue_init, w\<lparr>blocks := h'\<rparr>)"
      and m: "models E (w\<lparr>blocks := h', conns := (conns w)(c \<mapsto> conn\<lparr>c_messages := jrpc_queue_init\<rparr>)\<rparr>)
        (P(c \<mapsto> []))"
    by blast
  let ?w = "w\<lparr>blocks := h', conns := (conns w)(c \<mapsto> conn\<lparr>c_messages := jrpc_queue_init\<rparr>)\<rparr>"
  let ?P = "P(c \<mapsto> [])"
  have wsi: "wsi_of ?w = wsi_of w"
    using conn by (auto simp: wsi_of_def)
  have "inv E ?w ?P"
  proof (rule inv_step [OF w m _ wsi])
    show "dom ?P = dom P" using c by auto
    show "wants s' (lws_log ?w)" if "?P d = Some (t # ts)" "wsi_of w d = Some s'" for d t ts s'
      using that inv_wants [OF w] by (simp split: if_splits)
  qed
  moreover have "request_writeable s (Some c) ?w = Some ?w"
    using request_writeable_eq [OF m] by simp
  moreover have "jrpc_connection_cleanup (Some c) w = Some ?w"
    using conn clean by (simp add: jrpc_connection_cleanup_def)
  ultimately show ?thesis
    using wsi by (intro exI [of _ ?w]) simp
qed

section \<open>The callback under the contract\<close>

context handlers
begin

lemma handled_internal:
  assumes "inv E w' P" and "extends w P w' P" and "protos w' = protos w"
    and "pheap.more w' = pheap.more w" and "I w C"
  shows "handled E good I C w P w' P"
  using assms I_frame configured_protos [of w' w] by (simp add: handled_def)

lemma handled_json:
  assumes "inv E w P" and "I w C" and "clock w \<le> n"
  shows "handled E good I C w P (w\<lparr>clock := n, json_refs := r\<rparr>) P"
    and "handled E good I C w P (w\<lparr>json_refs := r\<rparr>) P"
proof -
  have "wsi_of (w\<lparr>clock := n, json_refs := r\<rparr>) = wsi_of w" "wsi_of (w\<lparr>json_refs := r\<rparr>) = wsi_of w"
    by (simp_all add: wsi_of_def fun_eq_iff)
  with assms show "handled E good I C w P (w\<lparr>clock := n, json_refs := r\<rparr>) P"
    and "handled E good I C w P (w\<lparr>json_refs := r\<rparr>) P"
    by (auto intro!: handled_internal simp: extends_def intro: exI [of _ "[]"])
qed

text \<open>After the switch: the request for a writeable callback.\<close>

lemma then_request:
  assumes w: "handled E good I C w P w1 P1" and c: "c \<in> dom P"
  shows "\<exists>w'. request_writeable s (Some c) w1 = Some w' \<and> handled E good I C w P w' P1"
proof -
  have "c \<in> dom P1" using c handled_dom [OF w] by simp
  from request_writeable_spec [OF handled_inv [OF w] this] obtain w'
    where r: "request_writeable s (Some c) w1 = Some w'" "inv E w' P1" "extends w1 P1 w' P1"
      and same: "same_sessions w1 w'"
    by metis
  have "handled E good I C w1 P1 w' P1"
    using r same_sessions_protos [OF same] w by (intro handled_internal) (auto simp: handled_def)
  with w r(1) show ?thesis by (blast intro: handled_trans)
qed

lemma dispatch_spec:
  assumes w: "inv E w P" and I: "I w (dom P)" and c: "c \<in> dom P" and conf: "configured good w protocol"
  shows "\<exists>w' P'. jrpc_protocol_dispatch E U protocol (Some c) request w = Some w' \<and>
    handled E good I (dom P) w P w' P'"
proof -
  from conf obtain p where p: "deref (protos w) protocol = Some p" and good: "good p"
    by (auto simp: configured_def)
  have refl: "handled E good I (dom P) w P w P"
    using w I by (rule handled_refl)
  show ?thesis
    unfolding jrpc_protocol_dispatch_def Let_def
    using p onmethod_ok [OF good w I c] onnotify_ok [OF good w I c] refl
    by (auto split: option.split)
qed

lemma process_spec:
  assumes w: "inv E w P" and I: "I w (dom P)" and c: "c \<in> dom P" and conf: "configured good w protocol"
  shows "\<exists>w' P'. jrpc_protocol_process E U protocol (Some c) input w = Some w' \<and>
    handled E good I (dom P) w P w' P'"
proof -
  let ?r = "json_loadb E (clock w) input"
  let ?w1 = "w\<lparr>clock := Suc (clock w), json_refs := json_refs w + ref_count ?r\<rparr>"
  have 1: "handled E good I (dom P) w P ?w1 P"
    using w I by (intro handled_json) simp_all
  show ?thesis
  proof (cases ?r)
    case None
    with 1 show ?thesis
      by (auto simp: jrpc_protocol_process_def call_new_def)
  next
    case (Some r)
    have "configured good ?w1 protocol"
      using conf by (simp add: configured_def)
    with 1 c obtain w2 P2 where 2: "jrpc_protocol_dispatch E U protocol (Some c) r ?w1 = Some w2"
      "handled E good I (dom P) ?w1 P w2 P2"
      using dispatch_spec [of ?w1 P c protocol r] by (auto simp: handled_def)
    have "handled E good I (dom P) w2 P2 (json_decref ?r w2) P2"
      unfolding json_decref_def using 2(2) by (intro handled_json(2)) (auto simp: handled_def)
    with 1 2(2) have "handled E good I (dom P) w P (json_decref ?r w2) P2"
      by (blast intro: handled_trans)
    with 2(1) Some show ?thesis
      by (auto simp: jrpc_protocol_process_def call_new_def)
  qed
qed

theorem callback_receive:
  assumes w: "inv E w P" and I: "I w (dom P)" and c: "c \<in> dom P" and conf: "configured good w (lp_user lp)"
  shows "\<exists>w' P'. jrpc_protocol_callback E U (Some lp) s LWS_CALLBACK_RECEIVE (Some c) input w = Some (0, w') \<and>
    handled E good I (dom P) w P w' P'"
proof -
  from process_spec [OF assms] obtain w1 P1
    where 1: "jrpc_protocol_process E U (lp_user lp) (Some c) input w = Some w1"
      and h: "handled E good I (dom P) w P w1 P1"
    by blast
  from then_request [OF h c, of s] 1 show ?thesis
    by (auto simp: jrpc_protocol_callback_def Let_def)
qed

theorem callback_established:
  assumes w: "inv E w P" and I: "I w (dom P)" and c: "conns w c = None" and s: "\<And>d. wsi_of w d \<noteq> Some s"
    and p: "deref (protos w) (lp_user lp) = Some p" and good: "good p"
  shows "\<exists>w' P'. jrpc_protocol_callback E U (Some lp) s LWS_CALLBACK_ESTABLISHED (Some c) input
      (w\<lparr>conns := (conns w)(c \<mapsto> zero_connection)\<rparr>) = Some (0, w') \<and>
    handled E good I (insert c (dom P)) (open_session (p_server p) c s w) (P(c \<mapsto> [])) w' P'"
proof -
  let ?w = "open_session (p_server p) c s w" and ?P = "P(c \<mapsto> [])"
  have "c \<notin> dom P"
    using c models_dom [OF inv_models [OF w]] by auto
  then have C: "dom ?P - {c} = dom P" by simp
  have I': "I ?w (dom ?P - {c})"
    unfolding C using I by (rule I_frame) (simp add: open_session_def)
  from onconnected_ok [OF good inv_open_session [OF w c s] I'] obtain w1 P1
    where 1: "call_onconnected U (p_onconnected p) (Some c) ?w = Some w1"
      and h: "handled E good I (dom ?P) ?w ?P w1 P1"
    by auto
  have dom: "dom ?P = insert c (dom P)" by simp
  have "c \<in> dom ?P" by simp
  from then_request [OF h this, of s] 1 p show ?thesis
    unfolding dom by (auto simp: jrpc_protocol_callback_def Let_def connection_init_eq)
qed

theorem callback_closed:
  assumes w: "inv E w P" and I: "I w (dom P)" and c: "c \<in> dom P" and conf: "configured good w (lp_user lp)"
  shows "\<exists>w' P'. jrpc_protocol_callback E U (Some lp) s LWS_CALLBACK_CLOSED (Some c) input w = Some (0, w') \<and>
    P' c = Some [] \<and> handled E good I (dom P - {c}) w (P(c \<mapsto> [])) w' P'"
proof -
  from conf obtain p where p: "deref (protos w) (lp_user lp) = Some p" and good: "good p"
    by (auto simp: configured_def)
  from ondisconnected_ok [OF good w I c] obtain w1 P1
    where 1: "call_ondisconnected U (p_ondisconnected p) (Some c) w = Some w1"
      and h: "handled E good I (dom P - {c}) w P w1 P1"
    by blast
  have c1: "c \<in> dom P1" using c handled_dom [OF h] by simp
  from close_session [OF handled_inv [OF h] c1, of s] obtain w2
    where 2: "jrpc_connection_cleanup (Some c) w1 = Some w2" "request_writeable s (Some c) w2 = Some w2"
      and inv: "inv E w2 (P1(c \<mapsto> []))" and wsi: "wsi_of w2 = wsi_of w1" and log: "lws_log w2 = lws_log w1"
      and more: "cheap.more w2 = cheap.more w1"
    by blast
  have same: "protos w2 = protos w1" "pheap.more w2 = pheap.more w1"
    using more by (cases w1; cases w2; simp)+
  have "extends w (P(c \<mapsto> [])) w2 (P1(c \<mapsto> []))"
    using h wsi log by (auto simp: handled_def extends_def)
  moreover have "I w2 (dom P - {c})"
    using I_frame [of w1 "dom P - {c}" w2] h same(2) by (simp add: handled_def)
  ultimately have "handled E good I (dom P - {c}) w (P(c \<mapsto> [])) w2 (P1(c \<mapsto> []))"
    using inv h same(1) by (simp add: handled_def configured_def)
  with 1 2 p show ?thesis
    by (auto simp: jrpc_protocol_callback_def Let_def intro!: exI [of _ "P1(c \<mapsto> [])"])
qed

end

section \<open>The default handlers\<close>

text \<open>A protocol as \<open>jrpc_server_protocol_init\<close> leaves it: the default handlers and both
  descriptors of the wakeup socket.\<close>

definition wired :: "jrpc_protocol \<Rightarrow> bool" where
  "wired p \<longleftrightarrow> fst (p_fd p) \<noteq> None \<and> snd (p_fd p) \<noteq> None"

definition default_protocol :: "jrpc_protocol \<Rightarrow> bool" where
  "default_protocol p \<longleftrightarrow>
     p_onmethod p = Some Jrpc_default_onmethod \<and> p_onnotify p = Some Jrpc_default_onnotify \<and>
     p_onconnected p = Some Jrpc_default_onconnected \<and>
     p_ondisconnected p = Some Jrpc_default_ondisconnected \<and> wired p"

locale wired_handlers = handlers E U good I
  for E :: "('j, 'e) env_scheme" and U :: "('j, 'a pheap_scheme) user_code"
    and good :: "jrpc_protocol \<Rightarrow> bool" and I :: "'a pheap_scheme \<Rightarrow> addr set \<Rightarrow> bool" +
  assumes good_wired: "good p \<Longrightarrow> wired p"

lemma handled_library:
  assumes "inv E w' P'" and "extends w P w' P'" and "same_sessions w w'"
  shows "handled E good (\<lambda>_ _. True) C w P w' P'"
  using assms same_sessions_protos(1) [OF assms(3)] by (simp add: handled_def configured_def)

sublocale jansson \<subseteq> defaults: wired_handlers E U default_protocol "\<lambda>_ _. True"
  for U :: "('j, 'a pheap_scheme) user_code"
proof unfold_locales
  fix p P c name params i and w :: "'a pheap_scheme"
  assume p: "default_protocol p" and w: "inv E w P" and c: "c \<in> dom P"
  from respond_error_spec [OF w c] obtain w' P'
    where "jrpc_respond_error E (Some c) (- 1) ''not implemented'' i w = Some w'"
      and "sends E c (error_value E (clock w) (- 1) ''not implemented'' i) 9 0 w P w' P'"
    by blast
  with p show "\<exists>w' P'. call_onmethod E U (p_onmethod p) (Some c) name params i w = Some w' \<and>
      handled E default_protocol (\<lambda>_ _. True) (dom P) w P w' P'"
    by (auto simp: default_protocol_def jrpc_default_onmethod_def sends_def intro!: exI handled_library)
  show "\<exists>w' P'. call_onnotify U (p_onnotify p) (Some c) name params w = Some w' \<and>
      handled E default_protocol (\<lambda>_ _. True) (dom P) w P w' P'"
    and "\<exists>w' P'. call_onconnected U (p_onconnected p) (Some c) w = Some w' \<and>
      handled E default_protocol (\<lambda>_ _. True) (dom P) w P w' P'"
    and "\<exists>w' P'. call_ondisconnected U (p_ondisconnected p) (Some c) w = Some w' \<and>
      handled E default_protocol (\<lambda>_ _. True) (dom P - {c}) w P w' P'"
    using p w by (auto simp: default_protocol_def jrpc_default_onnotify_def
        jrpc_default_onconnected_def jrpc_default_ondisconnected_def intro!: exI handled_refl)
qed (simp_all add: default_protocol_def)

context jansson
begin

lemma default_handlers: "wired_handlers E U default_protocol (\<lambda>_ _. True)"
  by (rule defaults.wired_handlers_axioms)

end

end
