(* ===== verification/Jrpc_Config.thy ===== *)
theory Jrpc_Config
  imports Jrpc_Server Jrpc_Callback
begin

text \<open>
  The life of a server object: \<open>server_ok\<close> is its invariant (the strings it owns are allocated
  and pairwise distinct, the wakeup socket exists), \<open>config_of\<close> the abstract configuration that it
  implements. The setters of the four strings share one contract, the locale \<open>string_field\<close>:
  whatever the allocator does, the old string is freed, no string is leaked or freed twice, and
  the configuration changes in that one field.
\<close>

section \<open>The strings of a server\<close>

definition strs :: "jrpc_server \<Rightarrow> ptr list" where
  "strs s = [s_protocol_name s, s_document_root s, s_cert_path s, s_key_path s]"

definition distinct_ptrs :: "ptr list \<Rightarrow> bool" where
  "distinct_ptrs ps \<longleftrightarrow> distinct (filter (\<lambda>p. p \<noteq> NULL) ps)"

definition owned :: "ptr list \<Rightarrow> addr set" where
  "owned ps = {x. Some x \<in> set ps}"

text \<open>\<open>strings_ok\<close> is the invariant of the string store, \<open>server_ok\<close> that of a server.\<close>

definition strings_ok :: "'a sheap_scheme \<Rightarrow> ptr list \<Rightarrow> bool" where
  "strings_ok w ps \<longleftrightarrow>
     distinct_ptrs ps \<and> owned ps \<subseteq> dom (cstrs w) \<and> (\<forall>x \<in> dom (cstrs w). x < clock w)"

definition server_ok :: "'a sheap_scheme \<Rightarrow> addr \<Rightarrow> bool" where
  "server_ok w a \<longleftrightarrow>
     (\<exists>s p. servers w a = Some s \<and> protos w a = Some p \<and> wired p \<and> strings_ok w (strs s))"

text \<open>The abstract configuration.\<close>

record config =
  port :: c_int
  protocol_name :: "string option"
  document_root :: "string option"
  cert_path :: "string option"
  key_path :: "string option"

definition config_of :: "'a sheap_scheme \<Rightarrow> jrpc_server \<Rightarrow> config" where
  "config_of w s =
     \<lparr>port = s_port s,
      protocol_name = deref (cstrs w) (s_protocol_name s),
      document_root = deref (cstrs w) (s_document_root s),
      cert_path = deref (cstrs w) (s_cert_path s),
      key_path = deref (cstrs w) (s_key_path s)\<rparr>"

lemma distinct_ptrs_nth:
  assumes "distinct_ptrs ps" and "i < length ps" and "j < length ps" and "i \<noteq> j" and "ps ! i \<noteq> NULL"
  shows "ps ! j \<noteq> ps ! i"
  using assms
proof (induction ps arbitrary: i j)
  case (Cons p ps)
  have tl: "distinct_ptrs ps"
    using Cons.prems(1) by (simp add: distinct_ptrs_def split: if_splits)
  have hd: "p \<noteq> NULL \<Longrightarrow> p \<notin> set ps"
    using Cons.prems(1) by (simp add: distinct_ptrs_def)
  show ?case
  proof (cases i)
    case 0
    with hd Cons.prems show ?thesis
      by (cases j) (auto simp: nth_mem dest: nth_mem)
  next
    case (Suc i')
    with hd tl Cons.prems Cons.IH [of i'] show ?thesis
      by (cases j) (simp_all, metis nth_mem)
  qed
qed simp

lemma distinct_ptrs_update:
  assumes "distinct_ptrs ps" and "p = NULL \<or> p \<notin> set ps"
  shows "distinct_ptrs (ps[i := p])"
  using assms
proof (induction ps arbitrary: i)
  case (Cons q ps)
  show ?case
  proof (cases i)
    case 0
    with Cons.prems show ?thesis
      by (auto simp: distinct_ptrs_def split: if_splits)
  next
    case (Suc j)
    from Cons have "distinct_ptrs (ps[j := p])"
      by (auto simp: distinct_ptrs_def split: if_splits)
    moreover have "q \<noteq> NULL \<Longrightarrow> q \<notin> set (ps[j := p])"
      using Cons.prems set_update_subset_insert [of ps j p] by (auto simp: distinct_ptrs_def)
    ultimately show ?thesis
      using Suc by (simp add: distinct_ptrs_def)
  qed
qed (simp add: distinct_ptrs_def)

section \<open>Replacing a string\<close>

text \<open>\<open>free\<close> of the old string, \<open>strdup\<close> of the new one.\<close>

definition replace_str :: "ptr \<Rightarrow> string option \<Rightarrow> 'a sheap_scheme \<Rightarrow> (ptr \<times> 'a sheap_scheme) option" where
  "replace_str p v w = do {
     w1 \<leftarrow> free_str p w;
     strdup v w1
   }"

lemma replace_str_NULL [simp]: "replace_str p NULL w = None"
  by (simp add: replace_str_def strdup_def bind_eq_None_conv split: option.split)

text \<open>The strings of the store that the server does not own.\<close>

definition foreign :: "'a sheap_scheme \<Rightarrow> ptr list \<Rightarrow> (addr \<rightharpoonup> string)" where
  "foreign w ps = cstrs w |` (- owned ps)"

definition drop_str :: "ptr \<Rightarrow> (addr \<rightharpoonup> string) \<Rightarrow> (addr \<rightharpoonup> string)" where
  "drop_str p h = (case p of NULL \<Rightarrow> h | Some a \<Rightarrow> h(a := None))"

definition add_str :: "ptr \<Rightarrow> string \<Rightarrow> (addr \<rightharpoonup> string) \<Rightarrow> (addr \<rightharpoonup> string)" where
  "add_str p x h = (case p of NULL \<Rightarrow> h | Some a \<Rightarrow> h(a \<mapsto> x))"

lemma cstrs_clock [record_layers]: "w\<lparr>cstrs := h, clock := n\<rparr> = w\<lparr>clock := n, cstrs := h\<rparr>"
  by (cases w) simp

lemma free_str_eq: "owned [p] \<subseteq> dom (cstrs w) \<Longrightarrow> free_str p w = Some (w\<lparr>cstrs := drop_str p (cstrs w)\<rparr>)"
  by (cases p) (auto simp: free_str_def drop_str_def owned_def)

lemma strdup_eq:
  "strdup (Some x) w =
     (let p = (if oom w (clock w) then NULL else Some (clock w))
      in Some (p, w\<lparr>clock := Suc (clock w), cstrs := add_str p x (cstrs w)\<rparr>))"
  by (simp add: strdup_def malloc_def add_str_def Let_def)

lemma owned_update: "i < length ps \<Longrightarrow> owned (ps[i := q]) \<subseteq> owned [q] \<union> owned ps"
  using set_update_subset_insert [of ps i q] by (auto simp: owned_def)

lemma owned_other:
  "distinct_ptrs ps \<Longrightarrow> i < length ps \<Longrightarrow> a \<in> owned (ps[i := q]) \<Longrightarrow> a \<notin> owned [q] \<Longrightarrow> ps ! i \<noteq> Some a"
  using distinct_ptrs_nth [of ps i] by (auto simp: owned_def in_set_conv_nth nth_list_update split: if_splits)

lemma owned_rest: "i < length ps \<Longrightarrow> a \<in> owned ps \<Longrightarrow> ps ! i \<noteq> Some a \<Longrightarrow> a \<in> owned (ps[i := q])"
  by (auto simp: owned_def in_set_conv_nth nth_list_update)

lemma replace_str_spec:
  assumes ok: "strings_ok w ps" and i: "i < length ps"
  shows "\<exists>q h. replace_str (ps ! i) (Some x) w = Some (q, w\<lparr>clock := Suc (clock w), cstrs := h\<rparr>) \<and>
    strings_ok (w\<lparr>clock := Suc (clock w), cstrs := h\<rparr>) (ps[i := q]) \<and>
    foreign (w\<lparr>clock := Suc (clock w), cstrs := h\<rparr>) (ps[i := q]) = foreign w ps \<and>
    deref h q = (if oom w (clock w) then NULL else Some x) \<and>
    (\<forall>j < length ps. j \<noteq> i \<longrightarrow> deref h (ps ! j) = deref (cstrs w) (ps ! j))"
proof -
  define q where "q = (if oom w (clock w) then NULL else Some (clock w))"
  define h where "h = add_str q x (drop_str (ps ! i) (cstrs w))"
  have owned_i: "owned [ps ! i] \<subseteq> owned ps"
    using i by (auto simp: owned_def in_set_conv_nth)
  have dist: "distinct_ptrs ps" and live: "owned ps \<subseteq> dom (cstrs w)" and new: "\<And>a. a \<in> dom (cstrs w) \<Longrightarrow> a < clock w"
    using ok by (simp_all add: strings_ok_def)
  have fresh: "clock w \<notin> owned ps"
    using live new by blast
  then have q_new: "q = NULL \<or> q \<notin> set ps"
    by (auto simp: q_def owned_def)
  have run: "replace_str (ps ! i) (Some x) w = Some (q, w\<lparr>clock := Suc (clock w), cstrs := h\<rparr>)"
    using owned_i live
    by (simp add: replace_str_def free_str_eq strdup_eq record_layers q_def h_def Let_def)
  have h_at: "h a = (if q = Some a then Some x else if ps ! i = Some a then None else cstrs w a)" for a
    by (simp add: h_def add_str_def drop_str_def split: option.split)
  have "strings_ok (w\<lparr>clock := Suc (clock w), cstrs := h\<rparr>) (ps[i := q])"
    unfolding strings_ok_def
  proof (intro conjI ballI)
    show "distinct_ptrs (ps[i := q])"
      using dist q_new by (rule distinct_ptrs_update)
    show "owned (ps[i := q]) \<subseteq> dom (cstrs (w\<lparr>clock := Suc (clock w), cstrs := h\<rparr>))"
      using owned_other [OF dist i] owned_update [OF i, of q] live by (fastforce simp: h_at owned_def)
    show "a < clock (w\<lparr>clock := Suc (clock w), cstrs := h\<rparr>)"
      if "a \<in> dom (cstrs (w\<lparr>clock := Suc (clock w), cstrs := h\<rparr>))" for a
      using that new [OF domI, of a] by (auto simp: h_at q_def less_Suc_eq split: if_splits)
  qed
  moreover have "foreign (w\<lparr>clock := Suc (clock w), cstrs := h\<rparr>) (ps[i := q]) = foreign w ps"
  proof
    fix a
    have q_in: "q = Some a \<Longrightarrow> a \<in> owned (ps[i := q])"
      using i set_update_memI [of i ps q] by (simp add: owned_def)
    have cw: "q = Some a \<Longrightarrow> cstrs w a = None"
      using new [of "clock w"] by (auto simp: q_def split: if_splits)
    have "ps ! i = Some a \<Longrightarrow> a \<in> owned ps"
      using owned_i by (auto simp: owned_def)
    moreover have "a \<in> owned ps \<Longrightarrow> ps ! i \<noteq> Some a \<Longrightarrow> a \<in> owned (ps[i := q])"
      using i by (rule owned_rest)
    moreover have "a \<in> owned (ps[i := q]) \<Longrightarrow> q \<noteq> Some a \<Longrightarrow> a \<in> owned ps"
      using owned_update [OF i, of q] by (auto simp: owned_def)
    ultimately show "foreign (w\<lparr>clock := Suc (clock w), cstrs := h\<rparr>) (ps[i := q]) a = foreign w ps a"
      using q_in cw by (auto simp: foreign_def restrict_map_def h_at)
  qed
  moreover have "deref h q = (if oom w (clock w) then NULL else Some x)"
    by (auto simp: h_at q_def deref_def)
  moreover have "deref h (ps ! j) = deref (cstrs w) (ps ! j)" if "j < length ps" "j \<noteq> i" for j
  proof (cases "ps ! j")
    case (Some a)
    then have "ps ! i \<noteq> Some a"
      using distinct_ptrs_nth [OF dist that(1) i] that(2) by auto
    moreover have "q \<noteq> Some a"
      using q_new Some that(1) by (metis nth_mem option.distinct(1))
    ultimately show ?thesis
      using Some by (simp add: h_at)
  qed simp
  ultimately show ?thesis
    using run by blast
qed

section \<open>The contract of the string setters\<close>

definition contents :: "'a sheap_scheme \<Rightarrow> jrpc_server \<Rightarrow> string option list" where
  "contents w s = map (deref (cstrs w)) (strs s)"

text \<open>The server at \<open>a\<close> may change, but no other server and no string that it does not own; and what
  a configuration call leaves alone besides.\<close>

definition keeps_server :: "'a sheap_scheme \<Rightarrow> addr \<Rightarrow> 'a sheap_scheme \<Rightarrow> bool" where
  "keeps_server w a w' \<longleftrightarrow>
     server_ok w' a \<and>
     servers w' = (servers w)(a := servers w' a) \<and> protos w' = (protos w)(a := protos w' a) \<and>
     foreign w' (strs (the (servers w' a))) = foreign w (strs (the (servers w a))) \<and>
     p_fd (the (protos w' a)) = p_fd (the (protos w a))"

definition server_step :: "'a sheap_scheme \<Rightarrow> addr \<Rightarrow> 'a sheap_scheme \<Rightarrow> bool" where
  "server_step w a w' \<longleftrightarrow>
     keeps_server w a w' \<and> s_context (the (servers w' a)) = s_context (the (servers w a)) \<and>
     oom w' = oom w \<and> clock w \<le> clock w' \<and> sockets w' = sockets w \<and> next_fd w' = next_fd w \<and>
     conns w' = conns w \<and> blocks w' = blocks w \<and> lws_log w' = lws_log w \<and> json_refs w' = json_refs w \<and>
     sheap.more w' = sheap.more w"

lemma keeps_server_trans:
  assumes "keeps_server w a w'" and "keeps_server w' a w''"
  shows "keeps_server w a w''"
proof -
  have "servers w'' = (servers w)(a := servers w'' a)" "protos w'' = (protos w)(a := protos w'' a)"
    using assms unfolding keeps_server_def by (metis fun_upd_upd)+
  with assms show ?thesis
    unfolding keeps_server_def by simp
qed

lemma servers_cstrs [record_layers]: "w\<lparr>servers := x, cstrs := y\<rparr> = w\<lparr>cstrs := y, servers := x\<rparr>"
  by (cases w) simp

locale string_field =
  fixes i :: nat
    and put :: "ptr \<Rightarrow> jrpc_server \<Rightarrow> jrpc_server"
    and setter :: "ptr \<Rightarrow> string option \<Rightarrow> 'a sheap_scheme \<Rightarrow> 'a sheap_scheme option"
  assumes index: "i < 4"
    and strs_put: "strs (put q s) = (strs s)[i := q]"
    and port_put: "s_port (put q s) = s_port s"
    and context_put: "s_context (put q s) = s_context s"
    and setter_eq: "setter server v w = do {
        a \<leftarrow> server;
        s \<leftarrow> servers w a;
        (q, w') \<leftarrow> replace_str (strs s ! i) v w;
        Some (w'\<lparr>servers := (servers w')(a \<mapsto> put q s)\<rparr>)
      }"
begin

lemma set_NULL: "setter server NULL w = None"
  by (simp add: setter_eq bind_eq_None_conv)

lemma set_spec:
  assumes ok: "server_ok w a" and s: "servers w a = Some s"
  shows "\<exists>w'. setter (Some a) (Some x) w = Some w' \<and> server_step w a w' \<and> (\<exists>s'. servers w' a = Some s' \<and>
    s_port s' = s_port s \<and> s_context s' = s_context s \<and>
    contents w' s' = (contents w s)[i := if oom w (clock w) then NULL else Some x])"
proof -
  have i: "i < length (strs s)"
    using index by (simp add: strs_def)
  from ok s obtain p where p: "protos w a = Some p" "wired p" and strings: "strings_ok w (strs s)"
    by (auto simp: server_ok_def)
  from replace_str_spec [OF strings i, of x] obtain q h
    where run: "replace_str (strs s ! i) (Some x) w = Some (q, w\<lparr>clock := Suc (clock w), cstrs := h\<rparr>)"
      and 1: "strings_ok (w\<lparr>clock := Suc (clock w), cstrs := h\<rparr>) ((strs s)[i := q])"
      "foreign (w\<lparr>clock := Suc (clock w), cstrs := h\<rparr>) ((strs s)[i := q]) = foreign w (strs s)"
      and q: "deref h q = (if oom w (clock w) then NULL else Some x)"
      and others: "\<forall>j < length (strs s). j \<noteq> i \<longrightarrow> deref h (strs s ! j) = deref (cstrs w) (strs s ! j)"
    by blast
  let ?w = "w\<lparr>clock := Suc (clock w), cstrs := h, servers := (servers w)(a \<mapsto> put q s)\<rparr>"
  have call: "setter (Some a) (Some x) w = Some ?w"
    using s run by (simp add: setter_eq record_layers)
  have "contents ?w (put q s) = (contents w s)[i := if oom w (clock w) then NULL else Some x]"
  proof (rule nth_equalityI)
    show "contents ?w (put q s) ! j = (contents w s)[i := if oom w (clock w) then NULL else Some x] ! j"
      if "j < length (contents ?w (put q s))" for j
      using that others q i by (cases "j = i") (simp_all add: contents_def strs_put)
  qed (simp add: contents_def strs_put)
  moreover have "server_step w a ?w"
    using s p 1 by (simp add: fun_upd_idem server_step_def keeps_server_def server_ok_def strs_put context_put foreign_def strings_ok_def)
  ultimately show ?thesis
    using call by (auto simp: port_put context_put)
qed

end

interpretation protocolname: string_field 0 "\<lambda>q s. s\<lparr>s_protocol_name := q\<rparr>" jrpc_server_set_protocolname
  by unfold_locales (simp_all add: strs_def jrpc_server_set_protocolname_def replace_str_def)

interpretation documentroot: string_field 1 "\<lambda>q s. s\<lparr>s_document_root := q\<rparr>" jrpc_server_set_documentroot
  by unfold_locales (simp_all add: strs_def jrpc_server_set_documentroot_def replace_str_def)

interpretation certpath: string_field 2 "\<lambda>q s. s\<lparr>s_cert_path := q\<rparr>" jrpc_server_set_certpath
  by unfold_locales (simp_all add: strs_def jrpc_server_set_certpath_def replace_str_def)

interpretation keypath: string_field 3 "\<lambda>q s. s\<lparr>s_key_path := q\<rparr>" jrpc_server_set_keypath
  by unfold_locales (simp_all add: strs_def jrpc_server_set_keypath_def replace_str_def)

section \<open>The other setters\<close>

lemma set_port_spec:
  assumes "server_ok w a" and "servers w a = Some s"
  shows "\<exists>w'. jrpc_server_set_port (Some a) n w = Some w' \<and> server_step w a w' \<and>
    servers w' a = Some (s\<lparr>s_port := n\<rparr>) \<and> contents w' (s\<lparr>s_port := n\<rparr>) = contents w s \<and> protos w' = protos w"
  using assms
  by (auto simp: jrpc_server_set_port_def server_step_def keeps_server_def server_ok_def strs_def contents_def
      strings_ok_def foreign_def)

lemma protos_spec:
  assumes "server_ok w a" and "protos w a = Some p" and "p_fd p' = p_fd p"
  shows "server_step w a (w\<lparr>protos := (protos w)(a \<mapsto> p')\<rparr>)"
  using assms by (auto simp: server_step_def keeps_server_def server_ok_def strings_ok_def foreign_def wired_def)

lemma server_step_refl: "server_ok w a \<Longrightarrow> server_step w a w"
  by (simp add: server_step_def keeps_server_def)

lemma server_step_trans: "server_step w a w' \<Longrightarrow> server_step w' a w'' \<Longrightarrow> server_step w a w''"
  unfolding server_step_def by (auto intro: keeps_server_trans)

lemma server_step_ok: "server_step w a w' \<Longrightarrow> server_ok w' a"
  by (simp add: server_step_def keeps_server_def)

section \<open>A configuration script\<close>

text \<open>The calls an application makes between creating and running a server.\<close>

datatype config_op =
    Set_port c_int
  | Set_protocolname string
  | Set_documentroot string
  | Set_certpath string
  | Set_keypath string
  | Set_onmethod "invoke_fn option"
  | Set_onnotify "notify_fn option"
  | Set_onconnected "connected_fn option"
  | Set_ondisconnected "disconnected_fn option"
  | Set_userdata ptr

primrec config_call :: "config_op \<Rightarrow> ptr \<Rightarrow> 'a sheap_scheme \<Rightarrow> 'a sheap_scheme option" where
  "config_call (Set_port n) server w = jrpc_server_set_port server n w"
| "config_call (Set_protocolname x) server w = jrpc_server_set_protocolname server (Some x) w"
| "config_call (Set_documentroot x) server w = jrpc_server_set_documentroot server (Some x) w"
| "config_call (Set_certpath x) server w = jrpc_server_set_certpath server (Some x) w"
| "config_call (Set_keypath x) server w = jrpc_server_set_keypath server (Some x) w"
| "config_call (Set_onmethod f) server w = jrpc_server_set_onmethod server f w"
| "config_call (Set_onnotify f) server w = jrpc_server_set_onnotify server f w"
| "config_call (Set_onconnected f) server w = jrpc_server_set_onconnected server f w"
| "config_call (Set_ondisconnected f) server w = jrpc_server_set_ondisconnected server f w"
| "config_call (Set_userdata p) server w = jrpc_server_set_userdata server p w"

primrec configure :: "config_op list \<Rightarrow> ptr \<Rightarrow> 'a sheap_scheme \<Rightarrow> 'a sheap_scheme option" where
  "configure [] server w = Some w"
| "configure (e # es) server w = do {
     w' \<leftarrow> config_call e server w;
     configure es server w'
   }"

primrec apply_op :: "config_op \<Rightarrow> config \<Rightarrow> config" where
  "apply_op (Set_port n) k = k\<lparr>port := n\<rparr>"
| "apply_op (Set_protocolname x) k = k\<lparr>protocol_name := Some x\<rparr>"
| "apply_op (Set_documentroot x) k = k\<lparr>document_root := Some x\<rparr>"
| "apply_op (Set_certpath x) k = k\<lparr>cert_path := Some x\<rparr>"
| "apply_op (Set_keypath x) k = k\<lparr>key_path := Some x\<rparr>"
| "apply_op (Set_onmethod f) k = k"
| "apply_op (Set_onnotify f) k = k"
| "apply_op (Set_onconnected f) k = k"
| "apply_op (Set_ondisconnected f) k = k"
| "apply_op (Set_userdata p) k = k"

definition config_at :: "'a sheap_scheme \<Rightarrow> addr \<Rightarrow> config" where
  "config_at w a = config_of w (the (servers w a))"

lemma config_of_contents:
  "config_of w s = \<lparr>port = s_port s, protocol_name = contents w s ! 0, document_root = contents w s ! 1,
     cert_path = contents w s ! 2, key_path = contents w s ! 3\<rparr>"
  by (simp add: config_of_def contents_def strs_def)

lemma config_call_spec:
  assumes ok: "server_ok w a"
  shows "\<exists>w'. config_call e (Some a) w = Some w' \<and> server_step w a w' \<and>
    (no_oom w \<longrightarrow> config_at w' a = apply_op e (config_at w a))"
proof -
  from ok obtain s p where s: "servers w a = Some s" and p: "protos w a = Some p"
    by (auto simp: server_ok_def)
  have len: "length (contents w s) = 4"
    by (simp add: contents_def strs_def)
  have proto: "server_step w a (w\<lparr>protos := (protos w)(a \<mapsto> p')\<rparr>) \<and>
      config_at (w\<lparr>protos := (protos w)(a \<mapsto> p')\<rparr>) a = config_at w a" if "p_fd p' = p_fd p" for p'
    using protos_spec [OF ok p that] by (simp add: config_at_def config_of_def)
  show ?thesis
  proof (cases e)
    case (Set_port n)
    with set_port_spec [OF ok s, of n] s show ?thesis
      by (auto simp: config_at_def config_of_contents)
  next
    case (Set_protocolname x)
    with protocolname.set_spec [OF ok s, of x] s len show ?thesis
      by (auto simp: config_at_def config_of_contents no_oom_def)
  next
    case (Set_documentroot x)
    with documentroot.set_spec [OF ok s, of x] s len show ?thesis
      by (auto simp: config_at_def config_of_contents no_oom_def)
  next
    case (Set_certpath x)
    with certpath.set_spec [OF ok s, of x] s len show ?thesis
      by (auto simp: config_at_def config_of_contents no_oom_def)
  next
    case (Set_keypath x)
    with keypath.set_spec [OF ok s, of x] s len show ?thesis
      by (auto simp: config_at_def config_of_contents no_oom_def)
  qed (use p proto in \<open>auto simp: jrpc_server_set_onmethod_def jrpc_server_set_onnotify_def
      jrpc_server_set_onconnected_def jrpc_server_set_ondisconnected_def jrpc_server_set_userdata_def\<close>)
qed

lemma configure_spec:
  assumes "server_ok w a"
  shows "\<exists>w'. configure es (Some a) w = Some w' \<and> server_step w a w' \<and>
    (no_oom w \<longrightarrow> config_at w' a = fold apply_op es (config_at w a))"
  using assms
proof (induction es arbitrary: w)
  case Nil
  then show ?case by (simp add: server_step_refl)
next
  case (Cons e es)
  from config_call_spec [OF Cons.prems, of e] obtain w1
    where 1: "config_call e (Some a) w = Some w1" "server_step w a w1"
      "no_oom w \<Longrightarrow> config_at w1 a = apply_op e (config_at w a)"
    by blast
  then have "server_ok w1 a" "no_oom w1 = no_oom w"
    by (simp_all add: server_step_def keeps_server_def no_oom_def)
  with Cons.IH [of w1] 1 show ?case
    by (auto intro: server_step_trans)
qed

text \<open>What the calls do to the protocol structure.\<close>

primrec apply_proto :: "config_op \<Rightarrow> jrpc_protocol \<Rightarrow> jrpc_protocol" where
  "apply_proto (Set_port n) p = p"
| "apply_proto (Set_protocolname x) p = p"
| "apply_proto (Set_documentroot x) p = p"
| "apply_proto (Set_certpath x) p = p"
| "apply_proto (Set_keypath x) p = p"
| "apply_proto (Set_onmethod f) p = p\<lparr>p_onmethod := f\<rparr>"
| "apply_proto (Set_onnotify f) p = p\<lparr>p_onnotify := f\<rparr>"
| "apply_proto (Set_onconnected f) p = p\<lparr>p_onconnected := f\<rparr>"
| "apply_proto (Set_ondisconnected f) p = p\<lparr>p_ondisconnected := f\<rparr>"
| "apply_proto (Set_userdata u) p = p\<lparr>p_user_data := Some u\<rparr>"

lemma free_str_protos: "free_str p w = Some w' \<Longrightarrow> protos w' = protos w"
  by (auto simp: free_str_def split: option.splits if_splits)

lemma strdup_protos: "strdup x w = Some (p, w') \<Longrightarrow> protos w' = protos w"
  by (auto simp: strdup_def malloc_def Let_def Option.bind_eq_Some_conv split: option.splits if_splits)

lemma config_call_proto:
  "config_call e (Some a) w = Some w' \<Longrightarrow> protos w a = Some p \<Longrightarrow> protos w' a = Some (apply_proto e p)"
  by (cases e)
     (auto simp: jrpc_server_set_port_def jrpc_server_set_protocolname_def jrpc_server_set_documentroot_def
        jrpc_server_set_certpath_def jrpc_server_set_keypath_def jrpc_server_set_onmethod_def
        jrpc_server_set_onnotify_def jrpc_server_set_onconnected_def jrpc_server_set_ondisconnected_def
        jrpc_server_set_userdata_def Option.bind_eq_Some_conv dest!: free_str_protos strdup_protos)

lemma configure_proto:
  "configure es (Some a) w = Some w' \<Longrightarrow> protos w a = Some p \<Longrightarrow> protos w' a = Some (fold apply_proto es p)"
proof (induction es arbitrary: w p)
  case (Cons e es)
  then obtain w1 where "config_call e (Some a) w = Some w1" "configure es (Some a) w1 = Some w'"
    by (auto simp: Option.bind_eq_Some_conv)
  with Cons.IH config_call_proto [of e a w w1] Cons.prems(2) show ?case by simp
qed simp

section \<open>Creation\<close>

text \<open>A store in which the numbers of the next allocation requests and descriptors are not in use.\<close>

definition fresh_store :: "'a sheap_scheme \<Rightarrow> bool" where
  "fresh_store w \<longleftrightarrow>
     servers w (clock w) = None \<and> protos w (clock w) = None \<and> (\<forall>x \<in> dom (cstrs w). x < clock w) \<and>
     sockets w (next_fd w) = None \<and> sockets w (Suc (next_fd w)) = None"

definition default_config :: "string option \<Rightarrow> config" where
  "default_config name =
     \<lparr>port = 8080, protocol_name = name, document_root = NULL, cert_path = NULL, key_path = NULL\<rparr>"

definition created_protocol :: "addr \<Rightarrow> nat \<Rightarrow> jrpc_protocol" where
  "created_protocol a fd =
     \<lparr>p_server = Some a, p_onmethod = Some Jrpc_default_onmethod,
      p_onnotify = Some Jrpc_default_onnotify, p_onconnected = Some Jrpc_default_onconnected,
      p_ondisconnected = Some Jrpc_default_ondisconnected, p_user_data = None,
      p_fd = (Some fd, Some (Suc fd))\<rparr>"

definition created_server :: "ptr \<Rightarrow> jrpc_server" where
  "created_server name =
     \<lparr>s_ws_protocols = None, s_mount = None, s_info = None, s_context = NULL, s_protocol_name = name,
      s_document_root = NULL, s_cert_path = NULL, s_key_path = NULL, s_port = 8080\<rparr>"

lemma server_create_oom: "oom w (clock w) \<Longrightarrow> jrpc_server_create w = Some (NULL, w\<lparr>clock := Suc (clock w)\<rparr>)"
  by (simp add: jrpc_server_create_def malloc_def)

lemma server_create_eq:
  assumes "\<not> oom w (clock w)" and "\<not> oom w (Suc (clock w))"
  defines "a \<equiv> clock w" and "fd \<equiv> next_fd w"
    and "name \<equiv> (if oom w (clock w + 2) then NULL else Some (clock w + 2))"
  shows "\<exists>w'. jrpc_server_create w = Some (Some a, w') \<and>
    protos w' = (protos w)(a \<mapsto> created_protocol a fd) \<and>
    servers w' = (servers w)(a \<mapsto> created_server name) \<and>
    cstrs w' = add_str name ''jrpc'' (cstrs w) \<and>
    sockets w' = (sockets w)(fd \<mapsto> \<lparr>peer = Suc fd, inbox = []\<rparr>, Suc fd \<mapsto> \<lparr>peer = fd, inbox = []\<rparr>) \<and>
    clock w' = clock w + 3 \<and> next_fd w' = fd + 2 \<and> oom w' = oom w \<and> json_refs w' = json_refs w \<and>
    conns w' = conns w \<and> blocks w' = blocks w \<and> lws_log w' = lws_log w \<and> sheap.more w' = sheap.more w"
  using assms
  by (cases w) (simp add: jrpc_server_create_def malloc_def jrpc_server_protocol_init_def sys_socketpair_def
      strdup_eq Let_def created_protocol_def created_server_def raw_protocol_def numeral_eq_Suc)

lemma server_create_spec:
  assumes w: "fresh_store w" and "\<not> oom w (clock w)" and "\<not> oom w (Suc (clock w))"
  defines "a \<equiv> clock w"
  shows "\<exists>w' s. jrpc_server_create w = Some (Some a, w') \<and> server_ok w' a \<and> servers w' a = Some s \<and>
    protos w' a = Some (created_protocol a (next_fd w)) \<and> s_context s = NULL \<and>
    config_at w' a = default_config (if oom w (clock w + 2) then NULL else Some ''jrpc'') \<and>
    servers w' = (servers w)(a \<mapsto> s) \<and> protos w' = (protos w)(a := protos w' a) \<and>
    foreign w' (strs s) = cstrs w \<and> conns w' = conns w \<and> blocks w' = blocks w \<and>
    sockets w' = (sockets w)(next_fd w := sockets w' (next_fd w),
      Suc (next_fd w) := sockets w' (Suc (next_fd w))) \<and>
    dom (sockets w') = {next_fd w, Suc (next_fd w)} \<union> dom (sockets w) \<and> json_refs w' = json_refs w \<and>
    lws_log w' = lws_log w \<and> oom w' = oom w \<and> sheap.more w' = sheap.more w"
proof -
  let ?name = "if oom w (clock w + 2) then NULL else Some (clock w + 2)"
  from server_create_eq [OF assms(2,3)] obtain w'
    where call: "jrpc_server_create w = Some (Some a, w')"
      and protos: "protos w' = (protos w)(a \<mapsto> created_protocol a (next_fd w))"
      and servers: "servers w' = (servers w)(a \<mapsto> created_server ?name)"
      and cstrs: "cstrs w' = add_str ?name ''jrpc'' (cstrs w)"
      and sockets: "sockets w' = (sockets w)(next_fd w \<mapsto> \<lparr>peer = Suc (next_fd w), inbox = []\<rparr>,
        Suc (next_fd w) \<mapsto> \<lparr>peer = next_fd w, inbox = []\<rparr>)"
      and rest: "clock w' = clock w + 3" "oom w' = oom w" "json_refs w' = json_refs w" "lws_log w' = lws_log w" "conns w' = conns w" "blocks w' = blocks w"
        "sheap.more w' = sheap.more w"
    unfolding a_def by metis
  have old: "x < clock w" if "x \<in> dom (cstrs w)" for x
    using w that by (simp add: fresh_store_def)
  have strings: "strings_ok w' (strs (created_server ?name))"
    unfolding strings_ok_def
  proof (intro conjI ballI)
    show "x < clock w'" if "x \<in> dom (cstrs w')" for x
      using that old [OF domI, of x] by (fastforce simp: cstrs add_str_def rest(1) split: if_splits)
  qed (auto simp: strs_def created_server_def distinct_ptrs_def owned_def cstrs add_str_def)
  have "cstrs w (clock w + 2) = None"
    using old [of "clock w + 2"] by (metis domIff not_add_less1)
  then have "foreign w' (strs (created_server ?name)) = cstrs w"
    by (auto simp: foreign_def strs_def created_server_def owned_def cstrs add_str_def restrict_map_def fun_eq_iff)
  moreover have "server_ok w' a"
    using strings by (simp add: server_ok_def protos servers wired_def created_protocol_def)
  moreover have "config_at w' a = default_config (if oom w (clock w + 2) then NULL else Some ''jrpc'')"
    by (simp add: config_at_def config_of_def servers created_server_def default_config_def cstrs add_str_def)
  ultimately show ?thesis
    using call rest by (auto simp add: servers protos sockets created_server_def)
qed

section \<open>Disposal\<close>

primrec free_strs :: "ptr list \<Rightarrow> 'a sheap_scheme \<Rightarrow> 'a sheap_scheme option" where
  "free_strs [] w = Some w"
| "free_strs (p # ps) w = do {
     w' \<leftarrow> free_str p w;
     free_strs ps w'
   }"

lemma free_strs_spec:
  "distinct_ptrs ps \<Longrightarrow> owned ps \<subseteq> dom (cstrs w) \<Longrightarrow>
   free_strs ps w = Some (w\<lparr>cstrs := cstrs w |` (- owned ps)\<rparr>)"
proof (induction ps arbitrary: w)
  case Nil
  then show ?case by (simp add: owned_def)
next
  case (Cons p ps)
  have p: "owned [p] \<subseteq> dom (cstrs w)" and ps: "distinct_ptrs ps" and live: "owned ps \<subseteq> dom (cstrs w)"
    using Cons.prems by (auto simp: owned_def distinct_ptrs_def split: if_splits)
  have "owned ps \<subseteq> dom (drop_str p (cstrs w))"
    using Cons.prems live by (auto simp: owned_def distinct_ptrs_def drop_str_def split: option.split if_splits)
  moreover have "drop_str p (cstrs w) |` (- owned ps) = cstrs w |` (- owned (p # ps))"
    by (auto simp: drop_str_def owned_def restrict_map_def split: option.split)
  ultimately show ?case
    using Cons.IH [OF ps, of "w\<lparr>cstrs := drop_str p (cstrs w)\<rparr>"] p by (simp add: free_str_eq)
qed

lemma server_dispose_spec:
  assumes ok: "server_ok w1 a" and s: "servers w a = Some s"
    and destroy: "case s_context s of NULL \<Rightarrow> w1 = w | Some ctx \<Rightarrow> lws_context_destroy L ctx w = Some w1"
  shows "\<exists>s1 fd0 fd1. servers w1 a = Some s1 \<and> p_fd (the (protos w1 a)) = (Some fd0, Some fd1) \<and>
    jrpc_server_dispose L (Some a) w = Some (w1\<lparr>sockets := (sockets w1)(fd0 := None, fd1 := None),
      cstrs := foreign w1 (strs s1), protos := (protos w1)(a := None), servers := (servers w1)(a := None)\<rparr>)"
proof -
  from ok obtain s1 p fd0 fd1 where s1: "servers w1 a = Some s1" and p: "protos w1 a = Some p"
    and fd: "p_fd p = (Some fd0, Some fd1)" and strings: "strings_ok w1 (strs s1)"
    by (auto simp: server_ok_def wired_def) (metis option.exhaust prod.collapse)
  let ?w2 = "w1\<lparr>sockets := (sockets w1)(fd0 := None, fd1 := None)\<rparr>"
  have "free_strs (strs s1) ?w2 = Some (?w2\<lparr>cstrs := cstrs ?w2 |` (- owned (strs s1))\<rparr>)"
    using strings by (intro free_strs_spec) (simp_all add: strings_ok_def)
  then have frees: "free_str (s_protocol_name s1) ?w2 \<bind> (\<lambda>w. free_str (s_document_root s1) w \<bind>
      (\<lambda>w. free_str (s_cert_path s1) w \<bind> free_str (s_key_path s1)))
      = Some (?w2\<lparr>cstrs := foreign w1 (strs s1)\<rparr>)"
    by (simp add: strs_def foreign_def)
  then obtain w3 w4 w5 where free: "free_str (s_protocol_name s1) ?w2 = Some w3"
    "free_str (s_document_root s1) w3 = Some w4" "free_str (s_cert_path s1) w4 = Some w5"
    "free_str (s_key_path s1) w5 = Some (?w2\<lparr>cstrs := foreign w1 (strs s1)\<rparr>)"
    by (auto simp: Option.bind_eq_Some_conv)
  have ctx: "(case s_context s of NULL \<Rightarrow> Some w | Some ctx \<Rightarrow> lws_context_destroy L ctx w) = Some w1"
    using destroy by (simp split: option.splits)
  have clean: "jrpc_protocol_cleanup (Some a) w1 = Some ?w2"
    using p fd by (simp add: jrpc_protocol_cleanup_def sys_close_def)
  show ?thesis
    using s s1 p fd ctx clean free
    by (simp add: jrpc_server_dispose_def)
qed

section \<open>A whole life\<close>

text \<open>Disposing of a server that was created in the store \<open>w\<close>, whatever happened in between.\<close>

lemma created_dispose:
  assumes w: "fresh_store w" and "\<not> oom w (clock w)" and "\<not> oom w (Suc (clock w))"
    and create: "jrpc_server_create w = Some (Some a, w1)" and keeps: "keeps_server w1 a w2"
    and s: "servers x a = Some s"
    and destroy: "case s_context s of NULL \<Rightarrow> w2 = x | Some ctx \<Rightarrow> lws_context_destroy L ctx x = Some w2"
  shows "\<exists>w3. jrpc_server_dispose L (Some a) x = Some w3 \<and> servers w3 = servers w \<and> protos w3 = protos w \<and>
    cstrs w3 = cstrs w \<and> sockets w3 = (sockets w2)(next_fd w := None, Suc (next_fd w) := None) \<and>
    conns w3 = conns w2 \<and> blocks w3 = blocks w2 \<and> lws_log w3 = lws_log w2 \<and> json_refs w3 = json_refs w2 \<and>
    sheap.more w3 = sheap.more w2"
proof -
  let ?fd = "next_fd w"
  from server_create_spec [OF assms(1-3)] create obtain s1
    where a: "a = clock w" and s1: "servers w1 a = Some s1" and p1: "protos w1 a = Some (created_protocol a ?fd)"
      and servers1: "servers w1 = (servers w)(a \<mapsto> s1)" and protos1: "protos w1 = (protos w)(a := protos w1 a)"
      and foreign1: "foreign w1 (strs s1) = cstrs w"
    by auto
  from keeps have ok2: "server_ok w2 a" by (simp add: keeps_server_def)
  then obtain s2 where s2: "servers w2 a = Some s2" by (auto simp: server_ok_def)
  have foreign2: "foreign w2 (strs s2) = cstrs w" and fd2: "p_fd (the (protos w2 a)) = (Some ?fd, Some (Suc ?fd))"
    using keeps s1 s2 foreign1 p1 by (simp_all add: keeps_server_def created_protocol_def)
  have servers2: "servers w2 = (servers w1)(a := servers w2 a)" and protos2: "protos w2 = (protos w1)(a := protos w2 a)"
    using keeps unfolding keeps_server_def by blast+
  from server_dispose_spec [OF ok2 s destroy] s2 fd2 obtain w3
    where dispose: "jrpc_server_dispose L (Some a) x = Some w3"
      and w3: "w3 = w2\<lparr>sockets := (sockets w2)(?fd := None, Suc ?fd := None), cstrs := foreign w2 (strs s2),
        protos := (protos w2)(a := None), servers := (servers w2)(a := None)\<rparr>"
    by auto
  have "(servers w2)(a := None) = servers w"
    using w by (subst servers2) (simp add: servers1 a fresh_store_def fun_upd_idem)
  moreover have "(protos w2)(a := None) = protos w"
    using w by (subst protos2, subst protos1) (simp add: a fresh_store_def fun_upd_idem)
  moreover have "sheap.more w3 = sheap.more w2"
    unfolding w3 by (cases w2) simp
  ultimately show ?thesis
    using dispose w3 foreign2 by simp
qed

lemma life_spec:
  assumes w: "fresh_store w" and "\<not> oom w (clock w)" and "\<not> oom w (Suc (clock w))"
  shows "\<exists>a w1 w2 w3. jrpc_server_create w = Some (Some a, w1) \<and> configure es (Some a) w1 = Some w2 \<and>
    jrpc_server_dispose L (Some a) w2 = Some w3 \<and> servers w3 = servers w \<and> protos w3 = protos w \<and>
    cstrs w3 = cstrs w \<and> sockets w3 = sockets w \<and> conns w3 = conns w \<and> blocks w3 = blocks w"
proof -
  let ?a = "clock w" and ?fd = "next_fd w"
  from server_create_spec [OF assms] obtain w1 s1
    where create: "jrpc_server_create w = Some (Some ?a, w1)" and ok1: "server_ok w1 ?a"
      and s1: "servers w1 ?a = Some s1" and ctx: "s_context s1 = NULL"
      and rest1: "conns w1 = conns w" "blocks w1 = blocks w"
      and sockets1: "sockets w1 = (sockets w)(?fd := sockets w1 ?fd, Suc ?fd := sockets w1 (Suc ?fd))"
    by blast
  from configure_spec [OF ok1, of es] obtain w2
    where conf: "configure es (Some ?a) w1 = Some w2" and step: "server_step w1 ?a w2"
    by blast
  from server_step_ok [OF step] obtain s2 where s2: "servers w2 ?a = Some s2" by (auto simp: server_ok_def)
  have ctx2: "s_context s2 = NULL" and keeps: "keeps_server w1 ?a w2"
    and rest2: "sockets w2 = sockets w1" "conns w2 = conns w1" "blocks w2 = blocks w1"
    using step s1 s2 ctx by (simp_all add: server_step_def)
  have "(sockets w2)(?fd := None, Suc ?fd := None) = sockets w"
    using w unfolding rest2 by (subst sockets1) (auto simp: fresh_store_def fun_eq_iff)
  with created_dispose [OF assms create keeps s2, of L] create conf ctx2 rest1 rest2 show ?thesis
    by fastforce
qed

section \<open>Properties\<close>

text \<open>An instance of the functions of libwebsockets for the examples: a context is created at the
  next address, unless the allocation fails.\<close>

definition example_api :: "sheap lws_api" where
  "example_api = \<lparr>lws_create_context = (\<lambda>a w. Some (malloc w)), lws_service = (\<lambda>ctx t w. Some w),
     lws_context_destroy = (\<lambda>ctx w. Some w)\<rparr>"

definition example_heap :: "nat set \<Rightarrow> sheap" where
  "example_heap bad = \<lparr>clock = 0, oom = (\<lambda>i. i \<in> bad), json_refs = 0, blocks = Map.empty, lws_log = [],
     conns = Map.empty, protos = Map.empty, sockets = Map.empty, next_fd = 3,
     servers = Map.empty, cstrs = Map.empty\<rparr>"

lemma example_heap_simps [simp]:
  "clock (example_heap bad) = 0" "oom (example_heap bad) = (\<lambda>i. i \<in> bad)" "fresh_store (example_heap bad)"
  "servers (example_heap bad) = Map.empty" "cstrs (example_heap bad) = Map.empty"
  "protos (example_heap bad) = Map.empty" "sockets (example_heap bad) = Map.empty"
  "conns (example_heap bad) = Map.empty" "blocks (example_heap bad) = Map.empty"
  by (simp_all add: example_heap_def fresh_store_def)

text \<open>C23. Creating, configuring and disposing of a server leaks nothing and frees nothing twice:
  for every sequence of calls of the setters, and although each copy of a string may fail for
  lack of memory, all calls return, and after \<open>jrpc_server_dispose\<close> the stores of servers,
  strings and sockets are what they were before \<open>jrpc_server_create\<close>.\<close>

theorem server_life_restores:
  assumes "fresh_store w" and "\<not> oom w (clock w)" and "\<not> oom w (Suc (clock w))"
  shows "\<exists>a w1 w2 w3. jrpc_server_create w = Some (Some a, w1) \<and> configure es (Some a) w1 = Some w2 \<and>
    jrpc_server_dispose L (Some a) w2 = Some w3 \<and> servers w3 = servers w \<and> protos w3 = protos w \<and>
    cstrs w3 = cstrs w \<and> sockets w3 = sockets w \<and> conns w3 = conns w \<and> blocks w3 = blocks w"
  using assms by (rule life_spec)

theorem server_life_restores_witness:
  "\<exists>a w1 w2 w3. jrpc_server_create (example_heap {3}) = Some (Some a, w1) \<and>
    configure [Set_documentroot ''www'', Set_documentroot ''html'', Set_port 80] (Some a) w1 = Some w2 \<and>
    jrpc_server_dispose example_api (Some a) w2 = Some w3 \<and> servers w3 = Map.empty \<and> cstrs w3 = Map.empty \<and>
    sockets w3 = Map.empty"
proof -
  have "\<not> oom (example_heap {3}) (clock (example_heap {3}))" "\<not> oom (example_heap {3}) (Suc (clock (example_heap {3})))"
    by simp_all
  from server_life_restores [OF example_heap_simps(3) this,
      of "[Set_documentroot ''www'', Set_documentroot ''html'', Set_port 80]" example_api]
  show ?thesis by (simp del: configure.simps) blast
qed

text \<open>C37. The configuration of a server is a record of five values: when no allocation fails,
  any sequence of setter calls changes the server's strings and port exactly as it changes that
  record, where a later call for the same value overrides an earlier one and the handlers and
  the user data do not matter.\<close>

theorem configure_refines:
  assumes "server_ok w a" and "no_oom w"
  shows "\<exists>w'. configure es (Some a) w = Some w' \<and> server_ok w' a \<and>
    config_at w' a = fold apply_op es (config_at w a)"
  using configure_spec [OF assms(1), of es] assms(2) by (auto intro: server_step_ok)

text \<open>\<open>jrpc_server_create\<close> gives a server with the documented defaults: port 8080, protocol name
  \<open>jrpc\<close>, no document root, no certificate and no key, the default handlers, and both ends of
  the wakeup socket open and connected with each other.\<close>

theorem server_create_defaults:
  assumes "fresh_store w" and "no_oom w"
  shows "\<exists>a w' p x y. jrpc_server_create w = Some (Some a, w') \<and> server_ok w' a \<and>
    config_at w' a = \<lparr>port = 8080, protocol_name = Some ''jrpc'', document_root = NULL, cert_path = NULL, key_path = NULL\<rparr> \<and>
    protos w' a = Some p \<and> default_protocol p \<and> p_server p = Some a \<and> p_fd p = (Some x, Some y) \<and>
    sockets w' x = Some \<lparr>peer = y, inbox = []\<rparr> \<and> sockets w' y = Some \<lparr>peer = x, inbox = []\<rparr>"
proof -
  have oom: "\<not> oom w n" for n using assms(2) by (simp add: no_oom_def)
  from server_create_spec [OF assms(1) oom oom] obtain w'
    where create: "jrpc_server_create w = Some (Some (clock w), w')" and ok: "server_ok w' (clock w)"
      and p: "protos w' (clock w) = Some (created_protocol (clock w) (next_fd w))"
      and config: "config_at w' (clock w) = default_config (Some ''jrpc'')"
    using oom by auto
  from server_create_eq [OF oom oom] create
  have sockets: "sockets w' = (sockets w)(next_fd w \<mapsto> \<lparr>peer = Suc (next_fd w), inbox = []\<rparr>,
      Suc (next_fd w) \<mapsto> \<lparr>peer = next_fd w, inbox = []\<rparr>)"
    by auto
  show ?thesis
    using create ok p config sockets
    by (auto simp: default_config_def created_protocol_def default_protocol_def wired_def)
qed

theorem server_create_defaults_witness:
  "\<exists>a w' p. jrpc_server_create (example_heap {}) = Some (Some a, w') \<and> server_ok w' a \<and>
    port (config_at w' a) = 8080 \<and> protos w' a = Some p \<and> default_protocol p"
  using server_create_defaults [OF example_heap_simps(3), of "{}"] by (fastforce simp: no_oom_def)

theorem configure_refines_witness:
  "\<exists>a w w'. jrpc_server_create (example_heap {}) = Some (Some a, w) \<and>
    configure [Set_documentroot ''www'', Set_port 80, Set_documentroot ''html''] (Some a) w = Some w' \<and>
    document_root (config_at w' a) = Some ''html'' \<and> port (config_at w' a) = 80"
proof -
  have oom: "\<not> oom (example_heap {}) n" for n by simp
  from server_create_spec [OF example_heap_simps(3) oom oom] obtain w
    where create: "jrpc_server_create (example_heap {}) = Some (Some 0, w)" and ok: "server_ok w 0"
      and "oom w = oom (example_heap {})"
    by auto
  then have "no_oom w" by (simp add: no_oom_def)
  from configure_refines [OF ok this, of "[Set_documentroot ''www'', Set_port 80, Set_documentroot ''html'']"] create
  show ?thesis by fastforce
qed



text \<open>C40. The result of \<open>socketpair\<close> is not checked: when it fails, \<open>jrpc_server_create\<close> still
  returns a server, whose descriptors are indeterminate, so that waking that server up or disposing
  of it has no defined result.\<close>

theorem socketpair_failure_undetected:
  assumes "\<not> oom w (clock w)" and "oom w (Suc (clock w))"
  shows "\<exists>a w'. jrpc_server_create w = Some (Some a, w') \<and>
    jrpc_server_wakeup (Some a) w' = None \<and> jrpc_server_dispose L (Some a) w' = None"
  using assms
  by (auto simp: jrpc_server_create_def malloc_def jrpc_server_protocol_init_def sys_socketpair_def
      strdup_eq Let_def raw_protocol_def jrpc_server_wakeup_def jrpc_protocol_wakeup_def
      jrpc_server_dispose_def jrpc_protocol_cleanup_def)

theorem socketpair_failure_undetected_witness:
  "\<exists>a w'. jrpc_server_create (example_heap {1}) = Some (Some a, w') \<and>
    jrpc_server_wakeup (Some a) w' = None \<and> jrpc_server_dispose example_api (Some a) w' = None"
  by (rule socketpair_failure_undetected) simp_all

end
