(* ===== verification/Jrpc_Incoming.thy ===== *)
theory Jrpc_Incoming
  imports Jrpc_Callback
begin

text \<open>
  Properties of \<open>lib/jrpc/protocol.c\<close>, from the bytes that arrive to the calls of the handlers and
  the bytes that leave: what is dropped, what is answered and with what, how the width of \<open>id\<close>
  shows, what one callback does to a connection, and the wakeup socket.
\<close>

section \<open>What is dispatched\<close>

text \<open>What \<open>jrpc_protocol_process\<close> accepts: a string \<open>method\<close> and \<open>params\<close> that are an array or an
  object. With an integer \<open>id\<close> it is a request, otherwise a notification.\<close>

definition rpc_call :: "('j, 'e) env_scheme \<Rightarrow> 'j \<Rightarrow> string \<Rightarrow> 'j \<Rightarrow> bool" where
  "rpc_call E r name params \<longleftrightarrow>
     string_member E r ''method'' name \<and> json_object_get E r ''params'' = Some params \<and>
     (json_is_array E params \<or> json_is_object E params)"

definition rpc_id :: "('j, 'e) env_scheme \<Rightarrow> 'j \<Rightarrow> c_int option" where
  "rpc_id E r =
     (case json_object_get E r ''id'' of
        NULL \<Rightarrow> None
      | Some k \<Rightarrow> if json_is_integer E k then Some (json_to_int (json_integer_value E k)) else None)"

lemma dispatch_call:
  assumes "rpc_call E r name params" and "deref (protos w) protocol = Some p"
  shows "jrpc_protocol_dispatch E U protocol connection r w =
    (case rpc_id E r of
       None \<Rightarrow> call_onnotify U (p_onnotify p) connection name params w
     | Some i \<Rightarrow> call_onmethod E U (p_onmethod p) connection name params i w)"
  using assms
  by (auto simp: rpc_call_def string_member_def rpc_id_def jrpc_protocol_dispatch_def Let_def
      split: option.split)

lemma dispatch_no_call:
  "(\<And>name params. \<not> rpc_call E r name params) \<Longrightarrow> jrpc_protocol_dispatch E U protocol connection r w = Some w"
  by (auto simp: rpc_call_def string_member_def jrpc_protocol_dispatch_def split: option.split)

lemma process_call:
  assumes "json_loadb E (clock w) input = Some r" and "rpc_call E r name params"
    and "deref (protos w) protocol = Some p"
  shows "jrpc_protocol_process E U protocol connection input w =
    map_option (\<lambda>w'. w'\<lparr>json_refs := json_refs w' - 1\<rparr>)
      (case rpc_id E r of
         None \<Rightarrow> call_onnotify U (p_onnotify p) connection name params
                   (w\<lparr>clock := Suc (clock w), json_refs := json_refs w + 1\<rparr>)
       | Some i \<Rightarrow> call_onmethod E U (p_onmethod p) connection name params i
                   (w\<lparr>clock := Suc (clock w), json_refs := json_refs w + 1\<rparr>))"
proof -
  have "deref (protos (w\<lparr>clock := Suc (clock w), json_refs := json_refs w + 1\<rparr>)) protocol = Some p"
    using assms(3) by simp
  from dispatch_call [OF assms(2) this, of U connection] assms(1) show ?thesis
    by (simp add: jrpc_protocol_process_def call_new_def Let_def json_decref_def map_conv_bind_option
        o_def split: option.split)
qed

text \<open>A state with two sessions and, at address 0, a protocol with the default handlers.\<close>

definition two_clients :: "nat set \<Rightarrow> pheap" where
  "two_clients bad = open_session (Some 0) 1 6 (open_session (Some 0) 0 5
     \<lparr>clock = 2, oom = (\<lambda>i. i \<in> bad), json_refs = 0, blocks = Map.empty, lws_log = [],
      conns = Map.empty,
      protos = [0 \<mapsto> \<lparr>p_server = Some 0, p_onmethod = Some Jrpc_default_onmethod,
          p_onnotify = Some Jrpc_default_onnotify, p_onconnected = Some Jrpc_default_onconnected,
          p_ondisconnected = Some Jrpc_default_ondisconnected, p_user_data = None,
          p_fd = (Some 3, Some 4)\<rparr>],
      sockets = [3 \<mapsto> \<lparr>peer = 4, inbox = []\<rparr>, 4 \<mapsto> \<lparr>peer = 3, inbox = []\<rparr>], next_fd = 5\<rparr>)"

lemma two_clients_simps [simp]:
  "clock (two_clients bad) = 2" "oom (two_clients bad) = (\<lambda>i. i \<in> bad)" "json_refs (two_clients bad) = 0"
  "lws_log (two_clients bad) = []" "wsi_of (two_clients bad) = [0 \<mapsto> 5, 1 \<mapsto> 6]"
  by (simp_all add: two_clients_def open_session_wsi) (simp_all add: open_session_def wsi_of_def fun_eq_iff)

lemma two_clients_proto:
  "\<exists>p. protos (two_clients bad) 0 = Some p \<and> default_protocol p \<and> p_fd p = (Some 3, Some 4) \<and> p_server p = Some 0"
  by (simp add: two_clients_def open_session_def default_protocol_def wired_def)

lemma two_clients_configured: "configured default_protocol (two_clients bad) (Some 0)"
  using two_clients_proto [of bad] by (auto simp: configured_def)

lemma inv_two_clients: "inv E (two_clients bad) [0 \<mapsto> [], 1 \<mapsto> []]"
  unfolding two_clients_def
  by (intro inv_open_session inv_empty) (simp_all add: open_session_def wsi_of_def split: if_splits)

text \<open>User code that does nothing, for the examples.\<close>

definition idle_user :: "('j, 'w) user_code" where
  "idle_user = \<lparr>user_onmethod = (\<lambda>n c name params i. Some), user_onnotify = (\<lambda>n c name params. Some),
     user_onconnected = (\<lambda>n c. Some), user_ondisconnected = (\<lambda>n c. Some)\<rparr>"

text \<open>The protocol as libwebsockets passes it to the callback.\<close>

definition example_lws :: lws_protocols where
  "example_lws = \<lparr>lp_name = Some (Literal ''jrpc''), lp_callback = Some Jrpc_protocol_callback,
     lp_per_session_data_size = sizeof_jrpc_connection, lp_user = Some 0\<rparr>"

lemma process_drops_all:
  assumes "\<forall>r. json_loadb E (clock w) input = Some r \<longrightarrow> (\<forall>name params. \<not> rpc_call E r name params)"
  shows "jrpc_protocol_process E U protocol connection input w = Some (w\<lparr>clock := Suc (clock w)\<rparr>)"
  using assms
  by (cases "json_loadb E (clock w) input")
     (simp_all add: jrpc_protocol_process_def call_new_def Let_def dispatch_no_call json_decref_def)

text \<open>A message that is not a JSON text, or is one without a string \<open>method\<close> or without
  \<open>params\<close> that are an array or an object, is dropped: no handler is called (whatever the handlers
  are), nothing is sent, no state but the allocation counter changes, and no reference to a JSON
  value is lost.\<close>

theorem process_drops_invalid:
  assumes "\<forall>r. json_loadb E (clock w) input = Some r \<longrightarrow> (\<forall>name params. \<not> rpc_call E r name params)"
  shows "jrpc_protocol_process E U protocol connection input w = Some (w\<lparr>clock := Suc (clock w)\<rparr>)"
  using assms by (rule process_drops_all)

theorem process_drops_invalid_witness:
  "jrpc_protocol_process ref_env idle_user (Some 0) (Some 0) ''[1]'' (two_clients {}) = Some ((two_clients {})\<lparr>clock := 3\<rparr>)"
proof -
  have "json_object_get ref_env r k = None" if "json_loadb ref_env 2 ''[1]'' = Some r" for r k
    using that by (auto simp: ref_env_def ref_loadb_def parse_int_def parse_nat_def is_digit_def
        is_container_def ref_get_def eval_nat_numeral split: if_splits)
  then show ?thesis
    using process_drops_invalid [of ref_env "two_clients {}" "''[1]''" idle_user "Some 0" "Some 0"]
    by (simp add: rpc_call_def string_member_def)
qed

text \<open>C9. The default \<open>onmethod\<close> handler, from the bytes received to the bytes sent: a request
  is answered with exactly one message, to the connection that it came from: an error response
  with code -1, the message "not implemented" and the request's \<open>id\<close> as an \<open>int\<close>. All references
  to JSON values taken on the way are given back.\<close>

theorem default_request_answered:
  assumes E: "jansson_total E" and w: "inv E w P" and P: "P c = Some ts" and no_oom: "no_oom w"
    and load: "json_loadb E (clock w) input = Some r" and call: "rpc_call E r name params"
    and id: "rpc_id E r = Some i" and p: "deref (protos w) protocol = Some p" and dflt: "default_protocol p"
    and utf8: "json_string E (clock w + 4) ''not implemented'' \<noteq> NULL"
  shows "\<exists>w' v. jrpc_protocol_process E U protocol (Some c) input w = Some w' \<and>
    is_error E (-1) ''not implemented'' i v \<and> inv E w' (P(c \<mapsto> ts @ [json_text E (Some v)])) \<and>
    json_refs w' = json_refs w"
proof -
  let ?w1 = "w\<lparr>clock := Suc (clock w), json_refs := json_refs w + 1\<rparr>"
  have 1: "inv E ?w1 P" using w by simp
  have 2: "\<not> oom ?w1 (clock ?w1 + 9)" using no_oom by (simp add: no_oom_def)
  have 3: "json_string E (clock ?w1 + 3) ''not implemented'' \<noteq> NULL"
    using utf8 by (simp add: numeral_eq_Suc)
  from respond_error_posts [OF E 1 P 2 3, of "-1" i] obtain w2 v
    where r: "jrpc_respond_error E (Some c) (-1) ''not implemented'' i ?w1 = Some w2"
      and v: "is_error E (-1) ''not implemented'' i v"
      and inv: "inv E w2 (P(c \<mapsto> ts @ [json_text E (Some v)]))" and refs: "json_refs w2 = json_refs ?w1"
    by blast
  have "jrpc_protocol_process E U protocol (Some c) input w = Some (w2\<lparr>json_refs := json_refs w2 - 1\<rparr>)"
    using process_call [OF load call p, of U "Some c"] r dflt id
    by (simp add: default_protocol_def jrpc_default_onmethod_def)
  with v inv refs show ?thesis by auto
qed

text \<open>C10. Notifications travel from \<open>jrpc_notify\<close> to the peer's handler: the text that \<open>jrpc_notify\<close>
  posts makes \<open>jrpc_protocol_process\<close>, on a receiver in any state, call its \<open>onnotify\<close> handler
  once, with the same method name and the same parameters, and nothing else.\<close>

theorem notify_reaches_handler:
  fixes w' :: "'b pheap_scheme" and w :: "'a cheap_scheme"
  assumes E: "jansson_total E" and w: "inv E w P" and P: "P c = Some ts" and oom: "\<not> oom w (clock w + 4)"
    and utf8: "json_string E (clock w + 1) name \<noteq> NULL"
    and params: "json_is_array E x \<or> json_is_object E x"
    and dump: "fst (json_dumpb E (notify_value E (clock w) name (Some x)) 0) \<noteq> 0"
    and p: "deref (protos w') protocol = Some p"
  shows "\<exists>w1 t. jrpc_notify E (Some c) name (Some x) w = Some w1 \<and> inv E w1 (P(c \<mapsto> ts @ [t])) \<and>
    jrpc_protocol_process E U protocol connection t w' =
      map_option (\<lambda>w2. w2\<lparr>json_refs := json_refs w2 - 1\<rparr>)
        (call_onnotify U (p_onnotify p) connection name x
          (w'\<lparr>clock := Suc (clock w'), json_refs := json_refs w' + 1\<rparr>))"
proof -
  from notify_posts [OF E w P oom utf8, of "Some x"] obtain w1 v
    where call: "jrpc_notify E (Some c) name (Some x) w = Some w1"
      and eq: "notify_value E (clock w) name (Some x) = Some v"
      and v: "is_notification E name (Some x) v" and inv: "inv E w1 (P(c \<mapsto> ts @ [json_text E (Some v)]))"
    by blast
  from v have load: "json_loadb E (clock w') (json_text E (Some v)) = Some v"
    using jansson_total.text_reads_back [OF E] dump unfolding eq by (simp add: is_notification_def)
  have rpc: "rpc_call E v name x"
    using v params by (simp add: rpc_call_def is_notification_def)
  have "rpc_id E v = None"
    using v by (simp add: rpc_id_def is_notification_def)
  with call inv process_call [OF load rpc p, of U connection] show ?thesis
    by (auto intro!: exI [of _ "json_text E (Some v)"])
qed

definition example_request :: json where
  "example_request = JObject [(''method'', JString ''add''), (''params'', JArray [JInt 1]), (''id'', JInt 7)]"

lemma example_request_text: "print_json example_request = ''{\"method\":\"add\",\"params\":[1],\"id\":7}''"
  by code_simp

lemma example_request_load: "json_loadb ref_env t ''{\"method\":\"add\",\"params\":[1],\"id\":7}'' = Some example_request"
  using ref_load_print [of example_request]
  by (simp add: ref_env_def flip: example_request_text) (simp add: example_request_def is_container_def)

theorem default_request_answered_witness:
  "\<exists>w' v. jrpc_protocol_process ref_env idle_user (Some 0) (Some 1) ''{\"method\":\"add\",\"params\":[1],\"id\":7}'' (two_clients {}) = Some w' \<and>
     is_error ref_env (-1) ''not implemented'' 7 v \<and>
     inv ref_env w' [0 \<mapsto> [], 1 \<mapsto> [json_text ref_env (Some v)]] \<and> json_refs w' = 0"
proof -
  have P: "([0 \<mapsto> [], 1 \<mapsto> []] :: mailbox) 1 = Some []" by simp
  have call: "rpc_call ref_env example_request ''add'' (JArray [JInt 1])"
    by (simp add: rpc_call_def string_member_def example_request_def ref_env_def ref_get_def)
  have id: "rpc_id ref_env example_request = Some 7"
    by (simp add: rpc_id_def example_request_def ref_env_def ref_get_def json_to_int_def)
  obtain p where p: "deref (protos (two_clients {})) (Some 0) = Some p" "default_protocol p"
    using two_clients_proto [of "{}"] by auto
  have "no_oom (two_clients {})"
    by (simp add: no_oom_def)
  moreover have "json_string ref_env (clock (two_clients {}) + 4) ''not implemented'' \<noteq> NULL"
    by (simp add: ref_env_def)
  ultimately show ?thesis
    using default_request_answered [OF ref.jansson_total_axioms inv_two_clients P _ example_request_load call id p]
    by fastforce
qed

theorem notify_reaches_handler_witness:
  "\<exists>w1 t. jrpc_notify ref_env (Some 1) ''joined'' (Some (JArray [])) (two_sessions {}) = Some w1 \<and>
     inv ref_env w1 [0 \<mapsto> [], 1 \<mapsto> [t]] \<and>
     jrpc_protocol_process ref_env idle_user (Some 0) (Some 0) t (two_clients {}) =
       Some ((two_clients {})\<lparr>clock := 3\<rparr>)"
proof -
  have P: "([0 \<mapsto> [], 1 \<mapsto> []] :: mailbox) 1 = Some []" by simp
  obtain p where p: "deref (protos (two_clients {})) (Some 0) = Some p" "default_protocol p"
    using two_clients_proto [of "{}"] by auto
  have utf8: "json_string ref_env (clock (two_sessions {}) + 1) ''joined'' \<noteq> NULL"
    by (simp add: ref_env_def)
  have params: "json_is_array ref_env (JArray []) \<or> json_is_object ref_env (JArray [])"
    by (simp add: ref_env_def)
  have dump: "fst (json_dumpb ref_env (notify_value ref_env (clock (two_sessions {})) ''joined'' (Some (JArray []))) 0) \<noteq> 0"
    by (simp add: ref_env_def notify_value_def ref_set_new_def ref_dumpb_def is_container_def)
  from notify_reaches_handler [OF ref.jansson_total_axioms inv_two_sessions P _ utf8 params dump p(1), of idle_user "Some 0"] p(2)
  show ?thesis
    by (fastforce simp: default_protocol_def jrpc_default_onnotify_def)
qed

section \<open>The width of \<open>id\<close>\<close>

lemma json_to_int_inverse: "json_to_int (int_to_json i) = i"
  unfolding json_to_int_def int_to_json_def by (rule bit_word_eqI) (simp add: bit_simps)

lemma sint_through_int: "sint (int_to_json (json_to_int j)) = signed_take_bit 31 (sint j)"
  unfolding json_to_int_def int_to_json_def by (rule bit_eqI) (auto simp: bit_simps min_def)

lemma int_repeated_iff: "int_to_json (json_to_int j) = j \<longleftrightarrow> - (2 ^ 31) \<le> sint j \<and> sint j < 2 ^ 31"
proof -
  have "int_to_json (json_to_int j) = j \<longleftrightarrow> sint (int_to_json (json_to_int j)) = sint j"
    by (auto intro: signed_word_eqI)
  also have "\<dots> \<longleftrightarrow> - (2 ^ 31) \<le> sint j \<and> sint j < 2 ^ 31"
    unfolding sint_through_int by (simp add: signed_take_bit_int_eq_self_iff)
  finally show ?thesis .
qed

lemma answer_id:
  "is_response E result i v \<Longrightarrow> int_member E v ''id'' i" "is_error E code s i v \<Longrightarrow> int_member E v ''id'' i"
  by (simp_all add: is_response_def is_error_def)

text \<open>C35. The \<open>id\<close> of a request in its answer: as long as memory lasts, from the bytes of a request to the text that is posted for it, when
  the \<open>onmethod\<close> handler, whatever it is, answers with \<open>jrpc_respond\<close> or \<open>jrpc_respond_error\<close> and the \<open>id\<close> that it was
  given, the answer has an integer \<open>id\<close>: the low 32 bits of the one in the request, as a signed number. So it is
  the request's \<open>id\<close> exactly when that fits a C \<open>int\<close>.\<close>

theorem id_repeated_iff_int:
  fixes w :: "'a pheap_scheme"
  assumes E: "jansson_total E" and w: "inv E w P" and P: "P c = Some ts" and no_oom: "no_oom w"
    and load: "json_loadb E (clock w) input = Some r" and call: "rpc_call E r name params"
    and id: "json_object_get E r ''id'' = Some k" "json_is_integer E k"
    and p: "deref (protos w) protocol = Some p" and utf8: "\<forall>t. json_string E t s \<noteq> NULL"
    and handler: "\<forall>i x. call_onmethod E U (p_onmethod p) (Some c) name params i x = jrpc_respond E (Some c) result i x \<or>
      call_onmethod E U (p_onmethod p) (Some c) name params i x = jrpc_respond_error E (Some c) code s i x"
  shows "\<exists>w' v x. jrpc_protocol_process E U protocol (Some c) input w = Some w' \<and>
    inv E w' (P(c \<mapsto> ts @ [json_text E (Some v)])) \<and> json_object_get E v ''id'' = Some x \<and> json_is_integer E x \<and>
    sint (json_integer_value E x) = signed_take_bit 31 (sint (json_integer_value E k)) \<and>
    (json_integer_value E x = json_integer_value E k \<longleftrightarrow>
       - (2 ^ 31) \<le> sint (json_integer_value E k) \<and> sint (json_integer_value E k) < 2 ^ 31)"
proof -
  let ?i = "json_to_int (json_integer_value E k)"
  let ?w1 = "w\<lparr>clock := Suc (clock w), json_refs := json_refs w + 1\<rparr>"
  have w1: "inv E ?w1 P" using w by simp
  have oom: "\<not> oom ?w1 n" for n using no_oom by (simp add: no_oom_def)
  have i: "rpc_id E r = Some ?i" using id by (simp add: rpc_id_def)
  have "\<exists>w2 v. call_onmethod E U (p_onmethod p) (Some c) name params ?i ?w1 = Some w2 \<and> int_member E v ''id'' ?i \<and>
      inv E w2 (P(c \<mapsto> ts @ [json_text E (Some v)]))"
    using handler [rule_format, of ?i ?w1]
  proof
    assume "call_onmethod E U (p_onmethod p) (Some c) name params ?i ?w1 = jrpc_respond E (Some c) result ?i ?w1"
    then show ?thesis using respond_posts [OF E w1 P oom, of result ?i] answer_id(1) by fastforce
  next
    assume "call_onmethod E U (p_onmethod p) (Some c) name params ?i ?w1 = jrpc_respond_error E (Some c) code s ?i ?w1"
    then show ?thesis
      using respond_error_posts [OF E w1 P oom spec [OF utf8], of code ?i] answer_id(2) by fastforce
  qed
  then obtain w2 v where 2: "call_onmethod E U (p_onmethod p) (Some c) name params ?i ?w1 = Some w2"
    "int_member E v ''id'' ?i" "inv E w2 (P(c \<mapsto> ts @ [json_text E (Some v)]))" by blast
  have "jrpc_protocol_process E U protocol (Some c) input w = Some (w2\<lparr>json_refs := json_refs w2 - 1\<rparr>)"
    using process_call [OF load call p, of U "Some c"] 2(1) i by simp
  moreover have "inv E (w2\<lparr>json_refs := json_refs w2 - 1\<rparr>) (P(c \<mapsto> ts @ [json_text E (Some v)]))" using 2(3) by simp
  moreover from 2(2) obtain x where "json_object_get E v ''id'' = Some x" "json_is_integer E x"
    and x: "json_integer_value E x = int_to_json ?i" unfolding int_member_def by blast
  ultimately show ?thesis
    using sint_through_int [of "json_integer_value E k", folded x] int_repeated_iff [of "json_integer_value E k", folded x]
    by blast
qed

text \<open>A request with the \<open>id\<close> 2^32 + 7: its answer has the \<open>id\<close> 7.\<close>

definition large_request :: json where
  "large_request = JObject [(''method'', JString ''add''), (''params'', JArray []), (''id'', JInt 4294967303)]"

lemma large_request_load: "json_loadb ref_env t (print_json large_request) = Some large_request"
  using ref_load_print [of large_request] by (simp add: ref_env_def large_request_def is_container_def)

theorem id_repeated_iff_int_witness:
  "\<exists>w' v x. jrpc_protocol_process ref_env idle_user (Some 0) (Some 1) (print_json large_request)
      (two_clients {}) = Some w' \<and> inv ref_env w' [0 \<mapsto> [], 1 \<mapsto> [json_text ref_env (Some v)]] \<and>
    json_object_get ref_env v ''id'' = Some x \<and> sint (json_integer_value ref_env x) = 7"
proof -
  have P: "([0 \<mapsto> [], 1 \<mapsto> []] :: mailbox) 1 = Some []" by simp
  have call: "rpc_call ref_env large_request ''add'' (JArray [])"
    by (simp add: rpc_call_def string_member_def large_request_def ref_env_def ref_get_def)
  have id: "json_object_get ref_env large_request ''id'' = Some (JInt 4294967303)"
    "json_is_integer ref_env (JInt 4294967303)" "json_integer_value ref_env (JInt 4294967303) = 4294967303"
    by (simp_all add: large_request_def ref_env_def ref_get_def)
  obtain p where p: "deref (protos (two_clients {})) (Some 0) = Some p" "default_protocol p"
    using two_clients_proto [of "{}"] by auto
  have oom: "no_oom (two_clients {})" by (simp add: no_oom_def)
  have utf8: "\<forall>t. json_string ref_env t ''not implemented'' \<noteq> NULL" by (simp add: ref_env_def)
  have "call_onmethod ref_env idle_user (p_onmethod p) (Some 1) ''add'' (JArray []) i x =
      jrpc_respond_error ref_env (Some 1) (-1) ''not implemented'' i x" for i and x :: pheap
    using p(2) by (simp add: default_protocol_def jrpc_default_onmethod_def)
  then have handler: "\<forall>i (x :: pheap). call_onmethod ref_env idle_user (p_onmethod p) (Some 1) ''add'' (JArray []) i x =
      jrpc_respond ref_env (Some 1) NULL i x \<or>
    call_onmethod ref_env idle_user (p_onmethod p) (Some 1) ''add'' (JArray []) i x =
      jrpc_respond_error ref_env (Some 1) (-1) ''not implemented'' i x" by blast
  have "signed_take_bit 31 (sint (json_integer_value ref_env (JInt 4294967303))) = 7"
    unfolding id(3) by code_simp
  moreover have "([0 \<mapsto> [], 1 \<mapsto> []] :: mailbox)(1 \<mapsto> [] @ [t]) = [0 \<mapsto> [], 1 \<mapsto> [t]]" for t
    by (simp add: fun_eq_iff)
  ultimately show ?thesis
    using id_repeated_iff_int [OF ref.jansson_total_axioms inv_two_clients P oom large_request_load call id(1,2) p(1) utf8 handler]
    by metis
qed

section \<open>One callback\<close>

text \<open>\<open>LWS_CALLBACK_SERVER_WRITEABLE\<close> writes one message: on a connection with waiting texts
  \<open>ts\<close> it writes exactly the first of them, complete and in one text frame, frees its message (the
  invariant says that every message of the store is waiting on some connection), and asks for
  another callback exactly when more texts are waiting; on a connection without waiting
  texts it does nothing. Other connections keep their texts.\<close>

theorem writeable_writes_first:
  fixes w :: "'a pheap_scheme"
  assumes "inv E w P" and "wsi_of w c = Some s" and "P c = Some ts"
  shows "\<exists>w'. jrpc_protocol_callback E U (Some lp) s LWS_CALLBACK_SERVER_WRITEABLE (Some c) input
      (w\<lparr>lws_log := lws_log w @ [Writeable s]\<rparr>) = Some (0, w') \<and>
    inv E w' (P(c \<mapsto> tl ts)) \<and> json_refs w' = json_refs w \<and>
    lws_log w' = lws_log w @ [Writeable s] @ (if ts = [] then [] else [Write s (hd ts)])
      @ (if length ts \<le> 1 then [] else [On_writable s])"
proof -
  have "writeable_events s ts = [Writeable s] @ (if ts = [] then [] else [Write s (hd ts)])
      @ (if length ts \<le> 1 then [] else [On_writable s])"
    by (cases "(s, ts)" rule: writeable_events.cases) simp_all
  with callback_writeable_spec [OF assms, of U lp input] show ?thesis by auto
qed

theorem writeable_writes_first_witness:
  "\<exists>w'. jrpc_protocol_callback ref_env idle_user (Some example_lws) 6 LWS_CALLBACK_SERVER_WRITEABLE (Some 1) []
      ((two_clients {})\<lparr>lws_log := [Writeable 6]\<rparr>) = Some (0, w') \<and>
    inv ref_env w' [0 \<mapsto> [], 1 \<mapsto> []] \<and> lws_log w' = [Writeable 6]"
proof -
  have s: "wsi_of (two_clients {}) 1 = Some 6" by simp
  have P: "([0 \<mapsto> [], 1 \<mapsto> []] :: mailbox) 1 = Some []" by simp
  have P': "([0 \<mapsto> [], 1 \<mapsto> []] :: mailbox)(1 \<mapsto> tl []) = [0 \<mapsto> [], 1 \<mapsto> []]"
    by simp
  from writeable_writes_first [OF inv_two_clients s P, of ref_env idle_user example_lws "[]", unfolded P'] show ?thesis
    by (auto simp del: fun_upd_apply)
qed

text \<open>\<open>LWS_CALLBACK_CLOSED\<close>: after the user's \<open>ondisconnected\<close> handler, which may still send
  on every connection, all messages that wait on the closing connection are freed, and the other
  connections keep what they had (the handler may have added to it).\<close>

theorem closed_frees_messages:
  assumes "wired_handlers E U good I" and "inv E w P" and "I w (dom P)" and "c \<in> dom P"
    and "configured good w (lp_user lp)"
  shows "\<exists>w' P'. jrpc_protocol_callback E U (Some lp) s LWS_CALLBACK_CLOSED (Some c) input w = Some (0, w') \<and>
    inv E w' P' \<and> P' c = Some [] \<and> dom P' = dom P \<and>
    (\<forall>d ts. d \<noteq> c \<longrightarrow> P d = Some ts \<longrightarrow> (\<exists>ts'. P' d = Some (ts @ ts')))"
proof -
  have "handlers E U good I" using assms(1) by (simp add: wired_handlers_def)
  from handlers.callback_closed [OF this assms(2-5), of s input] obtain w' P'
    where call: "jrpc_protocol_callback E U (Some lp) s LWS_CALLBACK_CLOSED (Some c) input w = Some (0, w')"
      and c: "P' c = Some []" and h: "handled E good I (dom P - {c}) w (P(c \<mapsto> [])) w' P'"
    by blast
  from h have ext: "\<And>d ts. (P(c \<mapsto> [])) d = Some ts \<Longrightarrow> \<exists>ts'. P' d = Some (ts @ ts')"
    unfolding handled_def extends_def by blast
  have "\<exists>ts'. P' d = Some (ts @ ts')" if "d \<noteq> c" "P d = Some ts" for d ts
    using ext [of d ts] that by simp
  moreover have "dom P' = dom P"
    using handled_dom [OF h] assms(4) by auto
  ultimately show ?thesis
    using call c handled_inv [OF h] by blast
qed

theorem closed_frees_messages_witness:
  "\<exists>w' P'. jrpc_protocol_callback ref_env idle_user (Some example_lws) 5 LWS_CALLBACK_CLOSED (Some 0) [] (two_clients {}) = Some (0, w') \<and>
    inv ref_env w' P' \<and> P' 0 = Some [] \<and> dom P' = {0, 1}"
proof -
  have "configured default_protocol (two_clients {}) (lp_user example_lws)"
    using two_clients_configured by (simp add: example_lws_def)
  from closed_frees_messages [OF ref.default_handlers inv_two_clients TrueI _ this, of 0 idle_user 5 "[]"]
  obtain w' P' where "jrpc_protocol_callback ref_env idle_user (Some example_lws) 5 LWS_CALLBACK_CLOSED (Some 0) [] (two_clients {}) = Some (0, w')"
    "inv ref_env w' P'" "P' 0 = Some []" "dom P' = dom [0 \<mapsto> [], Suc 0 \<mapsto> []]"
    by auto
  then show ?thesis by (auto simp: insert_commute)
qed

section \<open>Waking the server up\<close>

fun repeat_call :: "nat \<Rightarrow> ('w \<Rightarrow> 'w option) \<Rightarrow> 'w \<Rightarrow> 'w option" where
  "repeat_call 0 f w = Some w"
| "repeat_call (Suc n) f w = Option.bind (f w) (repeat_call n f)"

definition with_inbox :: "nat \<Rightarrow> nat \<Rightarrow> nat \<Rightarrow> 'a pheap_scheme \<Rightarrow> 'a pheap_scheme" where
  "with_inbox x y n w = w\<lparr>sockets := (sockets w)(x \<mapsto> \<lparr>peer = y, inbox = replicate n [CHR 0x2A]\<rparr>)\<rparr>"

lemma wakeup_adds:
  assumes "protos w a = Some p" and "p_fd p = (Some x, Some y)" and "sockets w y = Some \<lparr>peer = x, inbox = ys\<rparr>"
    and "x \<noteq> y"
  shows "jrpc_protocol_wakeup (Some a) (with_inbox x y n w) = Some (with_inbox x y (Suc n) w)"
  using assms
  by (simp add: jrpc_protocol_wakeup_def sys_write_def with_inbox_def replicate_append_same)

lemma raw_rx_takes:
  assumes "protos w a = Some p" and "p_fd p = (Some x, Some y)" and "lp_user lp = Some a"
  shows "map_option snd (jrpc_protocol_callback E U (Some lp) s LWS_CALLBACK_RAW_RX_FILE NULL [] (with_inbox x y (Suc n) w))
    = Some (with_inbox x y n w)"
  using assms
  by (simp add: jrpc_protocol_callback_def request_writeable_def sys_read_def with_inbox_def)

lemma repeat_wakeup:
  assumes "protos w a = Some p" and "p_fd p = (Some x, Some y)" and "sockets w y = Some \<lparr>peer = x, inbox = ys\<rparr>"
    and "x \<noteq> y"
  shows "repeat_call n (jrpc_protocol_wakeup (Some a)) (with_inbox x y m w) = Some (with_inbox x y (m + n) w)"
  by (induction n arbitrary: m) (simp_all add: wakeup_adds [OF assms])

text \<open>Wakeups are neither lost nor left over: after \<open>n\<close> calls of \<open>jrpc_protocol_wakeup\<close> exactly
  \<open>n\<close> datagrams wait at the descriptor that libwebsockets watches, and the \<open>n\<close> callbacks
  \<open>LWS_CALLBACK_RAW_RX_FILE\<close> that they cause return without blocking and bring the state back to
  what it was.\<close>

theorem wakeups_balanced:
  assumes "protos w a = Some p" and "p_fd p = (Some x, Some y)" and "x \<noteq> y"
    and "sockets w x = Some \<lparr>peer = y, inbox = []\<rparr>" and "sockets w y = Some \<lparr>peer = x, inbox = ys\<rparr>"
    and "lp_user lp = Some a"
  shows "\<exists>w'. repeat_call n (jrpc_protocol_wakeup (Some a)) w = Some w' \<and>
    map_option (length \<circ> inbox) (sockets w' x) = Some n \<and>
    repeat_call n (\<lambda>w. map_option snd
      (jrpc_protocol_callback E U (Some lp) s LWS_CALLBACK_RAW_RX_FILE NULL [] w)) w' = Some w"
proof -
  have w: "with_inbox x y 0 w = w"
    using assms(4) by (simp add: with_inbox_def fun_upd_idem)
  have "repeat_call n (jrpc_protocol_wakeup (Some a)) w = Some (with_inbox x y n w)"
    using repeat_wakeup [OF assms(1,2,5,3), of n 0] w by simp
  moreover have "repeat_call n (\<lambda>w. map_option snd
      (jrpc_protocol_callback E U (Some lp) s LWS_CALLBACK_RAW_RX_FILE NULL [] w)) (with_inbox x y n w)
      = Some (with_inbox x y 0 w)"
    by (induction n) (simp_all add: raw_rx_takes [OF assms(1,2,6)])
  ultimately show ?thesis
    using w by (simp add: with_inbox_def)
qed

theorem wakeups_balanced_witness:
  "\<exists>w'. repeat_call 3 (jrpc_protocol_wakeup (Some 0)) (two_clients {}) = Some w' \<and>
    map_option (length \<circ> inbox) (sockets w' 3) = Some 3 \<and>
    repeat_call 3 (\<lambda>w. map_option snd
      (jrpc_protocol_callback ref_env idle_user (Some example_lws) 9 LWS_CALLBACK_RAW_RX_FILE NULL [] w)) w' = Some (two_clients {})"
proof -
  obtain p where "protos (two_clients {}) 0 = Some p" "p_fd p = (Some 3, Some 4)"
    using two_clients_proto [of "{}"] by blast
  from wakeups_balanced [OF this, of "[]" example_lws 3 ref_env idle_user 9] show ?thesis
    by (simp add: two_clients_def open_session_def example_lws_def)
qed

end
