(* ===== verification/Jrpc_Loop.thy ===== *)
theory Jrpc_Loop
  imports Jrpc_Incoming
begin

text \<open>
  The event loop. libwebsockets decides which callback comes next; what it documents about the
  callbacks is \<open>enabled\<close>: the memory of a new session is fresh and zeroed and its websocket is not
  that of an open session, the other session callbacks are for open sessions, a raw descriptor is
  reported when it has something to read. Between two callbacks the application may wake the
  server up or send something. \<open>perform\<close> makes the calls into the library that an event stands
  for, \<open>steps\<close> are the runs and \<open>reach\<close> the states of a server.

  The lemmas show that the invariant of \<open>Jrpc_Session\<close> holds in all of them, that no call into the
  library is ever undefined, and that each connection's messages are written completely and in the
  order in which they were sent.
\<close>

section \<open>Events\<close>

datatype 'j event =
    Established addr wsi
  | Received addr string
  | Can_write addr
  | Closed addr
  | Raw_readable wsi
  | Protocol_init wsi
  | Other_event nat "addr option" wsi
  | Wakeup
  | Notify addr string "'j option"
  | Respond addr "'j option" c_int
  | Respond_error addr c_int string c_int

definition callback_for ::
  "('j, 'e) env_scheme \<Rightarrow> ('j, 'a pheap_scheme) user_code \<Rightarrow> lws_protocols \<Rightarrow> lws_callback_reasons
     \<Rightarrow> addr \<Rightarrow> string \<Rightarrow> wsi option \<Rightarrow> 'a pheap_scheme \<Rightarrow> 'a pheap_scheme option" where
  "callback_for E U lp reason c input wsi w = do {
     s \<leftarrow> wsi;
     (_, w') \<leftarrow> jrpc_protocol_callback E U (Some lp) s reason (Some c) input w;
     Some w'
   }"

fun perform ::
  "('j, 'e) env_scheme \<Rightarrow> ('j, 'a pheap_scheme) user_code \<Rightarrow> lws_protocols \<Rightarrow> 'j event
     \<Rightarrow> 'a pheap_scheme \<Rightarrow> 'a pheap_scheme option" where
  "perform E U lp (Established c s) w =
     callback_for E U lp LWS_CALLBACK_ESTABLISHED c [] (Some s)
       (w\<lparr>conns := (conns w)(c \<mapsto> zero_connection)\<rparr>)"
| "perform E U lp (Received c input) w =
     callback_for E U lp LWS_CALLBACK_RECEIVE c input (wsi_of w c) w"
| "perform E U lp (Can_write c) w = do {
     s \<leftarrow> wsi_of w c;
     callback_for E U lp LWS_CALLBACK_SERVER_WRITEABLE c [] (Some s)
       (w\<lparr>lws_log := lws_log w @ [Writeable s]\<rparr>)
   }"
| "perform E U lp (Closed c) w = do {
     w' \<leftarrow> callback_for E U lp LWS_CALLBACK_CLOSED c [] (wsi_of w c) w;
     Some (w'\<lparr>conns := (conns w')(c := None)\<rparr>)
   }"
| "perform E U lp (Raw_readable s) w =
     map_option snd (jrpc_protocol_callback E U (Some lp) s LWS_CALLBACK_RAW_RX_FILE NULL [] w)"
| "perform E U lp (Protocol_init s) w =
     map_option snd (jrpc_protocol_callback E U (Some lp) s LWS_CALLBACK_PROTOCOL_INIT NULL [] w)"
| "perform E U lp (Other_event n c s) w =
     map_option snd (jrpc_protocol_callback E U (Some lp) s (LWS_CALLBACK_OTHER n) c [] w)"
| "perform E U lp Wakeup w = jrpc_protocol_wakeup (lp_user lp) w"
| "perform E U lp (Notify c name params) w = jrpc_notify E (Some c) name params w"
| "perform E U lp (Respond c result i) w = jrpc_respond E (Some c) result i w"
| "perform E U lp (Respond_error c code txt i) w = jrpc_respond_error E (Some c) code txt i w"

definition raw_ready :: "lws_protocols \<Rightarrow> 'a pheap_scheme \<Rightarrow> bool" where
  "raw_ready lp w \<longleftrightarrow>
     (\<forall>p fd s. deref (protos w) (lp_user lp) = Some p \<longrightarrow> fst (p_fd p) = Some fd \<longrightarrow>
        sockets w fd = Some s \<longrightarrow> inbox s \<noteq> [])"

fun enabled :: "lws_protocols \<Rightarrow> 'j event \<Rightarrow> 'a pheap_scheme \<Rightarrow> bool" where
  "enabled lp (Established c s) w \<longleftrightarrow> conns w c = None \<and> (\<forall>d. wsi_of w d \<noteq> Some s)"
| "enabled lp (Received c input) w \<longleftrightarrow> c \<in> dom (conns w)"
| "enabled lp (Can_write c) w \<longleftrightarrow> c \<in> dom (conns w)"
| "enabled lp (Closed c) w \<longleftrightarrow> c \<in> dom (conns w)"
| "enabled lp (Raw_readable s) w \<longleftrightarrow> raw_ready lp w"
| "enabled lp (Other_event n NULL s) w \<longleftrightarrow> True"
| "enabled lp (Other_event n (Some c) s) w \<longleftrightarrow> wsi_of w c = Some s"
| "enabled lp (Notify c name params) w \<longleftrightarrow> c \<in> dom (conns w)"
| "enabled lp (Respond c result i) w \<longleftrightarrow> c \<in> dom (conns w)"
| "enabled lp (Respond_error c code txt i) w \<longleftrightarrow> c \<in> dom (conns w)"
| "enabled lp _ w \<longleftrightarrow> True"

text \<open>The connections that are open after an event, and their websockets.\<close>

fun open_after :: "'j event \<Rightarrow> addr set \<Rightarrow> addr set" where
  "open_after (Established c s) C = insert c C"
| "open_after (Closed c) C = C - {c}"
| "open_after _ C = C"

fun sessions_after :: "'j event \<Rightarrow> (addr \<rightharpoonup> wsi) \<Rightarrow> (addr \<rightharpoonup> wsi)" where
  "sessions_after (Established c s) W = W(c \<mapsto> s)"
| "sessions_after (Closed c) W = W(c := None)"
| "sessions_after _ W = W"

section \<open>Runs\<close>

inductive steps ::
  "('j, 'e) env_scheme \<Rightarrow> ('j, 'a pheap_scheme) user_code \<Rightarrow> lws_protocols
     \<Rightarrow> 'a pheap_scheme \<Rightarrow> 'j event list \<Rightarrow> 'a pheap_scheme \<Rightarrow> bool"
  for E U lp where
  steps_Nil: "steps E U lp w [] w"
| steps_Cons: "enabled lp e w \<Longrightarrow> perform E U lp e w = Some w1 \<Longrightarrow> steps E U lp w1 es w2 \<Longrightarrow>
    steps E U lp w (e # es) w2"

inductive_simps steps_Nil_iff [simp]: "steps E U lp w [] w'"
inductive_simps steps_Cons_iff: "steps E U lp w (e # es) w'"
inductive_cases steps_ConsE: "steps E U lp w (e # es) w'"

text \<open>A server that has been created and has no session yet.\<close>

definition fresh_server :: "(jrpc_protocol \<Rightarrow> bool) \<Rightarrow> lws_protocols \<Rightarrow> 'a pheap_scheme \<Rightarrow> bool" where
  "fresh_server good lp w \<longleftrightarrow>
     conns w = Map.empty \<and> blocks w = Map.empty \<and> configured good w (lp_user lp)"

section \<open>What one connection sees\<close>

text \<open>\<open>sent_to s ts log\<close> are the texts that connection \<open>s\<close> with waiting texts \<open>ts\<close> has been sent
  so far: those written and those waiting.\<close>

definition sent_to :: "wsi \<Rightarrow> string list \<Rightarrow> 'a lheap_scheme \<Rightarrow> string list" where
  "sent_to s ts w = written s (lws_log w) @ ts"

definition grows :: "'a pheap_scheme \<Rightarrow> mailbox \<Rightarrow> 'a pheap_scheme \<Rightarrow> mailbox \<Rightarrow> bool" where
  "grows w P w' P' \<longleftrightarrow>
     prefix (lws_log w) (lws_log w') \<and>
     (\<forall>c ts ts' s. P c = Some ts \<longrightarrow> P' c = Some ts' \<longrightarrow> wsi_of w c = Some s \<longrightarrow>
        wsi_of w' c = Some s \<and> prefix (sent_to s ts w) (sent_to s ts' w'))"

lemma written_requests [simp]: "written s (map On_writable ss) = []"
  by (induction ss) auto

lemma growsI:
  assumes "prefix (lws_log w) (lws_log w')"
    and "\<And>c ts ts' s. P c = Some ts \<Longrightarrow> P' c = Some ts' \<Longrightarrow> wsi_of w c = Some s \<Longrightarrow>
      wsi_of w' c = Some s \<and> prefix (sent_to s ts w) (sent_to s ts' w')"
  shows "grows w P w' P'"
  using assms by (simp add: grows_def)

lemma grows_extends: "extends w P w' P' \<Longrightarrow> grows w P w' P'"
  unfolding grows_def extends_def sent_to_def by fastforce

lemma written_writeable_events: "written s (writeable_events s' ts) = (if s' = s then take 1 ts else [])"
  by (cases "(s', ts)" rule: writeable_events.cases) auto

lemma grows_trans:
  assumes "grows w P w' P'" and "grows w' P' w'' P''" and "dom P \<inter> dom P'' \<subseteq> dom P'"
  shows "grows w P w'' P''"
proof (rule growsI)
  show "prefix (lws_log w) (lws_log w'')"
    using assms(1,2) unfolding grows_def by (meson prefix_order.trans)
  fix c ts ts'' s
  assume 1: "P c = Some ts" "P'' c = Some ts''" "wsi_of w c = Some s"
  with assms(3) obtain ts' where "P' c = Some ts'"
    by blast
  with 1 assms(1,2) show "wsi_of w'' c = Some s \<and> prefix (sent_to s ts w) (sent_to s ts'' w'')"
    unfolding grows_def by (meson prefix_order.trans)+
qed

lemma grows_written: "grows w P w' P' \<Longrightarrow> prefix (written s (lws_log w)) (written s (lws_log w'))"
  by (auto simp: grows_def prefix_def)

lemma grows_new_session:
  assumes "P c = None"
  shows "grows w P (open_session server c s w) (P(c \<mapsto> []))"
proof -
  have "lws_log (open_session server c s w) = lws_log w"
    by (simp add: open_session_def)
  with assms show ?thesis
    by (auto simp: grows_def open_session_wsi sent_to_def split: if_splits)
qed

lemma grows_end_session:
  assumes "grows w P w' P'"
  shows "grows w P (w'\<lparr>conns := (conns w')(c := None)\<rparr>) (P'(c := None))"
  using assms by (auto simp: grows_def wsi_of_def sent_to_def split: if_splits)

lemma grows_clear:
  assumes "grows w (P(c \<mapsto> [])) w' P'"
  shows "grows w P w' (P'(c := None))"
  using assms by (fastforce simp: grows_def split: if_splits)

section \<open>Every event\<close>

definition sound ::
  "('j, 'e) env_scheme \<Rightarrow> (jrpc_protocol \<Rightarrow> bool) \<Rightarrow> ('a pheap_scheme \<Rightarrow> addr set \<Rightarrow> bool)
     \<Rightarrow> lws_protocols \<Rightarrow> 'a pheap_scheme \<Rightarrow> mailbox \<Rightarrow> bool" where
  "sound E good I lp w P \<longleftrightarrow> inv E w P \<and> I w (dom P) \<and> configured good w (lp_user lp)"

lemma sound_dom: "sound E good I lp w P \<Longrightarrow> dom P = dom (conns w)"
  by (auto simp: sound_def dest!: inv_models models_dom)

lemma handled_sound:
  assumes "handled E good I C w P w' P'" and "C = dom P" and "configured good w (lp_user lp)"
  shows "sound E good I lp w' P' \<and> dom P' = dom P \<and> grows w P w' P'"
  using assms handled_dom [OF assms(1)] by (auto simp: handled_def sound_def grows_extends)

lemma inv_log:
  assumes w: "inv E w P" and "\<And>s. note_event s e = id"
  shows "inv E (w\<lparr>lws_log := lws_log w @ [e]\<rparr>) P"
proof (rule inv_step [OF w])
  show "wsi_of (w\<lparr>lws_log := lws_log w @ [e]\<rparr>) = wsi_of w"
    by (simp add: wsi_of_def fun_eq_iff)
  show "wants s (lws_log (w\<lparr>lws_log := lws_log w @ [e]\<rparr>))"
    if "P c = Some (t # ts)" "wsi_of w c = Some s" for c t ts s
    using inv_wants [OF w that] assms(2) by simp
qed (simp_all add: inv_models [OF w])

context wired_handlers
begin

lemma sound_frame:
  assumes w: "sound E good I lp w P" and "inv E w' P'" and "dom P' = dom P"
    and "protos w' = protos w" and "pheap.more w' = pheap.more w"
  shows "sound E good I lp w' P'"
  using assms I_frame [of w "dom P" w'] configured_protos [of w' w] by (simp add: sound_def)

lemma sound_sends:
  assumes "sound E good I lp w P" and "sends E c v n d w P w' P'"
  shows "sound E good I lp w' P' \<and> dom P' = dom P \<and> grows w P w' P'"
  using assms sound_frame [OF assms(1), of w' P'] sends_dom [OF assms(2)]
    same_sessions_protos [of w w'] by (auto simp: sends_def grows_extends)

text \<open>An event of the loop is performed without undefined behaviour and keeps the invariant.\<close>

definition step_ok :: "lws_protocols \<Rightarrow> 'j event \<Rightarrow> 'a pheap_scheme \<Rightarrow> mailbox \<Rightarrow> bool" where
  "step_ok lp e w P \<longleftrightarrow>
     (\<exists>w' P'. perform E U lp e w = Some w' \<and> sound E good I lp w' P' \<and>
        dom P' = open_after e (dom P) \<and> grows w P w' P')"

lemma step_okI:
  "perform E U lp e w = Some w' \<Longrightarrow> sound E good I lp w' P' \<Longrightarrow> dom P' = open_after e (dom P) \<Longrightarrow>
   grows w P w' P' \<Longrightarrow> step_ok lp e w P"
  unfolding step_ok_def by blast

lemma step_established:
  assumes w: "sound E good I lp w P" and e: "enabled lp (Established c s) w"
  shows "step_ok lp (Established c s) w P"
proof -
  from w obtain p where p: "deref (protos w) (lp_user lp) = Some p" and good: "good p"
    by (auto simp: sound_def configured_def)
  from w have inv: "inv E w P" and I: "I w (dom P)" by (simp_all add: sound_def)
  from callback_established [OF inv I, of c s lp p "[]"] e p good obtain w' P'
    where call: "jrpc_protocol_callback E U (Some lp) s LWS_CALLBACK_ESTABLISHED (Some c) []
        (w\<lparr>conns := (conns w)(c \<mapsto> zero_connection)\<rparr>) = Some (0, w')"
      and h: "handled E good I (insert c (dom P)) (open_session (p_server p) c s w) (P(c \<mapsto> [])) w' P'"
    by auto
  let ?w = "open_session (p_server p) c s w"
  have "configured good ?w (lp_user lp)"
    using p good by (simp add: configured_def open_session_def)
  with handled_sound [OF h] have 1: "sound E good I lp w' P'" "dom P' = insert c (dom P)"
    "grows ?w (P(c \<mapsto> [])) w' P'"
    by simp_all
  have "P c = None"
    using e sound_dom [OF w] by auto
  from grows_trans [OF grows_new_session [of P c, OF this] 1(3)] have "grows w P w' P'"
    by auto
  with 1 call show ?thesis
    by (auto simp: step_ok_def callback_for_def)
qed

lemma step_received:
  assumes w: "sound E good I lp w P" and e: "enabled lp (Received c input) w"
  shows "step_ok lp (Received c input) w P"
proof -
  from w have inv: "inv E w P" and I: "I w (dom P)" and conf: "configured good w (lp_user lp)"
    by (simp_all add: sound_def)
  have c: "c \<in> dom P" using e sound_dom [OF w] by simp
  from inv c obtain s where s: "wsi_of w c = Some s"
    by (rule inv_conn)
  from callback_receive [OF inv I c conf, of s input] handled_sound [OF _ refl conf] s show ?thesis
    by (fastforce simp: step_ok_def callback_for_def)
qed

lemma can_write_exact:
  assumes w: "sound E good I lp w P" and s: "wsi_of w c = Some s" and P: "P c = Some ts"
  shows "\<exists>w'. perform E U lp (Can_write c) w = Some w' \<and> sound E good I lp w' (P(c \<mapsto> tl ts)) \<and>
    lws_log w' = lws_log w @ writeable_events s ts \<and> wsi_of w' = wsi_of w \<and>
    pheap.more w' = pheap.more w \<and> oom w' = oom w"
proof -
  from w have inv: "inv E w P" by (simp add: sound_def)
  from callback_writeable_spec [OF inv s P, of U lp "[]"] obtain w'
    where call: "jrpc_protocol_callback E U (Some lp) s LWS_CALLBACK_SERVER_WRITEABLE (Some c) []
        (w\<lparr>lws_log := lws_log w @ [Writeable s]\<rparr>) = Some (0, w')"
      and inv': "inv E w' (P(c \<mapsto> tl ts))" and log: "lws_log w' = lws_log w @ writeable_events s ts"
      and wsi: "wsi_of w' = wsi_of w" and more: "cheap.more w' = cheap.more w" and oom: "oom w' = oom w"
    by blast
  have same: "protos w' = protos w" "pheap.more w' = pheap.more w"
    using more by (cases w; cases w'; simp)+
  moreover have "dom (P(c \<mapsto> tl ts)) = dom P" using P by auto
  ultimately have "sound E good I lp w' (P(c \<mapsto> tl ts))"
    using sound_frame [OF w inv'] by simp
  with call s log wsi same(2) oom show ?thesis by (simp add: callback_for_def)
qed

lemma step_can_write:
  assumes w: "sound E good I lp w P" and e: "enabled lp (Can_write c) w"
  shows "step_ok lp (Can_write c) w P"
proof -
  from w have inv: "inv E w P" by (simp add: sound_def)
  have "c \<in> dom P" using e sound_dom [OF w] by simp
  with inv obtain s ts where s: "wsi_of w c = Some s" and P: "P c = Some ts"
    by (meson inv_conn domD)
  from can_write_exact [OF w s P] obtain w'
    where call: "perform E U lp (Can_write c) w = Some w'"
      and w': "sound E good I lp w' (P(c \<mapsto> tl ts))"
      and log: "lws_log w' = lws_log w @ writeable_events s ts" and wsi: "wsi_of w' = wsi_of w"
    by blast
  have "grows w P w' (P(c \<mapsto> tl ts))"
  proof (rule growsI)
    show "prefix (lws_log w) (lws_log w')" by (simp add: log)
    fix d us us' r
    assume d: "P d = Some us" "(P(c \<mapsto> tl ts)) d = Some us'" "wsi_of w d = Some r"
    have "r = s \<longleftrightarrow> d = c"
      using inv_wsi_inj [OF inv, of d c] d(1,3) s P by auto
    with d P show "wsi_of w' d = Some r \<and> prefix (sent_to r us w) (sent_to r us' w')"
      by (cases ts) (auto simp: sent_to_def log written_writeable_events wsi split: if_splits)
  qed
  moreover have "dom (P(c \<mapsto> tl ts)) = dom P" using P by auto
  ultimately show ?thesis
    using call w' by (intro step_okI) simp_all
qed

lemma step_closed:
  assumes w: "sound E good I lp w P" and e: "enabled lp (Closed c) w"
  shows "step_ok lp (Closed c) w P"
proof -
  from w have inv: "inv E w P" and I: "I w (dom P)" and conf: "configured good w (lp_user lp)"
    by (simp_all add: sound_def)
  have c: "c \<in> dom P" using e sound_dom [OF w] by simp
  from inv c obtain s where s: "wsi_of w c = Some s"
    by (rule inv_conn)
  from callback_closed [OF inv I c conf, of s "[]"] obtain w1 P1
    where call: "jrpc_protocol_callback E U (Some lp) s LWS_CALLBACK_CLOSED (Some c) [] w = Some (0, w1)"
      and P1: "P1 c = Some []" and h: "handled E good I (dom P - {c}) w (P(c \<mapsto> [])) w1 P1"
    by blast
  let ?w = "w1\<lparr>conns := (conns w1)(c := None)\<rparr>" and ?P = "P1(c := None)"
  have dom: "dom ?P = dom P - {c}"
    using handled_dom [OF h] c by auto
  have "inv E ?w ?P"
    using handled_inv [OF h] P1 by (rule inv_end_session)
  moreover have "I ?w (dom ?P)"
    unfolding dom by (rule I_frame [of w1]) (use h in \<open>simp_all add: handled_def\<close>)
  moreover have "configured good ?w (lp_user lp)"
    using conf h by (simp add: handled_def configured_def)
  moreover have "grows w P ?w ?P"
  proof -
    have "grows w (P(c \<mapsto> [])) w1 P1"
      using h by (simp add: handled_def grows_extends)
    from grows_end_session [OF grows_clear [OF this], of c] show ?thesis by simp
  qed
  ultimately show ?thesis
    using call s dom by (intro step_okI [where w' = ?w]) (simp_all add: callback_for_def sound_def)
qed

lemma sound_wired:
  assumes "sound E good I lp w P"
  obtains p x y where "deref (protos w) (lp_user lp) = Some p" and "p_fd p = (Some x, Some y)"
proof -
  from assms obtain p where p: "deref (protos w) (lp_user lp) = Some p" and "good p"
    by (auto simp: sound_def configured_def)
  then have "wired p" using good_wired by simp
  with p that show ?thesis
    by (cases "p_fd p") (auto simp: wired_def)
qed

lemma step_quiet:
  assumes w: "sound E good I lp w P" and "perform E U lp e w = Some w'" and "inv E w' P"
    and "extends w P w' P" and "protos w' = protos w" and "pheap.more w' = pheap.more w"
    and "open_after e (dom P) = dom P"
  shows "step_ok lp e w P"
proof (rule step_okI [OF assms(2)])
  show "sound E good I lp w' P" using sound_frame [OF w assms(3) refl] assms by simp
qed (use assms in \<open>simp_all add: grows_extends\<close>)

lemma sockets_quiet:
  "inv E w P \<Longrightarrow> inv E (w\<lparr>sockets := x\<rparr>) P \<and> extends w P (w\<lparr>sockets := x\<rparr>) P"
  by (auto simp: extends_def wsi_of_def fun_eq_iff intro: inv_sockets exI [of _ "[]"])

lemma step_raw_readable:
  assumes w: "sound E good I lp w P" and e: "enabled lp (Raw_readable s) w"
  shows "step_ok lp (Raw_readable s) w P"
proof -
  from w obtain p x y where p: "deref (protos w) (lp_user lp) = Some p" and fd: "p_fd p = (Some x, Some y)"
    by (rule sound_wired)
  have inv: "inv E w P" using w by (simp add: sound_def)
  show ?thesis
  proof (cases "sockets w x")
    case None
    with p fd have "perform E U lp (Raw_readable s) w = Some w"
      by (simp add: jrpc_protocol_callback_def Let_def sys_read_def request_writeable_def)
    from step_quiet [OF w this inv] show ?thesis by simp
  next
    case (Some k)
    with e p fd obtain d ds where "inbox k = d # ds"
      by (auto simp: raw_ready_def neq_Nil_conv)
    with Some p fd have call:
      "perform E U lp (Raw_readable s) w = Some (w\<lparr>sockets := (sockets w)(x \<mapsto> k\<lparr>inbox := ds\<rparr>)\<rparr>)"
      by (simp add: jrpc_protocol_callback_def Let_def sys_read_def request_writeable_def)
    show ?thesis using sockets_quiet [OF inv] by (intro step_quiet [OF w call]) simp_all
  qed
qed

lemma step_protocol_init:
  assumes w: "sound E good I lp w P"
  shows "step_ok lp (Protocol_init s) w P"
proof -
  from w obtain p x y where p: "deref (protos w) (lp_user lp) = Some p" and fd: "p_fd p = (Some x, Some y)"
    by (rule sound_wired)
  let ?w = "w\<lparr>lws_log := lws_log w @ [Adopt x (lp_name lp)]\<rparr>"
  have call: "perform E U lp (Protocol_init s) w = Some ?w"
    using p fd by (simp add: jrpc_protocol_callback_def Let_def request_writeable_def)
  have inv: "inv E ?w P"
    using w by (intro inv_log) (auto simp: sound_def)
  have "grows w P ?w P"
    by (simp add: grows_def sent_to_def wsi_of_def)
  moreover have "sound E good I lp ?w P"
    using w inv by (intro sound_frame [OF w]) simp_all
  ultimately show ?thesis using call by (intro step_okI) simp_all
qed

lemma step_other:
  assumes w: "sound E good I lp w P" and e: "enabled lp (Other_event n c s) w"
  shows "step_ok lp (Other_event n c s) w P"
proof (cases c)
  case None
  then have "perform E U lp (Other_event n c s) w = Some w"
    by (simp add: jrpc_protocol_callback_def Let_def request_writeable_def)
  from step_quiet [OF w this] w show ?thesis by (simp add: sound_def)
next
  case (Some a)
  have inv: "inv E w P" using w by (simp add: sound_def)
  have "a \<in> dom P"
    using e Some sound_dom [OF w] by (auto simp: wsi_of_def Option.bind_eq_Some_conv)
  from request_writeable_spec [OF inv this, of s] obtain w'
    where "request_writeable s (Some a) w = Some w'" "inv E w' P" "extends w P w' P" "same_sessions w w'"
    by metis
  with Some w show ?thesis
    by (intro step_quiet [where w' = w'])
       (simp_all add: jrpc_protocol_callback_def Let_def same_sessions_protos)
qed

lemma step_wakeup:
  assumes w: "sound E good I lp w P"
  shows "step_ok lp Wakeup w P"
proof -
  from w obtain p x y where p: "deref (protos w) (lp_user lp) = Some p" and fd: "p_fd p = (Some x, Some y)"
    by (rule sound_wired)
  have inv: "inv E w P" using w by (simp add: sound_def)
  have call: "perform E U lp Wakeup w = Some (sys_write y [CHR 0x2A] w)"
    using p fd by (simp add: jrpc_protocol_wakeup_def)
  obtain k where "sys_write y [CHR 0x2A] w = w\<lparr>sockets := k\<rparr>"
    by (rule that [of "sockets (sys_write y [CHR 0x2A] w)"])
       (simp add: sys_write_def split: option.split)
  with step_quiet [OF w call] sockets_quiet [OF inv] show ?thesis by simp
qed

lemma step_application:
  assumes w: "sound E good I lp w P" and c: "c \<in> dom P"
  shows "step_ok lp (Notify c name params) w P" and "step_ok lp (Respond c result i) w P"
    and "step_ok lp (Respond_error c code txt i) w P"
proof -
  have inv: "inv E w P" using w by (simp add: sound_def)
  show "step_ok lp (Notify c name params) w P"
    using notify_spec [OF inv c, of name params] sound_sends [OF w]
    unfolding step_ok_def perform.simps open_after.simps by metis
  show "step_ok lp (Respond c result i) w P"
    using respond_spec [OF inv c, of result i] sound_sends [OF w]
    unfolding step_ok_def perform.simps open_after.simps by metis
  show "step_ok lp (Respond_error c code txt i) w P"
    using respond_error_spec [OF inv c, of code "txt" i] sound_sends [OF w]
    unfolding step_ok_def perform.simps open_after.simps by metis
qed

theorem event_ok:
  assumes w: "sound E good I lp w P" and e: "enabled lp e w"
  shows "\<exists>w' P'. perform E U lp e w = Some w' \<and> sound E good I lp w' P' \<and>
    dom P' = open_after e (dom P) \<and> grows w P w' P'"
proof -
  have "step_ok lp e w P"
    using w e sound_dom [OF w]
    by (cases e) (simp_all add: step_established step_received step_can_write step_closed
        step_raw_readable step_protocol_init step_other step_wakeup step_application
        del: perform.simps)
  then show ?thesis by (simp add: step_ok_def)
qed

lemma established_wsi:
  assumes w: "sound E good I lp w P" and call: "perform E U lp (Established c s) w = Some w'"
    and e: "enabled lp (Established c s) w"
  shows "wsi_of w' c = Some s"
proof -
  from w obtain p where p: "deref (protos w) (lp_user lp) = Some p" and good: "good p"
    by (auto simp: sound_def configured_def)
  from w have inv: "inv E w P" and I: "I w (dom P)" by (simp_all add: sound_def)
  from callback_established [OF inv I, of c s lp p "[]"] e p good call obtain P'
    where "handled E good I (insert c (dom P)) (open_session (p_server p) c s w) (P(c \<mapsto> [])) w' P'"
    by (auto simp: callback_for_def)
  then show ?thesis by (simp add: handled_def extends_def open_session_wsi)
qed

lemma event_sessions:
  assumes w: "sound E good I lp w P" and e: "enabled lp e w" and call: "perform E U lp e w = Some w'"
  shows "wsi_of w' = sessions_after e (wsi_of w)"
proof
  fix d
  from event_ok [OF w e] call obtain P'
    where w': "sound E good I lp w' P'" and dom: "dom P' = open_after e (dom P)" and g: "grows w P w' P'" by auto
  have closed: "d \<notin> dom P \<Longrightarrow> wsi_of w d = None" "d \<notin> dom P' \<Longrightarrow> wsi_of w' d = None"
    using sound_dom [OF w] sound_dom [OF w'] by (auto simp: wsi_of_def domIff)
  consider "d \<in> dom P" "d \<in> dom P'" | "d \<notin> dom P'" | "d \<notin> dom P" "d \<in> dom P'" by blast
  then show "wsi_of w' d = sessions_after e (wsi_of w) d"
  proof cases
    case 1
    have "inv E w P" using w by (simp add: sound_def)
    then obtain s where s: "wsi_of w d = Some s" using 1(1) by (rule inv_conn)
    with 1 g have "wsi_of w' d = Some s" unfolding grows_def by blast
    with s 1 dom e sound_dom [OF w] show ?thesis by (cases e) auto
  next
    case 2
    with dom closed show ?thesis by (cases "d \<in> dom P"; cases e) auto
  next
    case 3
    with dom obtain s where "e = Established d s" by (cases e) auto
    with established_wsi [OF w] call e show ?thesis by simp
  qed
qed

lemma received_invalid:
  assumes w: "sound E good I lp w P" and c: "c \<in> dom P" and load: "json_loadb E (clock w) input = NULL"
  shows "\<exists>ss. steps E U lp w [Received c input]
    (w\<lparr>clock := Suc (clock w), lws_log := lws_log w @ map On_writable ss\<rparr>)"
proof -
  have inv: "inv E w P" and e: "enabled lp (Received c input) w"
    using w c sound_dom [OF w] by (simp_all add: sound_def)
  from inv c obtain s where s: "wsi_of w c = Some s" by (rule inv_conn)
  let ?w1 = "w\<lparr>clock := Suc (clock w)\<rparr>"
  have m: "models E ?w1 P" by (rule models_frame [OF inv_models [OF inv]]) (simp_all add: queues_def)
  have "jrpc_protocol_process E U (lp_user lp) (Some c) input w = Some ?w1"
    using load by (intro process_drops_all) simp
  with s request_writeable_eq [OF m c, of s]
  have "perform E U lp (Received c input) w = Some (w\<lparr>clock := Suc (clock w),
      lws_log := lws_log w @ map On_writable (if P c = Some [] then [] else [s])\<rparr>)"
    by (simp add: callback_for_def jrpc_protocol_callback_def Let_def)
  then show ?thesis using steps_Cons [OF e _ steps_Nil] by blast
qed

lemma run_event:
  assumes "sound E good I lp w P" and "enabled lp e w"
  shows "\<exists>w' P'. steps E U lp w [e] w' \<and> sound E good I lp w' P' \<and> dom P' = open_after e (dom P)"
  using event_ok [OF assms] steps_Cons [OF assms(2) _ steps_Nil] by blast

section \<open>Every run\<close>

theorem steps_sound:
  "steps E U lp w es w' \<Longrightarrow> sound E good I lp w P \<Longrightarrow> \<exists>P'. sound E good I lp w' P'"
proof (induction arbitrary: P rule: steps.induct)
  case (steps_Cons e w w1 es w2)
  from event_ok [OF steps_Cons.prems steps_Cons.hyps(1)] steps_Cons.hyps(2)
  obtain P1 where "sound E good I lp w1 P1" by auto
  then show ?case by (rule steps_Cons.IH)
qed blast

theorem steps_grow:
  "steps E U lp w es w' \<Longrightarrow> sound E good I lp w P \<Longrightarrow> P c = Some ts \<Longrightarrow> wsi_of w c = Some s \<Longrightarrow>
   Closed c \<notin> set es \<Longrightarrow> sound E good I lp w' P' \<Longrightarrow>
   \<exists>ts'. P' c = Some ts' \<and> wsi_of w' c = Some s \<and> prefix (sent_to s ts w) (sent_to s ts' w')"
proof (induction arbitrary: P ts rule: steps.induct)
  case (steps_Nil w)
  then have "P = P'"
    by (auto simp: sound_def dest!: inv_models intro: models_unique)
  with steps_Nil show ?case by simp
next
  case (steps_Cons e w w1 es w2)
  from event_ok [OF steps_Cons.prems(1) steps_Cons.hyps(1)] steps_Cons.hyps(2)
  obtain P1 where P1: "sound E good I lp w1 P1" "dom P1 = open_after e (dom P)" "grows w P w1 P1"
    by auto
  have "c \<in> dom P1"
    using steps_Cons.prems(2,4) P1(2) by (cases e) auto
  then obtain ts1 where ts1: "P1 c = Some ts1" by blast
  with P1(3) steps_Cons.prems(2,3) have 1: "wsi_of w1 c = Some s" "prefix (sent_to s ts w) (sent_to s ts1 w1)"
    unfolding grows_def by blast+
  from steps_Cons.IH [OF P1(1) ts1 1(1) _ steps_Cons.prems(5)] steps_Cons.prems(4) 1(2) show ?case
    by (auto intro: prefix_order.trans)
qed

theorem drain:
  assumes "sound E good I lp w P" and "wsi_of w c = Some s" and "P c = Some ts"
  shows "\<exists>w'. steps E U lp w (replicate (length ts) (Can_write c)) w' \<and>
    sound E good I lp w' (P(c \<mapsto> [])) \<and> written s (lws_log w') = written s (lws_log w) @ ts"
  using assms
proof (induction ts arbitrary: w P)
  case Nil
  then have "P(c \<mapsto> []) = P" by auto
  with Nil show ?case by (auto intro: steps_Nil)
next
  case (Cons t ts)
  from can_write_exact [OF Cons.prems] obtain w1
    where 1: "perform E U lp (Can_write c) w = Some w1" "sound E good I lp w1 (P(c \<mapsto> ts))"
      "lws_log w1 = lws_log w @ writeable_events s (t # ts)" "wsi_of w1 c = Some s"
    using Cons.prems(2) by auto
  have e: "enabled lp (Can_write c) w"
    using Cons.prems(2) by (auto simp: wsi_of_def Option.bind_eq_Some_conv)
  have P': "(P(c \<mapsto> ts))(c \<mapsto> []) = P(c \<mapsto> [])" by simp
  from Cons.IH [OF 1(2,4) fun_upd_same, unfolded P'] obtain w'
    where "steps E U lp w1 (replicate (length ts) (Can_write c)) w'" "sound E good I lp w' (P(c \<mapsto> []))"
      "written s (lws_log w') = written s (lws_log w1) @ ts"
    by blast
  moreover from steps_Cons [OF e 1(1) this(1)]
  have "steps E U lp w (replicate (length (t # ts)) (Can_write c)) w'" by simp
  ultimately show ?case
    using 1(3) by (simp add: written_writeable_events del: fun_upd_apply) blast
qed

theorem fresh_sound: "fresh_server good lp w \<Longrightarrow> I w {} \<Longrightarrow> sound E good I lp w Map.empty"
  by (simp add: sound_def fresh_server_def inv_empty)

end

lemma sound_models: "sound E good I lp w P \<Longrightarrow> models E w P"
  by (simp add: sound_def inv_models)

lemma sound_no_leak: "sound E good I lp w P \<Longrightarrow> conns w = Map.empty \<Longrightarrow> blocks w = Map.empty"
  by (auto simp: sound_def inv_def models_def owns_def)

lemma enabled_session:
  assumes "sound E good I lp w P" and "c \<in> dom P"
  shows "enabled lp (Can_write c) w" and "enabled lp (Received c input) w" and "enabled lp (Closed c) w"
    and "enabled lp (Respond c result i) w"
  using assms(2) sound_dom [OF assms(1)] by simp_all

lemma steps_append: "steps E U lp w es w' \<Longrightarrow> steps E U lp w' es' w'' \<Longrightarrow> steps E U lp w (es @ es') w''"
  by (induction rule: steps.induct) (auto intro: steps_Cons)

section \<open>Properties\<close>

text \<open>A server without sessions, with the default handlers.\<close>

definition no_clients :: "nat set \<Rightarrow> pheap" where
  "no_clients bad = (two_clients bad)\<lparr>conns := Map.empty\<rparr>"

lemma no_clients_fresh: "fresh_server default_protocol example_lws (no_clients bad)"
  using two_clients_configured [of bad]
  by (simp add: fresh_server_def no_clients_def example_lws_def configured_def)
     (simp add: two_clients_def open_session_def)

lemma example_run:
  obtains w P s ts where "steps ref_env U example_lws (no_clients {}) [Established 0 5] w"
    and "sound ref_env default_protocol (\<lambda>_ _. True) example_lws w P" and "dom P = {0}"
    and "P 0 = Some ts" and "wsi_of w 0 = Some s"
proof -
  note W = ref.default_handlers [of U]
  have e: "enabled example_lws (Established 0 5) (no_clients {})"
    by (simp add: no_clients_def wsi_of_def)
  have fresh: "sound ref_env default_protocol (\<lambda>_ _. True) example_lws (no_clients {}) Map.empty"
    using W no_clients_fresh by (rule wired_handlers.fresh_sound) simp
  from wired_handlers.run_event [OF W fresh e] obtain w P
    where run: "steps ref_env U example_lws (no_clients {}) [Established 0 5] w"
      and w: "sound ref_env default_protocol (\<lambda>_ _. True) example_lws w P" and dom: "dom P = {0}"
    by auto
  have "inv ref_env w P" "0 \<in> dom P" using w dom by (simp_all add: sound_def)
  then obtain s where "wsi_of w 0 = Some s" by (rule inv_conn)
  with run w dom that show ?thesis by blast
qed

text \<open>C1. A server never goes wrong, whatever happens to it: in every state that it can reach by
  the events of the loop (any sessions, any bytes received, any order of callbacks, wakeups and
  calls of the library by the application, any pattern of allocation failures), the next call into
  the library returns and is defined (no null, dangling or uninitialised pointer is used, nothing
  is freed twice, no buffer is overrun, no loop or read hangs), provided that the user's handlers
  keep their contract; and every message of the store is then waiting on exactly one open connection.\<close>

theorem loop_never_undefined:
  assumes W: "wired_handlers E U good I" and fresh: "fresh_server good lp w0" and I: "I w0 {}"
    and run: "steps E U lp w0 es w" and e: "enabled lp e w"
  shows "\<exists>w'. perform E U lp e w = Some w' \<and> (\<exists>P. inv E w' P)"
proof -
  from wired_handlers.steps_sound [OF W run wired_handlers.fresh_sound [OF W fresh I]] obtain P
    where "sound E good I lp w P" by blast
  from wired_handlers.event_ok [OF W this e] show ?thesis
    by (auto simp: sound_def)
qed

theorem loop_never_undefined_witness:
  "\<exists>w'. perform ref_env idle_user example_lws (Established 0 5) (no_clients {2, 3}) = Some w' \<and> (\<exists>P. inv ref_env w' P)"
proof (rule loop_never_undefined [OF ref.default_handlers no_clients_fresh _ steps_Nil])
  show "enabled example_lws (Established 0 5) (no_clients {2, 3})"
    by (simp add: no_clients_def wsi_of_def)
qed simp

text \<open>C4. Delivery in order: as long as a connection stays open, the texts written to its websocket
  followed by those still waiting only ever grow at the end. So nothing that was sent is lost,
  duplicated, reordered or given to another connection, and what has been written is at all times a
  prefix of what was sent.\<close>

theorem loop_delivers_in_order:
  assumes W: "wired_handlers E U good I" and fresh: "fresh_server good lp w0" and I: "I w0 {}"
    and run: "steps E U lp w0 es w" and more: "steps E U lp w es' w'" and "Closed c \<notin> set es'"
    and P: "models E w P" "P c = Some ts" "wsi_of w c = Some s" and P': "models E w' P'"
  shows "\<exists>ts'. P' c = Some ts' \<and> wsi_of w' c = Some s \<and>
    prefix (written s (lws_log w) @ ts) (written s (lws_log w') @ ts')"
proof -
  from wired_handlers.steps_sound [OF W run wired_handlers.fresh_sound [OF W fresh I]] obtain Q
    where Q: "sound E good I lp w Q" by blast
  from wired_handlers.steps_sound [OF W more Q] obtain Q' where Q': "sound E good I lp w' Q'" by blast
  have "Q = P" "Q' = P'"
    using models_unique [OF sound_models [OF Q] P(1)] models_unique [OF sound_models [OF Q'] P'] by simp_all
  with wired_handlers.steps_grow [OF W more Q _ P(3) assms(6) Q'] P(2) show ?thesis
    by (auto simp: sent_to_def)
qed

theorem loop_delivers_in_order_witness:
  "\<exists>w w' P P' s ts ts'. steps ref_env idle_user example_lws (no_clients {}) [Established 0 5] w \<and>
    steps ref_env idle_user example_lws w [Respond 0 (Some (JInt 1)) 2] w' \<and>
    models ref_env w P \<and> models ref_env w' P' \<and> P 0 = Some ts \<and> P' 0 = Some ts' \<and>
    wsi_of w 0 = Some s \<and> prefix (written s (lws_log w) @ ts) (written s (lws_log w') @ ts')"
proof -
  obtain w P s ts where run: "steps ref_env idle_user example_lws (no_clients {}) [Established 0 5] w"
    and w: "sound ref_env default_protocol (\<lambda>_ _. True) example_lws w P"
    and P: "P 0 = Some ts" and s: "wsi_of w 0 = Some s"
    by (rule example_run)
  have "0 \<in> dom P" using P by blast
  from wired_handlers.run_event [OF ref.default_handlers w enabled_session(4) [OF w this]]
  obtain w' P' where more: "steps ref_env idle_user example_lws w [Respond 0 (Some (JInt 1)) 2] w'"
    and w': "sound ref_env default_protocol (\<lambda>_ _. True) example_lws w' P'"
    by blast
  have m: "models ref_env w P" "models ref_env w' P'"
    using w w' by (simp_all add: sound_models)
  from loop_delivers_in_order [OF ref.default_handlers no_clients_fresh TrueI run more _ m(1) P s m(2)]
  show ?thesis using run more m P s by fastforce
qed

text \<open>C11. Every message is written in the end: whenever a connection has waiting texts, a writeable
  callback has been requested for its websocket, and as many writeable callbacks as there
  are texts write all of them, in order, and leave nothing waiting.\<close>

theorem loop_drains:
  assumes W: "wired_handlers E U good I" and fresh: "fresh_server good lp w0" and I: "I w0 {}"
    and run: "steps E U lp w0 es w" and P: "models E w P" "P c = Some ts" "wsi_of w c = Some s"
  shows "(ts \<noteq> [] \<longrightarrow> wants s (lws_log w)) \<and>
    (\<exists>w'. steps E U lp w (replicate (length ts) (Can_write c)) w' \<and>
       written s (lws_log w') = written s (lws_log w) @ ts \<and> models E w' (P(c \<mapsto> [])))"
proof -
  from wired_handlers.steps_sound [OF W run wired_handlers.fresh_sound [OF W fresh I]] obtain Q
    where Q: "sound E good I lp w Q" by blast
  then have "Q = P"
    using models_unique [OF sound_models P(1)] by blast
  with Q have P': "sound E good I lp w P" by simp
  then have "wants s (lws_log w)" if "ts \<noteq> []"
    using that P(2,3) inv_wants by (cases ts) (auto simp: sound_def)
  with wired_handlers.drain [OF W P' P(3,2)] show ?thesis
    by (auto simp: sound_def dest: inv_models)
qed

theorem loop_drains_witness:
  "\<exists>w w' P s ts. steps ref_env idle_user example_lws (no_clients {}) [Established 0 5] w \<and>
    steps ref_env idle_user example_lws w (replicate (length ts) (Can_write 0)) w' \<and>
    models ref_env w' (P(0 \<mapsto> [])) \<and> written s (lws_log w') = written s (lws_log w) @ ts"
proof -
  obtain w P s ts where run: "steps ref_env idle_user example_lws (no_clients {}) [Established 0 5] w"
    and w: "sound ref_env default_protocol (\<lambda>_ _. True) example_lws w P"
    and P: "P 0 = Some ts" and s: "wsi_of w 0 = Some s"
    by (rule example_run)
  have m: "models ref_env w P"
    using w by (rule sound_models)
  from loop_drains [OF ref.default_handlers no_clients_fresh TrueI run m P s] show ?thesis
    using run by blast
qed

text \<open>C18. No leak: when all sessions of a run have been closed, no message block is left in the
  store, in particular none that was queued for a client that never read it.\<close>

theorem loop_no_leak:
  assumes W: "wired_handlers E U good I" and fresh: "fresh_server good lp w0" and I: "I w0 {}"
    and run: "steps E U lp w0 es w" and "conns w = Map.empty"
  shows "blocks w = Map.empty"
proof -
  from wired_handlers.steps_sound [OF W run wired_handlers.fresh_sound [OF W fresh I]] obtain P
    where "sound E good I lp w P" by blast
  then show ?thesis using assms(5) by (rule sound_no_leak)
qed

theorem loop_no_leak_witness:
  "\<exists>w. steps ref_env idle_user example_lws (no_clients {}) [Established 0 5, Closed 0] w \<and> blocks w = Map.empty"
proof -
  obtain w P s ts where run: "steps ref_env idle_user example_lws (no_clients {}) [Established 0 5] w"
    and w: "sound ref_env default_protocol (\<lambda>_ _. True) example_lws w P"
    and dom: "dom P = {0}" and P: "P 0 = Some ts"
    by (rule example_run)
  have "0 \<in> dom P" using P by blast
  from wired_handlers.run_event [OF ref.default_handlers w enabled_session(3) [OF w this]]
  obtain w' P' where more: "steps ref_env idle_user example_lws w [Closed 0] w'"
    and w': "sound ref_env default_protocol (\<lambda>_ _. True) example_lws w' P'"
    and dom': "dom P' = open_after (Closed 0 :: json event) (dom P)"
    by blast
  have run': "steps ref_env idle_user example_lws (no_clients {}) ([Established 0 5] @ [Closed 0]) w'"
    using run more by (rule steps_append)
  have "conns w' = Map.empty"
    using sound_dom [OF w'] dom' dom by (metis Diff_cancel dom_eq_empty_conv open_after.simps(2))
  from loop_no_leak [OF ref.default_handlers no_clients_fresh TrueI run' this] show ?thesis
    using run' by auto
qed

text \<open>C36. Fragments are not put together: a message that libwebsockets delivers in two parts, neither of
  which is a JSON text of its own, is dropped without a trace. No handler is called, nothing is sent, and but
  for the allocation counter and requests for writeable callbacks the state stays the same,
  although the message as a whole may be a request that has to be answered.\<close>

theorem fragments_dropped:
  assumes W: "wired_handlers E U good I" and fresh: "fresh_server good lp w0" and I: "I w0 {}"
    and run: "steps E U lp w0 es w" and c: "c \<in> dom (conns w)"
    and parts: "\<forall>n. json_loadb E n x = NULL" "\<forall>n. json_loadb E n y = NULL"
  shows "\<exists>ss. steps E U lp w [Received c x, Received c y]
    (w\<lparr>clock := clock w + 2, lws_log := lws_log w @ map On_writable ss\<rparr>)"
proof -
  from wired_handlers.steps_sound [OF W run wired_handlers.fresh_sound [OF W fresh I]] obtain P
    where P: "sound E good I lp w P" by blast
  then have c': "c \<in> dom P" using c sound_dom by blast
  from wired_handlers.received_invalid [OF W P c'] parts(1) obtain ss
    where 1: "steps E U lp w [Received c x] (w\<lparr>clock := Suc (clock w), lws_log := lws_log w @ map On_writable ss\<rparr>)"
      (is "steps _ _ _ _ _ ?w1") by blast
  from wired_handlers.steps_sound [OF W 1 P] obtain P1 where P1: "sound E good I lp ?w1 P1" by blast
  have "c \<in> dom P1" using c sound_dom [OF P1] by simp
  from wired_handlers.received_invalid [OF W P1 this] parts(2) obtain ss'
    where "steps E U lp ?w1 [Received c y]
      (?w1\<lparr>clock := Suc (clock ?w1), lws_log := lws_log ?w1 @ map On_writable ss'\<rparr>)" by blast
  from steps_append [OF 1 this] show ?thesis by (intro exI [of _ "ss @ ss'"]) (simp add: record_layers)
qed

text \<open>The request \<open>{"method":"add","params":[1],"id":7}\<close>, split behind the first brace.\<close>

theorem fragments_dropped_witness:
  "\<exists>w ss. steps ref_env idle_user example_lws (no_clients {}) [Established 0 5] w \<and>
    json_loadb ref_env (clock w) (''{'' @ tl (print_json example_request)) = Some example_request \<and>
    rpc_id ref_env example_request = Some 7 \<and>
    steps ref_env idle_user example_lws w [Received 0 ''{'', Received 0 (tl (print_json example_request))]
      (w\<lparr>clock := clock w + 2, lws_log := lws_log w @ map On_writable ss\<rparr>)"
proof -
  obtain w P s ts where run: "steps ref_env idle_user example_lws (no_clients {}) [Established 0 5] w"
    and w: "sound ref_env default_protocol (\<lambda>_ _. True) example_lws w P" and P: "P 0 = Some ts"
    by (rule example_run)
  have c: "0 \<in> dom (conns w)" using P sound_dom [OF w] by blast
  have parts: "\<forall>n. json_loadb ref_env n ''{'' = NULL" "\<forall>n. json_loadb ref_env n (tl (print_json example_request)) = NULL"
    unfolding example_request_text by (simp_all add: ref_env_def ref_loadb_def)
  have "''{'' @ tl (print_json example_request) = print_json example_request"
    unfolding example_request_text by simp
  then have "json_loadb ref_env (clock w) (''{'' @ tl (print_json example_request)) = Some example_request"
    using ref_load_print [of example_request] by (simp add: ref_env_def example_request_def is_container_def)
  moreover have "rpc_id ref_env example_request = Some 7"
    by (simp add: rpc_id_def ref_env_def ref_get_def example_request_def json_to_int_def)
  ultimately show ?thesis
    using fragments_dropped [OF ref.default_handlers no_clients_fresh TrueI run c parts] run by blast
qed

end
