(* ===== verification/Jrpc_Run.thy ===== *)
theory Jrpc_Run
  imports Jrpc_Config Jrpc_Loop
begin

text \<open>
  Running a server (\<open>jrpc_server_run\<close> and \<open>jrpc_server_create_context\<close> of \<open>lib/jrpc/server.c\<close>):
  what the configuration makes libwebsockets serve, that the context is created once, and the
  step from a created server to the event loop of \<open>Jrpc_Loop\<close>.
\<close>

section \<open>What is served\<close>

text \<open>libwebsockets reads the protocols from \<open>info.protocols\<close> up to the first without a name.\<close>

definition offered :: "lws_context_creation_info \<Rightarrow> lws_protocols list \<Rightarrow> lws_protocols list" where
  "offered info ps = takeWhile (\<lambda>p. lp_name p \<noteq> NULL) (drop (i_protocols info) ps)"

definition http_protocol :: lws_protocols where
  "http_protocol = \<lparr>lp_name = Some (Literal ''http''), lp_callback = Some Lws_callback_http_dummy,
     lp_per_session_data_size = 0, lp_user = NULL\<rparr>"

definition json_rpc_protocol :: "addr \<Rightarrow> addr \<Rightarrow> lws_protocols" where
  "json_rpc_protocol a name = \<lparr>lp_name = Some (At name), lp_callback = Some Jrpc_protocol_callback,
     lp_per_session_data_size = sizeof_jrpc_connection, lp_user = Some a\<rparr>"

lemma server_protocols_eq:
  "server_protocols a s =
     [http_protocol,
      zero_lws_protocols\<lparr>lp_name := map_option At (s_protocol_name s), lp_callback := Some Jrpc_protocol_callback,
        lp_per_session_data_size := sizeof_jrpc_connection, lp_user := Some a\<rparr>,
      zero_lws_protocols]"
  by (simp add: server_protocols_def http_protocol_def jrpc_protocol_init_lws_def zero_lws_protocols_def
      eval_nat_numeral Let_def)

text \<open>C38. What libwebsockets is told to serve is what was configured: the port; HTTP (the protocol
  \<open>http\<close> and a mount of the document root at \<open>/\<close>) exactly when a document root is set; JSON-RPC
  under the configured protocol name, with the library's callback and the server as its user data;
  TLS exactly when both the certificate and the key are set, with these two paths and with none
  otherwise.\<close>

theorem context_reflects_config:
  assumes "servers w a = Some s"
  shows "\<exists>s1 info ps m. jrpc_server_create_context L (Some a) w
      = lws_create_context L a (w\<lparr>servers := (servers w)(a \<mapsto> s1)\<rparr>) \<and>
    s_info s1 = Some info \<and> s_ws_protocols s1 = Some ps \<and> s_mount s1 = Some m \<and> i_port info = s_port s \<and>
    offered info ps = (if s_document_root s = NULL then [] else [http_protocol]) @
      (case s_protocol_name s of NULL \<Rightarrow> [] | Some name \<Rightarrow> [json_rpc_protocol a name]) \<and>
    (i_mounts info \<longleftrightarrow> s_document_root s \<noteq> NULL) \<and> m_mountpoint m = ''/'' \<and>
    m_origin m = map_option At (s_document_root s) \<and>
    (LWS_SERVER_OPTION_DO_SSL_GLOBAL_INIT \<in> i_options info \<longleftrightarrow> s_cert_path s \<noteq> NULL \<and> s_key_path s \<noteq> NULL) \<and>
    (i_ssl_cert_filepath info, i_ssl_private_key_filepath info) =
      (if LWS_SERVER_OPTION_DO_SSL_GLOBAL_INIT \<in> i_options info
       then (map_option At (s_cert_path s), map_option At (s_key_path s)) else (NULL, NULL))"
proof -
  let ?s1 = "s\<lparr>s_ws_protocols := Some (server_protocols a s), s_mount := Some (server_mount s),
    s_info := Some (server_info s)\<rparr>"
  have "jrpc_server_create_context L (Some a) w = lws_create_context L a (w\<lparr>servers := (servers w)(a \<mapsto> ?s1)\<rparr>)"
    using assms by (simp add: jrpc_server_create_context_def)
  moreover have "offered (server_info s) (server_protocols a s) =
      (if s_document_root s = NULL then [] else [http_protocol]) @
      (case s_protocol_name s of NULL \<Rightarrow> [] | Some name \<Rightarrow> [json_rpc_protocol a name])"
    by (simp add: offered_def server_protocols_eq server_info_def Let_def http_protocol_def
        json_rpc_protocol_def zero_lws_protocols_def split: option.split)
  ultimately show ?thesis
    by (intro exI [of _ ?s1] exI [of _ "server_info s"] exI [of _ "server_protocols a s"]
        exI [of _ "server_mount s"] conjI)
       (simp_all add: server_info_def server_mount_def Let_def)
qed

text \<open>A server with a document root.\<close>

definition example_server :: "nat set \<Rightarrow> sheap" where
  "example_server bad = (example_heap bad)\<lparr>clock := 9, cstrs := [2 \<mapsto> ''jrpc'', 5 \<mapsto> ''www''],
     servers := [0 \<mapsto> (created_server (Some 2))\<lparr>s_document_root := Some 5\<rparr>]\<rparr>"

theorem context_reflects_config_witness:
  "\<exists>s1 info ps. jrpc_server_create_context example_api (Some 0) (example_server {})
      = lws_create_context example_api 0 ((example_server {})\<lparr>servers := [0 \<mapsto> s1]\<rparr>) \<and>
    s_info s1 = Some info \<and> s_ws_protocols s1 = Some ps \<and> i_port info = 8080 \<and>
    offered info ps = [http_protocol, json_rpc_protocol 0 2]"
proof -
  have "servers (example_server {}) 0 = Some ((created_server (Some 2))\<lparr>s_document_root := Some 5\<rparr>)"
    by (simp add: example_server_def)
  from context_reflects_config [OF this, of example_api] show ?thesis
    by (fastforce simp: created_server_def example_server_def)
qed

section \<open>The context\<close>

lemma run_with_context:
  "servers w a = Some s \<Longrightarrow> s_context s = Some ctx \<Longrightarrow> jrpc_server_run L (Some a) t w = lws_service L ctx t w"
  by (simp add: jrpc_server_run_def)

text \<open>Calling \<open>jrpc_server_run\<close> in a loop creates the context once: when the creation succeeds
  and libwebsockets leaves the server's \<open>context\<close> alone while it serves, \<open>n + 1\<close> runs are one
  creation followed by \<open>n + 1\<close> calls of \<open>lws_service\<close> on that context.\<close>

theorem run_creates_context_once:
  assumes s: "servers w a = Some s" and none: "s_context s = NULL"
    and create: "jrpc_server_create_context L (Some a) w = Some (Some ctx, w1)"
    and s1: "servers w1 a = Some s1"
    and service: "\<forall>w w'. lws_service L ctx t w = Some w' \<longrightarrow>
      map_option s_context (servers w' a) = map_option s_context (servers w a)"
  shows "repeat_call (Suc n) (jrpc_server_run L (Some a) t) w =
    repeat_call (Suc n) (lws_service L ctx t) (w1\<lparr>servers := (servers w1)(a \<mapsto> s1\<lparr>s_context := Some ctx\<rparr>)\<rparr>)"
proof -
  let ?w1 = "w1\<lparr>servers := (servers w1)(a \<mapsto> s1\<lparr>s_context := Some ctx\<rparr>)\<rparr>"
  have first: "jrpc_server_run L (Some a) t w = lws_service L ctx t ?w1"
    using s none create s1 by (simp add: jrpc_server_run_def)
  have later: "repeat_call n (jrpc_server_run L (Some a) t) x = repeat_call n (lws_service L ctx t) x"
    if "map_option s_context (servers x a) = Some (Some ctx)" for n x
    using that
  proof (induction n arbitrary: x)
    case (Suc n)
    then obtain sx where "servers x a = Some sx" "s_context sx = Some ctx" by auto
    then have run: "jrpc_server_run L (Some a) t x = lws_service L ctx t x"
      by (rule run_with_context)
    show ?case
    proof (cases "lws_service L ctx t x")
      case (Some y)
      with service Suc.prems have "map_option s_context (servers y a) = Some (Some ctx)"
        by metis
      with Suc.IH run Some show ?thesis by simp
    qed (simp add: run)
  qed simp
  show ?thesis
  proof (cases "lws_service L ctx t ?w1")
    case (Some y)
    have "map_option s_context (servers y a) = map_option s_context (servers ?w1 a)"
      using service Some by blast
    then have "map_option s_context (servers y a) = Some (Some ctx)"
      by simp
    with first Some later [of y n] show ?thesis by simp
  qed (simp add: first)
qed

theorem run_creates_context_once_witness:
  "\<exists>w1. repeat_call 3 (jrpc_server_run example_api (Some 0) 100) (example_server {}) =
      repeat_call 3 (lws_service example_api 9 100) w1 \<and> map_option s_context (servers w1 0) = Some (Some 9)"
proof -
  let ?s = "(created_server (Some 2))\<lparr>s_document_root := Some 5\<rparr>"
  have s: "servers (example_server {}) 0 = Some ?s" by (simp add: example_server_def)
  have ctx: "s_context ?s = NULL" by (simp add: created_server_def)
  obtain w1 s1 where create: "jrpc_server_create_context example_api (Some 0) (example_server {}) = Some (Some 9, w1)"
    and s1: "servers w1 0 = Some s1"
    by (simp add: jrpc_server_create_context_def s example_api_def malloc_def)
       (simp add: example_server_def)
  have "\<forall>w w'. lws_service example_api 9 100 w = Some w' \<longrightarrow>
      map_option s_context (servers w' 0) = map_option s_context (servers w 0)"
    by (simp add: example_api_def)
  from run_creates_context_once [OF s ctx create s1 this, of 2] show ?thesis
    by (auto simp: eval_nat_numeral simp del: repeat_call.simps)
qed

text \<open>A failure to create the context is survived: the run returns without serving, the server
  has no context, and the next run tries again with the same configuration.\<close>

theorem run_retries_context:
  assumes s: "servers w a = Some s" and none: "s_context s = NULL"
    and create: "jrpc_server_create_context L (Some a) w = Some (NULL, w1)"
    and s1: "servers w1 a = Some s1" "strs s1 = strs s" "s_port s1 = s_port s"
  shows "\<exists>w2 s2. jrpc_server_run L (Some a) t w = Some w2 \<and> servers w2 a = Some s2 \<and> s_context s2 = NULL \<and>
    strs s2 = strs s \<and> s_port s2 = s_port s \<and> server_info s2 = server_info s \<and> cstrs w2 = cstrs w1"
proof -
  have "server_info (s1\<lparr>s_context := NULL\<rparr>) = server_info s"
    using s1 by (simp add: server_info_def strs_def Let_def)
  then show ?thesis
    using s none create s1 by (simp add: jrpc_server_run_def strs_def)
qed

theorem run_retries_context_witness:
  "\<exists>w2 s2. jrpc_server_run example_api (Some 0) 100 (example_server {9}) = Some w2 \<and>
    servers w2 0 = Some s2 \<and> s_context s2 = NULL \<and> s_port s2 = 8080"
proof -
  let ?s = "(created_server (Some 2))\<lparr>s_document_root := Some 5\<rparr>"
  have s: "servers (example_server {9}) 0 = Some ?s" by (simp add: example_server_def)
  have ctx: "s_context ?s = NULL" by (simp add: created_server_def)
  obtain w1 s1 where create: "jrpc_server_create_context example_api (Some 0) (example_server {9}) = Some (NULL, w1)"
    and s1: "servers w1 0 = Some s1" "strs s1 = strs ?s" "s_port s1 = s_port ?s"
    by (simp add: jrpc_server_create_context_def s example_api_def malloc_def)
       (simp add: example_server_def strs_def)
  from run_retries_context [OF s ctx create s1, of 100] show ?thesis
    by (auto simp: created_server_def)
qed

section \<open>From creation to the loop\<close>

text \<open>A server that was just created is safe to run: with the default handlers and the protocol
  that \<open>jrpc_server_create_context\<close> hands to libwebsockets, every run of events from there on
  is without undefined behaviour, as long as no session has been opened before.\<close>

theorem created_server_safe:
  fixes w :: "'a sheap_scheme"
  assumes E: "jansson E" and w: "fresh_store w" and oom: "\<not> oom w (clock w)" "\<not> oom w (Suc (clock w))"
    and empty: "conns w = Map.empty" "blocks w = Map.empty"
  shows "\<exists>a w1 s. jrpc_server_create w = Some (Some a, w1) \<and> servers w1 a = Some s \<and>
    (\<forall>es w2 e. steps E U (server_protocols a s ! 1) w1 es w2 \<longrightarrow> enabled (server_protocols a s ! 1) e w2 \<longrightarrow>
       (\<exists>w3. perform E U (server_protocols a s ! 1) e w2 = Some w3))"
proof -
  from server_create_spec [OF w oom] obtain w1 s
    where create: "jrpc_server_create w = Some (Some (clock w), w1)" and s: "servers w1 (clock w) = Some s"
      and p: "protos w1 (clock w) = Some (created_protocol (clock w) (next_fd w))"
      and rest: "conns w1 = conns w" "blocks w1 = blocks w"
    by blast
  let ?lp = "server_protocols (clock w) s ! 1"
  have "lp_user ?lp = Some (clock w)"
    by (simp add: server_protocols_eq)
  with p rest empty have fresh: "fresh_server default_protocol ?lp w1"
    by (simp add: fresh_server_def configured_def default_protocol_def created_protocol_def wired_def)
  note W = jansson.default_handlers [OF E, of U]
  have "\<exists>w3. perform E U ?lp e w2 = Some w3" if run: "steps E U ?lp w1 es w2" and e: "enabled ?lp e w2" for es w2 e
  proof -
    from wired_handlers.steps_sound [OF W run wired_handlers.fresh_sound [OF W fresh TrueI]] obtain P
      where "sound E default_protocol (\<lambda>_ _. True) ?lp w2 P" by blast
    from wired_handlers.event_ok [OF W this e] show ?thesis by blast
  qed
  with create s show ?thesis by blast
qed

theorem created_server_safe_witness:
  "\<exists>a w1 s. jrpc_server_create (example_heap {}) = Some (Some a, w1) \<and> servers w1 a = Some s \<and>
    (\<forall>es w2 e. steps ref_env idle_user (server_protocols a s ! 1) w1 es w2 \<longrightarrow> enabled (server_protocols a s ! 1) e w2 \<longrightarrow>
       (\<exists>w3. perform ref_env idle_user (server_protocols a s ! 1) e w2 = Some w3))"
  by (rule created_server_safe [OF ref.jansson_axioms]) simp_all

end
