(* ===== verification/Jrpc_Chat.thy ===== *)
theory Jrpc_Chat
  imports Jrpc_Callback Jrpc_Server "HOL-Library.AList" "HOL-Library.Multiset"
begin

text \<open>
  The chat server (\<open>example/chat-server/main.cc\<close>): an application of the library, with its four
  handlers and the table of the participants. The table is a \<open>std::unordered_map\<close> from connections
  to chatters: an association list in the order in which the container is iterated. That order is
  unspecified; the field \<open>rehash\<close> of the environment, an arbitrary rearrangement, says what an
  insertion does to it. Allocation failures inside the C++ standard library, which throw, are not
  modelled.

  The interpretation at the end proves that the handlers keep the contract of \<open>Jrpc_Callback\<close>, with
  an invariant of their own: the table has exactly the open connections, and no two participants
  have the same name.
\<close>

section \<open>State\<close>

record chatter =
  chat_connection :: ptr
  chat_name :: string

type_synonym table = "(ptr \<times> chatter) list"

record chat_heap = sheap +
  chatters :: table
  is_shutdown_requested :: bool
  std_out :: string
  std_err :: string

text \<open>The functions of jansson for arrays, and the iteration order of the table.\<close>

record 'j chat_env = "'j env" +
  json_array :: "nat \<Rightarrow> 'j option"
  json_array_append_new :: "nat \<Rightarrow> 'j option \<Rightarrow> 'j option \<Rightarrow> 'j option"
  json_array_get :: "'j \<Rightarrow> nat \<Rightarrow> 'j option"
  rehash :: "table \<Rightarrow> table"

definition call_array_append_new ::
  "('j, 'e) chat_env_scheme \<Rightarrow> 'j option \<Rightarrow> 'j option \<Rightarrow> 'a jheap_scheme \<Rightarrow> 'j option \<times> 'a jheap_scheme" where
  "call_array_append_new E arr v w =
     (json_array_append_new E (clock w) arr v,
      w\<lparr>clock := Suc (clock w), json_refs := json_refs w - ref_count v\<rparr>)"

text \<open>\<open>chatters.insert\<close> changes nothing when the key is present.\<close>

definition table_insert :: "('j, 'e) chat_env_scheme \<Rightarrow> ptr \<Rightarrow> chatter \<Rightarrow> table \<Rightarrow> table" where
  "table_insert E k x xs = (if k \<in> set (map fst xs) then xs else rehash E ((k, x) # xs))"

section \<open>Operations\<close>

definition is_name_used :: "string \<Rightarrow> 'a chat_heap_scheme \<Rightarrow> bool" where
  "is_name_used name w \<longleftrightarrow> list_ex (\<lambda>item. chat_name (snd item) = name) (chatters w)"

text \<open>A range-based \<open>for\<close> over the table; the body does not change the table.\<close>

primrec for_each :: "('x \<Rightarrow> 'w \<Rightarrow> 'w option) \<Rightarrow> 'x list \<Rightarrow> 'w \<Rightarrow> 'w option" where
  "for_each f [] w = Some w"
| "for_each f (x # xs) w = do {
     w' \<leftarrow> f x w;
     for_each f xs w'
   }"

text \<open>The body of the loops of \<open>announce\<close> and \<open>chat\<close>: an array of two strings is sent.\<close>

definition notify_pair ::
  "('j, 'e) chat_env_scheme \<Rightarrow> string \<Rightarrow> string \<Rightarrow> string \<Rightarrow> ptr \<times> chatter \<Rightarrow> 'a chat_heap_scheme
     \<Rightarrow> 'a chat_heap_scheme option" where
  "notify_pair E name x y item w = (
     let actual = snd item;
         (params, w1) = call_new (json_array E) w;
         (s, w2) = call_new (\<lambda>t. json_string E t x) w1;
         (params, w3) = call_array_append_new E params s w2;
         (s, w4) = call_new (\<lambda>t. json_string E t y) w3;
         (params, w5) = call_array_append_new E params s w4
     in jrpc_notify E (chat_connection actual) name params w5)"

definition announce ::
  "('j, 'e) chat_env_scheme \<Rightarrow> string \<Rightarrow> string \<Rightarrow> 'a chat_heap_scheme \<Rightarrow> 'a chat_heap_scheme option" where
  "announce E what who w = for_each (notify_pair E ''announce'' what who) (chatters w) w"

text \<open>The reference \<open>chatter & who\<close> is the key \<open>k\<close> of the entry that it refers to.\<close>

definition set_name ::
  "('j, 'e) chat_env_scheme \<Rightarrow> ptr \<Rightarrow> 'j \<Rightarrow> c_int \<Rightarrow> 'a chat_heap_scheme \<Rightarrow> 'a chat_heap_scheme option" where
  "set_name E k params i w = do {
     who \<leftarrow> map_of (chatters w) k;
     (case json_array_get E params 0 of
        Some name_holder \<Rightarrow>
          if json_is_string E name_holder
          then (
            let name = json_string_value E name_holder
            in if \<not> is_name_used name w
               then do {
                 let w1 = w\<lparr>chatters := AList.update k (who\<lparr>chat_name := name\<rparr>) (chatters w)\<rparr>;
                 let (result, w2) = call_new (json_object E) w1;
                 let (s, w3) = call_new (\<lambda>t. json_string E t name) w2;
                 let (result, w4) = call_object_set_new E result ''name'' s w3;
                 w5 \<leftarrow> jrpc_respond E (chat_connection who) result i w4;
                 who' \<leftarrow> map_of (chatters w5) k;
                 announce E ''arrived'' (chat_name who') w5
               }
               else jrpc_respond_error E (chat_connection who) 1 ''name already used'' i w)
          else jrpc_respond_error E (chat_connection who) (-1) ''invalid params'' i w
      | NULL \<Rightarrow> jrpc_respond_error E (chat_connection who) (-1) ''invalid params'' i w)
   }"

definition onmethod ::
  "('j, 'e) chat_env_scheme \<Rightarrow> ptr \<Rightarrow> string \<Rightarrow> 'j \<Rightarrow> c_int \<Rightarrow> 'a chat_heap_scheme \<Rightarrow> 'a chat_heap_scheme option" where
  "onmethod E connection method_name params i w =
     (case map_of (chatters w) connection of
        Some who \<Rightarrow>
          if method_name = ''set_name'' then set_name E connection params i w
          else jrpc_respond_error E connection (-1) ''not implemented'' i w
      | None \<Rightarrow> jrpc_respond_error E connection (-1) ''invalid connection'' i w)"

definition chat ::
  "('j, 'e) chat_env_scheme \<Rightarrow> ptr \<Rightarrow> 'j \<Rightarrow> 'a chat_heap_scheme \<Rightarrow> 'a chat_heap_scheme option" where
  "chat E k params w = do {
     who \<leftarrow> map_of (chatters w) k;
     (case json_array_get E params 0 of
        Some message_holder \<Rightarrow>
          if json_is_string E message_holder
          then for_each (notify_pair E ''message'' (chat_name who) (json_string_value E message_holder)) (chatters w) w
          else Some w
      | NULL \<Rightarrow> Some w)
   }"

definition onnotify ::
  "('j, 'e) chat_env_scheme \<Rightarrow> ptr \<Rightarrow> string \<Rightarrow> 'j \<Rightarrow> 'a chat_heap_scheme \<Rightarrow> 'a chat_heap_scheme option" where
  "onnotify E connection method_name params w =
     (case map_of (chatters w) connection of
        Some who \<Rightarrow> if method_name = ''chat'' then chat E connection params w else Some w
      | None \<Rightarrow> Some w)"

definition onconnected ::
  "('j, 'e) chat_env_scheme \<Rightarrow> ptr \<Rightarrow> 'a chat_heap_scheme \<Rightarrow> 'a chat_heap_scheme option" where
  "onconnected E connection w =
     Some (w\<lparr>chatters := table_insert E connection \<lparr>chat_connection = connection, chat_name = []\<rparr> (chatters w)\<rparr>)"

definition ondisconnected ::
  "('j, 'e) chat_env_scheme \<Rightarrow> ptr \<Rightarrow> 'a chat_heap_scheme \<Rightarrow> 'a chat_heap_scheme option" where
  "ondisconnected E connection w =
     (case map_of (chatters w) connection of
        Some who \<Rightarrow> do {
          w' \<leftarrow> announce E ''gone'' (chat_name who) w;
          Some (w'\<lparr>chatters := AList.delete connection (chatters w')\<rparr>)
        }
      | None \<Rightarrow> Some w)"

text \<open>The handlers as the library calls them.\<close>

definition chat_user :: "('j, 'e) chat_env_scheme \<Rightarrow> ('j, 'a chat_heap_scheme) user_code" where
  "chat_user E =
     \<lparr>user_onmethod = (\<lambda>n. onmethod E), user_onnotify = (\<lambda>n. onnotify E),
      user_onconnected = (\<lambda>n. onconnected E), user_ondisconnected = (\<lambda>n. ondisconnected E)\<rparr>"

definition chat_protocol :: "jrpc_protocol \<Rightarrow> bool" where
  "chat_protocol p \<longleftrightarrow>
     p_onmethod p = Some (User_onmethod 0) \<and> p_onnotify p = Some (User_onnotify 0) \<and>
     p_onconnected p = Some (User_onconnected 0) \<and>
     p_ondisconnected p = Some (User_ondisconnected 0) \<and> wired p"

section \<open>The invariant of the table\<close>

text \<open>Names are pairwise different, but for the empty name that everybody has at first.\<close>

definition names_unique :: "table \<Rightarrow> bool" where
  "names_unique xs \<longleftrightarrow>
     (\<forall>k x k' x'. (k, x) \<in> set xs \<longrightarrow> (k', x') \<in> set xs \<longrightarrow> chat_name x = chat_name x' \<longrightarrow>
        chat_name x \<noteq> [] \<longrightarrow> k = k')"

definition table_ok :: "table \<Rightarrow> addr set \<Rightarrow> bool" where
  "table_ok xs C \<longleftrightarrow>
     distinct (map fst xs) \<and> set (map fst xs) = Some ` C \<and>
     (\<forall>k x. (k, x) \<in> set xs \<longrightarrow> chat_connection x = k) \<and> names_unique xs"

definition chat_inv :: "'a chat_heap_scheme \<Rightarrow> addr set \<Rightarrow> bool" where
  "chat_inv w C \<longleftrightarrow> table_ok (chatters w) C"

lemma table_lookup: "table_ok xs C \<Longrightarrow> map_of xs (Some c) = None \<longleftrightarrow> c \<notin> C"
  by (auto simp: table_ok_def map_of_eq_None_iff)

lemma table_connection: "table_ok xs C \<Longrightarrow> map_of xs k = Some x \<Longrightarrow> chat_connection x = k"
  by (auto simp: table_ok_def dest: map_of_SomeD)

lemma table_some:
  assumes "table_ok xs C" and "c \<in> C"
  shows "\<exists>who. map_of xs (Some c) = Some who \<and> chat_connection who = Some c"
  using table_lookup [OF assms(1), of c] table_connection [OF assms(1), of "Some c"] assms(2)
  by (cases "map_of xs (Some c)") auto

lemma table_entry:
  assumes "table_ok xs C" and "(k, x) \<in> set xs"
  shows "\<exists>c \<in> C. k = Some c \<and> chat_connection x = k"
proof -
  have "k \<in> set (map fst xs)" using assms(2) by force
  then show ?thesis using assms unfolding table_ok_def by blast
qed

lemma table_perm: "mset ys = mset xs \<Longrightarrow> table_ok ys C = table_ok xs C"
proof -
  assume eq: "mset ys = mset xs"
  then have "mset (map fst ys) = mset (map fst xs)" by simp
  then have "distinct (map fst ys) = distinct (map fst xs)" by (rule mset_eq_imp_distinct_iff)
  with mset_eq_setD [OF eq] show ?thesis
    by (simp add: table_ok_def names_unique_def)
qed

lemma table_new:
  assumes "table_ok xs C" and "c \<notin> C"
  shows "table_ok ((Some c, \<lparr>chat_connection = Some c, chat_name = []\<rparr>) # xs) (insert c C)"
  using assms unfolding table_ok_def names_unique_def by (auto 0 3)

lemma table_delete:
  assumes "table_ok xs C"
  shows "table_ok (AList.delete (Some c) xs) (C - {c})"
proof -
  have "set (AList.delete k xs) \<subseteq> set xs" for k
    by (auto simp: AList.delete_eq)
  then have sub: "\<And>k x. (k, x) \<in> set (AList.delete (Some c) xs) \<Longrightarrow> (k, x) \<in> set xs"
    by blast
  have keys: "set (map fst (AList.delete (Some c) xs)) = Some ` (C - {c})"
    using assms by (auto simp: AList.delete_keys table_ok_def image_iff)
  have "names_unique (AList.delete (Some c) xs)"
    using assms sub unfolding table_ok_def names_unique_def by blast
  then show ?thesis
    using assms sub keys by (auto simp: table_ok_def AList.distinct_delete)
qed

lemma table_rename:
  assumes ok: "table_ok xs C" and k: "map_of xs k = Some x"
    and new: "\<And>k' x'. (k', x') \<in> set xs \<Longrightarrow> chat_name x' \<noteq> name"
  shows "table_ok (AList.update k (x\<lparr>chat_name := name\<rparr>) xs) C"
proof -
  let ?ys = "AList.update k (x\<lparr>chat_name := name\<rparr>) xs"
  have dist: "distinct (map fst xs)" using ok by (simp add: table_ok_def)
  then have dist': "distinct (map fst ?ys)" by (rule AList.distinct_update)
  have k_in: "k \<in> set (map fst xs)" using k by (force dest: map_of_SomeD)
  have keys: "set (map fst ?ys) = set (map fst xs)"
    using k_in by (auto simp: AList.update_keys)
  have entries: "(k', x') \<in> set ?ys \<longleftrightarrow> (if k' = k then x' = x\<lparr>chat_name := name\<rparr> else (k', x') \<in> set xs)" for k' x'
  proof -
    have "(k', x') \<in> set ?ys \<longleftrightarrow> map_of ?ys k' = Some x'"
      using dist' by simp
    also have "\<dots> \<longleftrightarrow> (if k' = k then x' = x\<lparr>chat_name := name\<rparr> else map_of xs k' = Some x')"
      by (auto simp: AList.update_conv')
    finally show ?thesis using dist by simp
  qed
  have "chat_connection x = k" using ok k by (rule table_connection)
  moreover have "names_unique ?ys"
    unfolding names_unique_def entries
  proof (intro allI impI)
    fix a y a' y'
    assume 1: "if a = k then y = x\<lparr>chat_name := name\<rparr> else (a, y) \<in> set xs"
      "if a' = k then y' = x\<lparr>chat_name := name\<rparr> else (a', y') \<in> set xs"
      "chat_name y = chat_name y'" "chat_name y \<noteq> []"
    show "a = a'"
    proof (cases "a = k \<or> a' = k")
      case True
      with 1 new show ?thesis by (auto split: if_splits)
    next
      case False
      with 1 ok show ?thesis unfolding table_ok_def names_unique_def by (metis (full_types))
    qed
  qed
  ultimately show ?thesis
    using ok dist' keys unfolding table_ok_def entries by (simp split: if_splits)
qed

section \<open>The handlers keep the contract\<close>

text \<open>\<open>json_array\<close> gives NULL or an empty array; \<open>json_array_append_new\<close> refuses what is no array, and
  an array stays one whether or not the value could be added.\<close>

locale chat_jansson = jansson E for E :: "('j, 'e) chat_env_scheme" +
  assumes rehash_perm: "mset (rehash E xs) = mset xs"
    and array_new: "json_array E t = Some a \<Longrightarrow> json_is_array E a \<and> json_array_get E a n = NULL"
    and append_NULL: "json_array_append_new E t NULL v = NULL"
    and append_array: "json_is_array E a \<Longrightarrow>
      \<exists>a'. json_array_append_new E t (Some a) v = Some a' \<and> json_is_array E a'"

text \<open>The arrays that are sent.\<close>

definition pair_value :: "('j, 'e) chat_env_scheme \<Rightarrow> nat \<Rightarrow> string \<Rightarrow> string \<Rightarrow> 'j option" where
  "pair_value E t x y =
     json_array_append_new E (t + 4)
       (json_array_append_new E (t + 2) (json_array E t) (json_string E (t + 1) x))
       (json_string E (t + 3) y)"

lemma notify_pair_eq:
  "notify_pair E name x y item w =
     jrpc_notify E (chat_connection (snd item)) name (pair_value E (clock w) x y)
       (w\<lparr>clock := clock w + 5, json_refs := json_refs w + ref_count (json_array E (clock w))\<rparr>)"
  by (simp add: notify_pair_def call_new_def call_array_append_new_def pair_value_def Let_def numeral_eq_Suc)

text \<open>The result that \<open>set_name\<close> sends, and its run when the name is free.\<close>

definition name_value :: "('j, 'e) chat_env_scheme \<Rightarrow> nat \<Rightarrow> string \<Rightarrow> 'j option" where
  "name_value E t name =
     json_object_set_new E (t + 2) (json_object E t) ''name'' (json_string E (t + 1) name)"

definition renamed :: "ptr \<Rightarrow> chatter \<Rightarrow> string \<Rightarrow> table \<Rightarrow> table" where
  "renamed k who name xs = AList.update k (who\<lparr>chat_name := name\<rparr>) xs"

lemma map_of_renamed: "map_of (renamed k who name xs) = (map_of xs)(k \<mapsto> who\<lparr>chat_name := name\<rparr>)"
  by (simp add: renamed_def AList.update_conv' fun_eq_iff)

lemma set_name_run:
  assumes who: "map_of (chatters w) k = Some who"
    and h: "json_array_get E params 0 = Some h" "json_is_string E h"
    and new: "\<not> is_name_used (json_string_value E h) w"
  shows "set_name E k params i w = do {
    w' \<leftarrow> jrpc_respond E (chat_connection who) (name_value E (clock w) (json_string_value E h)) i
      (w\<lparr>chatters := renamed k who (json_string_value E h) (chatters w), clock := clock w + 3,
         json_refs := json_refs w + ref_count (json_object E (clock w))\<rparr>);
    who' \<leftarrow> map_of (chatters w') k;
    announce E ''arrived'' (chat_name who') w'
  }"
  using assms
  by (simp add: set_name_def call_new_def call_object_set_new_def name_value_def renamed_def Let_def numeral_eq_Suc)

lemma set_name_error:
  assumes "map_of (chatters w) k = Some who"
  shows "(\<And>h. json_array_get E params 0 = Some h \<Longrightarrow> \<not> json_is_string E h) \<Longrightarrow>
      set_name E k params i w = jrpc_respond_error E (chat_connection who) (-1) ''invalid params'' i w"
    and "json_array_get E params 0 = Some h \<Longrightarrow> json_is_string E h \<Longrightarrow> is_name_used (json_string_value E h) w \<Longrightarrow>
      set_name E k params i w = jrpc_respond_error E (chat_connection who) 1 ''name already used'' i w"
  using assms by (auto simp: set_name_def Let_def split: option.split)

lemma same_sessions_chatters: "same_sessions w w' \<Longrightarrow> chatters w' = chatters w"
  for w w' :: "'a chat_heap_scheme"
  using same_sessions_protos(3) [of w w'] by (cases w; cases w'; simp)

text \<open>A loop over library calls.\<close>

lemma for_each_quiet:
  assumes "\<And>x w P. x \<in> set xs \<Longrightarrow> inv E w P \<Longrightarrow> dom P = C \<Longrightarrow> \<exists>w' P'. f x w = Some w' \<and> quiet E w P w' P'"
    and "inv E w P" and "dom P = C"
  shows "\<exists>w' P'. for_each f xs w = Some w' \<and> quiet E w P w' P'"
  using assms
proof (induction xs arbitrary: w P)
  case Nil
  then show ?case by (auto intro: quiet_refl)
next
  case (Cons x xs)
  from Cons.prems(1) [of x w P] Cons.prems(2,3) obtain w1 P1
    where 1: "f x w = Some w1" "quiet E w P w1 P1" by auto
  from Cons.IH [of w1 P1] Cons.prems(1,3) quiet_inv [OF 1(2)] quiet_dom [OF 1(2)]
  obtain w2 P2 where "for_each f xs w1 = Some w2" "quiet E w1 P1 w2 P2" by auto
  with 1 show ?case by (auto intro: quiet_trans)
qed

context jansson
begin

lemma notify_quiet:
  assumes "inv E w P" and "c \<in> dom P"
  shows "\<exists>w' P'. jrpc_notify E (Some c) name params (w\<lparr>clock := clock w + n, json_refs := r\<rparr>) = Some w' \<and>
    quiet E w P w' P'"
proof -
  have 1: "quiet E w P (w\<lparr>clock := clock w + n, json_refs := r\<rparr>) P"
    using assms(1) by (rule quiet_calls)
  from notify_spec [OF quiet_inv [OF 1] assms(2), of name params] obtain w' P'
    where "jrpc_notify E (Some c) name params (w\<lparr>clock := clock w + n, json_refs := r\<rparr>) = Some w'"
      and "quiet E (w\<lparr>clock := clock w + n, json_refs := r\<rparr>) P w' P'"
    by (blast intro: sends_quiet)
  with 1 show ?thesis by (blast intro: quiet_trans)
qed

lemma respond_quiet:
  assumes "inv E w P" and "c \<in> dom P"
  shows "\<exists>w' P'. jrpc_respond E (Some c) result i (w\<lparr>clock := clock w + n, json_refs := r\<rparr>) = Some w' \<and>
    quiet E w P w' P'"
proof -
  have 1: "quiet E w P (w\<lparr>clock := clock w + n, json_refs := r\<rparr>) P"
    using assms(1) by (rule quiet_calls)
  from respond_spec [OF quiet_inv [OF 1] assms(2), of result i] obtain w' P'
    where "jrpc_respond E (Some c) result i (w\<lparr>clock := clock w + n, json_refs := r\<rparr>) = Some w'"
      and "quiet E (w\<lparr>clock := clock w + n, json_refs := r\<rparr>) P w' P'"
    by (blast intro: sends_quiet)
  with 1 show ?thesis by (blast intro: quiet_trans)
qed

lemma respond_error_quiet:
  assumes "inv E w P" and "c \<in> dom P"
  shows "\<exists>w' P'. jrpc_respond_error E (Some c) code s i w = Some w' \<and> quiet E w P w' P'"
  using respond_error_spec [OF assms] sends_quiet by blast

end

context chat_jansson
begin

lemma broadcast_quiet:
  assumes w: "inv E w P" and table: "table_ok (chatters w) (dom P)"
  shows "\<exists>w' P'. for_each (notify_pair E name x y) (chatters w) w = Some w' \<and> quiet E w P w' P'"
proof (rule for_each_quiet [OF _ w refl])
  fix item P1 and w1 :: "'b chat_heap_scheme"
  assume item: "item \<in> set (chatters w)" and inv: "inv E w1 P1" and dom: "dom P1 = dom P"
  obtain k u where ku: "item = (k, u)" by (cases item)
  from table_entry [OF table item [unfolded ku]] obtain c
    where conn: "chat_connection u = k" and k: "k = Some c" and c: "c \<in> dom P1"
    unfolding dom by blast
  show "\<exists>w' P'. notify_pair E name x y item w1 = Some w' \<and> quiet E w1 P1 w' P'"
    unfolding notify_pair_eq ku snd_conv conn k by (rule notify_quiet [OF inv c])
qed

lemma chat_handled:
  assumes "quiet E w P w' P'" and "chat_inv w C"
  shows "handled E good chat_inv C w P w' P'"
  using assms same_sessions_protos(1) [of w w'] same_sessions_chatters [of w w']
  by (simp add: quiet_def handled_def configured_def chat_inv_def)

lemma chatters_handled:
  assumes "inv E w P" and "table_ok xs C"
  shows "handled E good chat_inv C w P (w\<lparr>chatters := xs\<rparr>) P"
proof -
  have "inv E (w\<lparr>chatters := xs\<rparr>) P"
    using assms(1) by (rule inv_frame) simp_all
  moreover have "extends w P (w\<lparr>chatters := xs\<rparr>) P"
    by (auto simp: extends_def wsi_of_def fun_eq_iff intro: exI [of _ "[]"])
  ultimately show ?thesis
    using assms(2) by (simp add: handled_def configured_def chat_inv_def)
qed

lemma set_name_handled:
  assumes w: "inv E w P" and table: "chat_inv w (dom P)" and c: "c \<in> dom P"
  shows "\<exists>w' P'. set_name E (Some c) params i w = Some w' \<and> handled E good chat_inv (dom P) w P w' P'"
proof -
  have ok: "table_ok (chatters w) (dom P)" using table by (simp add: chat_inv_def)
  from table_some [OF ok c] obtain who
    where who: "map_of (chatters w) (Some c) = Some who" and conn: "chat_connection who = Some c"
    by blast
  have error: "\<exists>w' P'. jrpc_respond_error E (Some c) code s i w = Some w' \<and> handled E good chat_inv (dom P) w P w' P'" for code s
    using respond_error_quiet [OF w c] chat_handled [OF _ table] by blast
  have rename: "\<exists>w' P'. set_name E (Some c) params i w = Some w' \<and> handled E good chat_inv (dom P) w P w' P'"
    if h: "json_array_get E params 0 = Some h" "json_is_string E h" and new: "\<not> is_name_used (json_string_value E h) w" for h
  proof -
    let ?name = "json_string_value E h"
    let ?w1 = "w\<lparr>chatters := renamed (Some c) who ?name (chatters w)\<rparr>"
    let ?w4 = "?w1\<lparr>clock := clock ?w1 + 3, json_refs := json_refs w + ref_count (json_object E (clock w))\<rparr>"
    have ok1: "table_ok (chatters ?w1) (dom P)"
      using table_rename [OF ok who] new by (force simp: renamed_def is_name_used_def list_ex_iff)
    then have 1: "handled E good chat_inv (dom P) w P ?w1 P"
      using chatters_handled [OF w] by simp
    then have inv1: "inv E ?w1 P" by (rule handled_inv)
    from respond_quiet [OF inv1 c, where result = "name_value E (clock w) ?name" and i = i and n = 3] obtain w5 P5
      where r: "jrpc_respond E (Some c) (name_value E (clock w) ?name) i ?w4 = Some w5" and q5: "quiet E ?w1 P w5 P5"
      by blast
    have chatters5: "chatters w5 = chatters ?w1" and dom5: "dom P5 = dom P"
      using q5 same_sessions_chatters [of ?w1 w5] quiet_dom [OF q5] by (simp_all add: quiet_def)
    from broadcast_quiet [OF quiet_inv [OF q5], of "''announce''" "''arrived''" ?name] ok1 chatters5 dom5
    obtain w6 P6 where a: "announce E ''arrived'' ?name w5 = Some w6" and q6: "quiet E w5 P5 w6 P6"
      by (auto simp: announce_def)
    have "quiet E ?w1 P w6 P6" using q5 q6 by (rule quiet_trans)
    then have "handled E good chat_inv (dom P) ?w1 P w6 P6"
      using ok1 by (intro chat_handled) (simp_all add: chat_inv_def)
    with 1 have "handled E good chat_inv (dom P) w P w6 P6" by (rule handled_trans)
    moreover have "set_name E (Some c) params i w = Some w6"
      using set_name_run [OF who h new, of i] conn r a chatters5 by (simp add: map_of_renamed)
    ultimately show ?thesis by blast
  qed
  show ?thesis
  proof (cases "\<exists>h. json_array_get E params 0 = Some h \<and> json_is_string E h")
    case True
    then show ?thesis using rename error set_name_error(2) [OF who] conn by metis
  next
    case False
    then show ?thesis using error set_name_error(1) [OF who] conn by metis
  qed
qed

lemma onmethod_handled:
  assumes "inv E w P" and "chat_inv w (dom P)" and "c \<in> dom P"
  shows "\<exists>w' P'. onmethod E (Some c) name params i w = Some w' \<and> handled E good chat_inv (dom P) w P w' P'"
  using set_name_handled [OF assms] respond_error_quiet [OF assms(1,3)] chat_handled [OF _ assms(2)]
  unfolding onmethod_def by (cases "map_of (chatters w) (Some c)") (auto split: if_splits, blast+)

lemma onnotify_handled:
  assumes w: "inv E w P" and table: "chat_inv w (dom P)"
  shows "\<exists>w' P'. onnotify E (Some c) name params w = Some w' \<and> handled E good chat_inv (dom P) w P w' P'"
proof -
  have ok: "table_ok (chatters w) (dom P)" using table by (simp add: chat_inv_def)
  have refl: "handled E good chat_inv (dom P) w P w P" using w table by (rule handled_refl)
  have loop: "\<exists>w' P'. for_each (notify_pair E ''message'' x y) (chatters w) w = Some w' \<and>
      handled E good chat_inv (dom P) w P w' P'" for x y
    using broadcast_quiet [OF w ok] chat_handled [OF _ table] by blast
  show ?thesis
    using refl loop by (auto simp: onnotify_def chat_def split: option.split)
qed

lemma onconnected_handled:
  assumes w: "inv E w P" and table: "chat_inv w (dom P - {c})" and c: "c \<in> dom P"
  shows "\<exists>w' P'. onconnected E (Some c) w = Some w' \<and> handled E good chat_inv (dom P) w P w' P'"
proof -
  let ?x = "\<lparr>chat_connection = Some c, chat_name = []\<rparr>"
  have ok: "table_ok (chatters w) (dom P - {c})" using table by (simp add: chat_inv_def)
  then have "Some c \<notin> set (map fst (chatters w))" unfolding table_ok_def by blast
  then have "table_insert E (Some c) ?x (chatters w) = rehash E ((Some c, ?x) # chatters w)"
    by (simp add: table_insert_def)
  moreover have "table_ok (rehash E ((Some c, ?x) # chatters w)) (dom P)"
    using table_perm [OF rehash_perm] table_new [OF ok, of c] c by (simp add: insert_absorb)
  ultimately show ?thesis
    using chatters_handled [OF w] by (auto simp: onconnected_def)
qed

lemma ondisconnected_handled:
  assumes w: "inv E w P" and table: "chat_inv w (dom P)" and c: "c \<in> dom P"
  shows "\<exists>w' P'. ondisconnected E (Some c) w = Some w' \<and> handled E good chat_inv (dom P - {c}) w P w' P'"
proof -
  have ok: "table_ok (chatters w) (dom P)" using table by (simp add: chat_inv_def)
  from table_some [OF ok c] obtain who where who: "map_of (chatters w) (Some c) = Some who" by blast
  from broadcast_quiet [OF w ok, of "''announce''" "''gone''" "chat_name who"] obtain w1 P1
    where a: "announce E ''gone'' (chat_name who) w = Some w1" and q: "quiet E w P w1 P1"
    by (auto simp: announce_def)
  have same: "chatters w1 = chatters w"
    using q by (intro same_sessions_chatters) (simp add: quiet_def)
  let ?w = "w1\<lparr>chatters := AList.delete (Some c) (chatters w1)\<rparr>"
  have "handled E good chat_inv (dom P) w P w1 P1"
    using q table by (rule chat_handled)
  moreover have "handled E good chat_inv (dom P - {c}) w1 P1 ?w P1"
    using quiet_inv [OF q] table_delete [OF ok] same by (intro chatters_handled) simp_all
  ultimately have "handled E good chat_inv (dom P - {c}) w P ?w P1" by (rule handled_trans)
  with who a show ?thesis by (auto simp: ondisconnected_def)
qed

end

sublocale chat_jansson \<subseteq> chat: wired_handlers E "chat_user E" chat_protocol chat_inv
proof unfold_locales
  fix w w' :: "'b chat_heap_scheme" and C
  assume "chat_inv w C" and "pheap.more w' = pheap.more w"
  then show "chat_inv w' C"
    by (cases w; cases w') (simp add: chat_inv_def)
next
  fix p P c name params i and w :: "'b chat_heap_scheme"
  assume p: "chat_protocol p" and w: "inv E w P" and c: "c \<in> dom P"
  show "\<exists>w' P'. call_onmethod E (chat_user E) (p_onmethod p) (Some c) name params i w = Some w' \<and>
      handled E chat_protocol chat_inv (dom P) w P w' P'" if "chat_inv w (dom P)"
    using p onmethod_handled [OF w that c, of name params i chat_protocol] by (simp add: chat_protocol_def chat_user_def)
  show "\<exists>w' P'. call_onnotify (chat_user E) (p_onnotify p) (Some c) name params w = Some w' \<and>
      handled E chat_protocol chat_inv (dom P) w P w' P'" if "chat_inv w (dom P)"
    using p onnotify_handled [OF w that, of c name params chat_protocol] by (simp add: chat_protocol_def chat_user_def)
  show "\<exists>w' P'. call_onconnected (chat_user E) (p_onconnected p) (Some c) w = Some w' \<and>
      handled E chat_protocol chat_inv (dom P) w P w' P'" if "chat_inv w (dom P - {c})"
    using p onconnected_handled [OF w that c, of chat_protocol] by (simp add: chat_protocol_def chat_user_def)
  show "\<exists>w' P'. call_ondisconnected (chat_user E) (p_ondisconnected p) (Some c) w = Some w' \<and>
      handled E chat_protocol chat_inv (dom P - {c}) w P w' P'" if "chat_inv w (dom P)"
    using p ondisconnected_handled [OF w that c, of chat_protocol] by (simp add: chat_protocol_def chat_user_def)
qed (simp add: chat_protocol_def)

context chat_jansson
begin

lemma chat_handlers: "wired_handlers E (chat_user E) chat_protocol chat_inv"
  by (rule chat.wired_handlers_axioms)

end

end
