(* ===== verification/Jrpc_Chat_Rules.thy ===== *)
theory Jrpc_Chat_Rules
  imports Jrpc_Chat Jrpc_Run
begin

text \<open>
  What each handler of the chat server sends. The locale \<open>sender\<close> states what its calls of the library
  post, in terms of a service \<open>T\<close> (what may be added to a mailbox for a notification, a refusal and a
  confirmation); under it a broadcast posts to every participant once, and a request is answered to the
  one who asked. The instance of this theory is the service with enough memory, \<open>full_texts\<close>.
\<close>

section \<open>Arrays\<close>

definition string_element :: "('j, 'e) chat_env_scheme \<Rightarrow> 'j \<Rightarrow> nat \<Rightarrow> string \<Rightarrow> bool" where
  "string_element E a n s \<longleftrightarrow>
     (\<exists>x. json_array_get E a n = Some x \<and> json_is_string E x \<and> json_string_value E x = s)"

definition is_pair :: "('j, 'e) chat_env_scheme \<Rightarrow> string \<Rightarrow> string \<Rightarrow> 'j \<Rightarrow> bool" where
  "is_pair E x y a \<longleftrightarrow>
     json_is_array E a \<and> string_element E a 0 x \<and> string_element E a 1 y \<and> json_array_get E a 2 = NULL"

text \<open>What jansson documents of arrays: an appended value is the new last element.\<close>

locale chat_jansson_total = chat_jansson E + jansson_total E for E :: "('j, 'e) chat_env_scheme" +
  assumes array_total: "json_array E t \<noteq> NULL"
    and append_new: "json_is_array E a \<Longrightarrow> (\<And>m. json_array_get E a m = NULL \<longleftrightarrow> n \<le> m) \<Longrightarrow>
      \<exists>a'. json_array_append_new E t (Some a) (Some x) = Some a' \<and> json_is_array E a' \<and>
        json_array_get E a' = (json_array_get E a)(n \<mapsto> x)"

text \<open>The calls with the numbers \<open>N\<close> do not fail: those that make arrays, and all that are needed to send the
  strings \<open>S\<close> with an allocator whose failures are \<open>bad\<close>.\<close>

definition arrays_work :: "('j, 'e) chat_env_scheme \<Rightarrow> nat set \<Rightarrow> bool" where
  "arrays_work E N \<longleftrightarrow>
     (\<forall>t \<in> N. json_array E t \<noteq> NULL \<and>
        (\<forall>a n x. json_is_array E a \<longrightarrow> (\<forall>m. json_array_get E a m = NULL \<longleftrightarrow> n \<le> m) \<longrightarrow>
           (\<exists>a'. json_array_append_new E t (Some a) (Some x) = Some a' \<and> json_is_array E a' \<and>
              json_array_get E a' = (json_array_get E a)(n \<mapsto> x))))"

definition lasts :: "('j, 'e) chat_env_scheme \<Rightarrow> (nat \<Rightarrow> bool) \<Rightarrow> string set \<Rightarrow> nat set \<Rightarrow> bool" where
  "lasts E bad S N \<longleftrightarrow>
     works E N \<and> arrays_work E N \<and> (\<forall>t \<in> N. \<not> bad t \<and> (\<forall>s \<in> S. json_string E t s \<noteq> NULL))"

lemma lastsD:
  assumes "lasts E bad S N" and "N' \<subseteq> N"
  shows "works E N'" and "arrays_work E N'" and "t \<in> N \<Longrightarrow> \<not> bad t"
    and "t \<in> N \<Longrightarrow> s \<in> S \<Longrightarrow> json_string E t s \<noteq> NULL"
  using assms unfolding lasts_def works_def arrays_work_def by blast+

context chat_jansson
begin

lemma pair_refs: "ref_count (pair_value E t x y) = ref_count (json_array E t)"
proof (cases "json_array E t")
  case None
  then show ?thesis by (simp add: pair_value_def append_NULL)
next
  case (Some a)
  then have "json_is_array E a" using array_new by blast
  then obtain a1 where 1: "json_array_append_new E (t + 2) (Some a) (json_string E (t + 1) x) = Some a1" "json_is_array E a1"
    using append_array by blast
  from append_array [OF 1(2)] obtain a2
    where "json_array_append_new E (t + 4) (Some a1) (json_string E (t + 3) y) = Some a2" by blast
  with Some 1(1) show ?thesis by (simp add: pair_value_def)
qed

lemma name_value_refs: "ref_count (name_value E t name) = ref_count (json_object E t)"
  by (simp add: name_value_def)

lemma pair_value_content:
  assumes ok: "arrays_work E {t..<t + 5}"
    and str: "json_string E (t + 1) x \<noteq> NULL" "json_string E (t + 3) y \<noteq> NULL"
  shows "\<exists>a. pair_value E t x y = Some a \<and> is_pair E x y a"
proof -
  have append: "\<exists>a'. json_array_append_new E u (Some a) (Some z) = Some a' \<and> json_is_array E a' \<and>
      json_array_get E a' = (json_array_get E a)(n \<mapsto> z)"
    if "u \<in> {t..<t + 5}" "json_is_array E a" "\<And>m. json_array_get E a m = NULL \<longleftrightarrow> n \<le> m" for u a z n
    using ok that unfolding arrays_work_def by blast
  have "t \<in> {t..<t + 5}" by simp
  with ok have "json_array E t \<noteq> NULL" unfolding arrays_work_def by blast
  then obtain a0 where 0: "json_array E t = Some a0" "json_is_array E a0" "\<And>m. json_array_get E a0 m = NULL"
    using array_new by blast
  obtain u where u: "json_string E (t + 1) x = Some u" "json_is_string E u" "json_string_value E u = x"
    using str(1) string_new by blast
  obtain v where v: "json_string E (t + 3) y = Some v" "json_is_string E v" "json_string_value E v = y"
    using str(2) string_new by blast
  obtain a1 where 1: "json_array_append_new E (t + 2) (Some a0) (Some u) = Some a1" "json_is_array E a1"
    "json_array_get E a1 = (json_array_get E a0)(0 \<mapsto> u)"
    using append [OF _ 0(2), of "t + 2" 0 u] 0(3) by auto
  have "json_array_get E a1 m = NULL \<longleftrightarrow> 1 \<le> m" for m
    using 0(3) by (auto simp: 1(3))
  then obtain a2 where 2: "json_array_append_new E (t + 4) (Some a1) (Some v) = Some a2" "json_is_array E a2"
    "json_array_get E a2 = (json_array_get E a1)(1 \<mapsto> v)"
    using append [OF _ 1(2), of "t + 4" 1 v] by auto
  show ?thesis
    using 0 u v 1 2 by (simp add: pair_value_def is_pair_def string_element_def)
qed

lemma name_value_content:
  assumes ok: "works E {t..<t + 3}" and str: "json_string E (t + 1) name \<noteq> NULL"
  shows "\<exists>r. name_value E t name = Some r \<and> json_is_object E r \<and> string_member E r ''name'' name"
proof -
  obtain v where v: "json_object E t = Some v" "json_is_object E v"
    by (rule object_works [OF ok, of t]) simp_all
  obtain x where x: "json_string E (t + 1) name = Some x" "json_is_string E x" "json_string_value E x = name"
    using str string_new by blast
  obtain r where "json_object_set_new E (t + 2) (Some v) ''name'' (Some x) = Some r" "json_is_object E r"
    "json_object_get E r = (case Some x of NULL \<Rightarrow> json_object_get E v | Some x \<Rightarrow> (json_object_get E v)(''name'' \<mapsto> x))"
    by (rule set_works [OF ok _ v(2), rotated], assumption, simp)
  with v x show ?thesis
    by (simp add: name_value_def string_member_def)
qed

end

section \<open>Broadcasts\<close>

text \<open>The texts that are sent: a notification of two strings, an error response, and the response
  that confirms a name.\<close>

definition pair_text :: "('j, 'e) chat_env_scheme \<Rightarrow> string \<Rightarrow> string \<Rightarrow> string \<Rightarrow> string \<Rightarrow> bool" where
  "pair_text E name x y t \<longleftrightarrow>
     (\<exists>v a. t = json_text E (Some v) \<and> is_notification E name (Some a) v \<and> is_pair E x y a)"

definition error_text :: "('j, 'e) chat_env_scheme \<Rightarrow> c_int \<Rightarrow> string \<Rightarrow> c_int \<Rightarrow> string \<Rightarrow> bool" where
  "error_text E code s i t \<longleftrightarrow> (\<exists>v. t = json_text E (Some v) \<and> is_error E code s i v)"

definition name_text :: "('j, 'e) chat_env_scheme \<Rightarrow> string \<Rightarrow> c_int \<Rightarrow> string \<Rightarrow> bool" where
  "name_text E name i t \<longleftrightarrow>
     (\<exists>v r. t = json_text E (Some v) \<and> is_response E (Some r) i v \<and> json_is_object E r \<and>
        string_member E r ''name'' name)"

text \<open>What a service sends: for each thing that the handlers say, the lists of texts that may be added
  at the end of a mailbox. When memory lasts, it is one text of the right content.\<close>

record texts =
  notices :: "string \<Rightarrow> string \<Rightarrow> string \<Rightarrow> string list \<Rightarrow> bool"
  refusals :: "c_int \<Rightarrow> string \<Rightarrow> c_int \<Rightarrow> string list \<Rightarrow> bool"
  confirmations :: "string \<Rightarrow> c_int \<Rightarrow> string list \<Rightarrow> bool"

definition full_texts :: "('j, 'e) chat_env_scheme \<Rightarrow> texts" where
  "full_texts E =
     \<lparr>notices = (\<lambda>name x y us. \<exists>t. us = [t] \<and> pair_text E name x y t),
      refusals = (\<lambda>code s i us. \<exists>t. us = [t] \<and> error_text E code s i t),
      confirmations = (\<lambda>name i us. \<exists>t. us = [t] \<and> name_text E name i t)\<rparr>"

definition posted_to :: "addr set \<Rightarrow> (string list \<Rightarrow> bool) \<Rightarrow> mailbox \<Rightarrow> mailbox \<Rightarrow> bool" where
  "posted_to C N P P' \<longleftrightarrow>
     dom P' = dom P \<and>
     (\<forall>c ts. P c = Some ts \<longrightarrow> (if c \<in> C then \<exists>us. N us \<and> P' c = Some (ts @ us) else P' c = Some ts))"

text \<open>One service allows what another one allows.\<close>

definition allows :: "texts \<Rightarrow> texts \<Rightarrow> bool" where
  "allows T' T \<longleftrightarrow>
     (\<forall>name x y us. notices T name x y us \<longrightarrow> notices T' name x y us) \<and>
     (\<forall>code s i us. refusals T code s i us \<longrightarrow> refusals T' code s i us) \<and>
     (\<forall>name i us. confirmations T name i us \<longrightarrow> confirmations T' name i us)"

lemma allowsD:
  assumes "allows T' T"
  shows "notices T name x y us \<Longrightarrow> notices T' name x y us"
    and "refusals T code s i us \<Longrightarrow> refusals T' code s i us"
    and "confirmations T name i us \<Longrightarrow> confirmations T' name i us"
  using assms by (simp_all add: allows_def)

text \<open>Each connection of \<open>K\<close> gets one more such text, the others none.\<close>

definition broadcast :: "('j, 'e) chat_env_scheme \<Rightarrow> string \<Rightarrow> string \<Rightarrow> string \<Rightarrow> addr set \<Rightarrow> mailbox \<Rightarrow> mailbox \<Rightarrow> bool" where
  "broadcast E name x y K P P' \<longleftrightarrow>
     dom P' = dom P \<and>
     (\<forall>c ts. P c = Some ts \<longrightarrow>
        (if c \<in> K then \<exists>t. pair_text E name x y t \<and> P' c = Some (ts @ [t]) else P' c = Some ts))"

text \<open>What a request may lead to: one answer with its \<open>id\<close> to the one who asked, and after that
  notifications only.\<close>

definition answer_text :: "('j, 'e) chat_env_scheme \<Rightarrow> c_int \<Rightarrow> string \<Rightarrow> bool" where
  "answer_text E i t \<longleftrightarrow>
     (\<exists>v. t = json_text E (Some v) \<and> ((\<exists>r. is_response E (Some r) i v) \<or> (\<exists>code s. is_error E code s i v)))"

definition notification_text :: "('j, 'e) chat_env_scheme \<Rightarrow> string \<Rightarrow> bool" where
  "notification_text E t \<longleftrightarrow> (\<exists>v name params. t = json_text E (Some v) \<and> is_notification E name params v)"

definition only_notifications :: "('j, 'e) chat_env_scheme \<Rightarrow> mailbox \<Rightarrow> mailbox \<Rightarrow> bool" where
  "only_notifications E P P' \<longleftrightarrow>
     dom P' = dom P \<and>
     (\<forall>c ts. P c = Some ts \<longrightarrow> (\<exists>us. P' c = Some (ts @ us) \<and> list_all (notification_text E) us))"

text \<open>The strings that are sent are valid UTF-8, the documented condition of \<open>json_string\<close>.\<close>

definition utf8 :: "('j, 'e) env_scheme \<Rightarrow> string set \<Rightarrow> bool" where
  "utf8 E S \<longleftrightarrow> (\<forall>s \<in> S. \<forall>t. json_string E t s \<noteq> NULL)"

lemma utf8_subset: "utf8 E S \<Longrightarrow> S' \<subseteq> S \<Longrightarrow> utf8 E S'"
  unfolding utf8_def by blast

lemma one_text: "(\<exists>us. (\<exists>t. us = [t] \<and> Q t) \<and> R us) \<longleftrightarrow> (\<exists>t. Q t \<and> R [t])"
  by blast

lemma broadcast_posted: "posted_to C (notices (full_texts E) name x y) P P' = broadcast E name x y C P P'"
  by (simp add: broadcast_def posted_to_def full_texts_def one_text)

lemma full_texts_simps:
  "refusals (full_texts E) code s i us \<longleftrightarrow> (\<exists>t. us = [t] \<and> error_text E code s i t)"
  "confirmations (full_texts E) name i us \<longleftrightarrow> (\<exists>t. us = [t] \<and> name_text E name i t)"
  by (simp_all add: full_texts_def)

lemma posted_none: "posted_to {} N P P"
  by (simp add: posted_to_def)

lemma broadcast_notifications: "broadcast E name x y K P P' \<Longrightarrow> only_notifications E P P'"
  unfolding broadcast_def only_notifications_def pair_text_def notification_text_def
  by (fastforce split: if_splits)

lemma only_notifications_refl: "only_notifications E P P"
  by (simp add: only_notifications_def)

lemma answer_texts: "error_text E code s i t \<Longrightarrow> answer_text E i t" "name_text E name i t \<Longrightarrow> answer_text E i t"
  by (auto simp: error_text_def name_text_def answer_text_def)

lemma posted_insert:
  assumes "P c = Some ts" and "N us" and "posted_to C N (P(c \<mapsto> ts @ us)) P'" and "c \<notin> C"
  shows "posted_to (insert c C) N P P'"
  using assms by (fastforce simp: posted_to_def split: if_splits)

lemma posted_mono: "posted_to C N P P' \<Longrightarrow> (\<And>us. N us \<Longrightarrow> N' us) \<Longrightarrow> posted_to C N' P P'"
  unfolding posted_to_def by (metis (mono_tags, lifting))

lemma quiet_clock: "quiet E w P w' P' \<Longrightarrow> clock w \<le> clock w'"
  by (simp add: quiet_def same_sessions_def)

lemma quiet_chatters: "quiet E w P w' P' \<Longrightarrow> chatters w' = chatters w"
  by (simp add: quiet_def same_sessions_chatters)

lemma quiet_no_oom: "quiet E w P w' P' \<Longrightarrow> no_oom w \<Longrightarrow> no_oom w'"
  by (simp add: quiet_def same_sessions_def no_oom_def)

lemma onmethod_errors:
  assumes ok: "table_ok (chatters w) C" and c: "c \<in> C"
  shows "name \<noteq> ''set_name'' \<Longrightarrow>
      onmethod E (Some c) name params i w = jrpc_respond_error E (Some c) (-1) ''not implemented'' i w"
    and "\<nexists>x. string_element E params 0 x \<Longrightarrow>
      onmethod E (Some c) ''set_name'' params i w = jrpc_respond_error E (Some c) (-1) ''invalid params'' i w"
    and "string_element E params 0 x \<Longrightarrow> is_name_used x w \<Longrightarrow>
      onmethod E (Some c) ''set_name'' params i w = jrpc_respond_error E (Some c) 1 ''name already used'' i w"
proof -
  from table_some [OF ok c] obtain who
    where who: "map_of (chatters w) (Some c) = Some who" and conn: "chat_connection who = Some c"
    by blast
  show "name \<noteq> ''set_name'' \<Longrightarrow>
      onmethod E (Some c) name params i w = jrpc_respond_error E (Some c) (-1) ''not implemented'' i w"
    using who by (simp add: onmethod_def)
  show "\<nexists>x. string_element E params 0 x \<Longrightarrow>
      onmethod E (Some c) ''set_name'' params i w = jrpc_respond_error E (Some c) (-1) ''invalid params'' i w"
    using set_name_error(1) [OF who, of E params i] who conn by (auto simp: onmethod_def string_element_def)
  show "string_element E params 0 x \<Longrightarrow> is_name_used x w \<Longrightarrow>
      onmethod E (Some c) ''set_name'' params i w = jrpc_respond_error E (Some c) 1 ''name already used'' i w"
    using set_name_error(2) [OF who, of E params _ i] who conn by (auto simp: onmethod_def string_element_def)
qed

section \<open>A service that sends texts\<close>

text \<open>
  The locale \<open>sender\<close> is what the handlers rely on, whatever the allocator does: under a condition \<open>K\<close>
  on the memory and for strings that satisfy \<open>S\<close>, a call of the library returns and posts what \<open>T\<close> says.
  What \<open>T\<close> says may depend on the allocation requests that the call makes, from number \<open>lo\<close> up to
  number \<open>hi\<close>: \<open>T lo hi\<close>. What the handlers do then follows for every such \<open>T\<close>.
\<close>

locale sender = chat_jansson E for E :: "('j, 'e) chat_env_scheme" +
  fixes T :: "nat \<Rightarrow> nat \<Rightarrow> texts" and K :: "'a chat_heap_scheme \<Rightarrow> bool" and S :: "string \<Rightarrow> bool"
  assumes K_same: "K w \<Longrightarrow> oom w' = oom w \<Longrightarrow> K w'"
    and T_mono: "lo' \<le> lo \<Longrightarrow> hi \<le> hi' \<Longrightarrow> allows (T lo' hi') (T lo hi)"
    and notice_posted: "inv E w P \<Longrightarrow> P c = Some ts \<Longrightarrow> K w \<Longrightarrow> S name \<Longrightarrow> S x \<Longrightarrow> S y \<Longrightarrow>
      chat_connection (snd item) = Some c \<Longrightarrow>
      \<exists>w' us. notify_pair E name x y item w = Some w' \<and> notices (T (clock w) (clock w')) name x y us \<and>
        quiet E w P w' (P(c \<mapsto> ts @ us)) \<and> json_refs w' = json_refs w"
    and refusal_posted: "inv E w P \<Longrightarrow> P c = Some ts \<Longrightarrow> K w \<Longrightarrow> S s \<Longrightarrow>
      \<exists>w' us. jrpc_respond_error E (Some c) code s i w = Some w' \<and> refusals (T (clock w) (clock w')) code s i us \<and>
        quiet E w P w' (P(c \<mapsto> ts @ us)) \<and> json_refs w' = json_refs w"
    and confirmation_posted: "inv E w P \<Longrightarrow> P c = Some ts \<Longrightarrow> K w \<Longrightarrow> S name \<Longrightarrow>
      \<exists>w' us. jrpc_respond E (Some c) (name_value E (clock w) name) i
          (w\<lparr>clock := clock w + 3, json_refs := json_refs w + ref_count (json_object E (clock w))\<rparr>) = Some w' \<and>
        confirmations (T (clock w) (clock w')) name i us \<and> quiet E w P w' (P(c \<mapsto> ts @ us)) \<and> json_refs w' = json_refs w"
begin

lemma quiet_K: "quiet E w P w' P' \<Longrightarrow> K w \<Longrightarrow> K w'"
  by (rule K_same) (simp_all add: quiet_def same_sessions_def)

text \<open>More allocation requests allow more.\<close>

lemma within:
  assumes "lo' \<le> lo" and "hi \<le> hi'"
  shows "notices (T lo hi) name x y us \<Longrightarrow> notices (T lo' hi') name x y us"
    and "refusals (T lo hi) code s i us \<Longrightarrow> refusals (T lo' hi') code s i us"
    and "confirmations (T lo hi) name i us \<Longrightarrow> confirmations (T lo' hi') name i us"
    and "posted_to C (notices (T lo hi) name x y) P P' \<Longrightarrow> posted_to C (notices (T lo' hi') name x y) P P'"
  by (rule allowsD [OF T_mono [OF assms]], assumption)+ (rule posted_mono, assumption, rule allowsD(1) [OF T_mono [OF assms]])

lemma loop_posts:
  assumes "inv E w P" and "K w" and "S name" "S x" "S y" and "distinct (map fst xs)"
    and "\<And>k u. (k, u) \<in> set xs \<Longrightarrow> \<exists>c \<in> dom P. k = Some c \<and> chat_connection u = k"
  shows "\<exists>w' P'. for_each (notify_pair E name x y) xs w = Some w' \<and> quiet E w P w' P' \<and>
    posted_to {c. Some c \<in> set (map fst xs)} (notices (T (clock w) (clock w')) name x y) P P' \<and>
    json_refs w' = json_refs w"
  using assms(1,2,6,7)
proof (induction xs arbitrary: w P)
  case Nil
  then show ?case by (auto simp: posted_none intro: quiet_refl)
next
  case (Cons item xs)
  obtain k u where item: "item = (k, u)" by (cases item)
  with Cons.prems(4) [of k u] obtain c ts where k: "k = Some c" and conn: "chat_connection u = k" and P: "P c = Some ts"
    by auto
  from notice_posted [OF Cons.prems(1) P Cons.prems(2) assms(3-5), of item] conn k item obtain w1 us
    where 1: "notify_pair E name x y item w = Some w1" and us: "notices (T (clock w) (clock w1)) name x y us"
      and q: "quiet E w P w1 (P(c \<mapsto> ts @ us))" and refs: "json_refs w1 = json_refs w"
    by auto
  let ?P = "P(c \<mapsto> ts @ us)"
  have entries: "\<exists>d \<in> dom ?P. k = Some d \<and> chat_connection u = k" if "(k, u) \<in> set xs" for k u
    using Cons.prems(4) [of k u] that P by auto
  have "distinct (map fst xs)" using Cons.prems(3) by simp
  from Cons.IH [OF quiet_inv [OF q] quiet_K [OF q Cons.prems(2)] this entries] obtain w2 P2
    where 2: "for_each (notify_pair E name x y) xs w1 = Some w2" "quiet E w1 ?P w2 P2"
      "posted_to {c. Some c \<in> set (map fst xs)} (notices (T (clock w1) (clock w2)) name x y) ?P P2"
      "json_refs w2 = json_refs w1"
    by blast
  note clocks = quiet_clock [OF q] quiet_clock [OF 2(2)]
  have us2: "notices (T (clock w) (clock w2)) name x y us"
    and posted2: "posted_to {c. Some c \<in> set (map fst xs)} (notices (T (clock w) (clock w2)) name x y) ?P P2"
    using within(1) [OF _ clocks(2) us] within(4) [OF clocks(1) _ 2(3)] by simp_all
  have new: "c \<notin> {c. Some c \<in> set (map fst xs)}"
    using Cons.prems(3) item k by simp
  have keys: "{d. Some d \<in> set (map fst (item # xs))} = insert c {d. Some d \<in> set (map fst xs)}"
    using item k by auto
  show ?case
    unfolding keys using 1 2 refs quiet_trans [OF q 2(2)] posted_insert [of P c ts, OF P us2 posted2 new] by auto
qed

text \<open>To everybody.\<close>

lemma all_posts:
  assumes "inv E w P" and "K w" and "S name" "S x" "S y" and ok: "table_ok (chatters w) (dom P)"
  shows "\<exists>w' P'. for_each (notify_pair E name x y) (chatters w) w = Some w' \<and> quiet E w P w' P' \<and>
    posted_to (dom P) (notices (T (clock w) (clock w')) name x y) P P' \<and> json_refs w' = json_refs w"
proof -
  have "{c. Some c \<in> set (map fst (chatters w))} = dom P"
    using ok unfolding table_ok_def by auto
  moreover have "distinct (map fst (chatters w))" using ok by (simp add: table_ok_def)
  ultimately show ?thesis
    using loop_posts [OF assms(1-5), of "chatters w"] table_entry [OF ok] by simp
qed

lemma chat_posts:
  assumes "inv E w P" and "K w" and "table_ok (chatters w) (dom P)"
    and who: "map_of (chatters w) k = Some who" and m: "string_element E params 0 m"
    and "S ''message''" "S (chat_name who)" "S m"
  shows "\<exists>w' P'. onnotify E k ''chat'' params w = Some w' \<and> quiet E w P w' P' \<and>
    posted_to (dom P) (notices (T (clock w) (clock w')) ''message'' (chat_name who) m) P P' \<and> json_refs w' = json_refs w"
  using all_posts [OF assms(1,2,6-8,3)] who m by (auto simp: onnotify_def chat_def string_element_def)

lemma set_name_posts:
  assumes w: "inv E w P" and P: "P c = Some ts" and K: "K w" and ok: "table_ok (chatters w) (dom P)"
    and who: "map_of (chatters w) (Some c) = Some who" and name: "string_element E params 0 name"
    and new: "\<not> is_name_used name w" and S: "S ''announce''" "S ''arrived''" "S name"
  shows "\<exists>w' P' us. set_name E (Some c) params i w = Some w' \<and> inv E w' P' \<and>
    confirmations (T (clock w) (clock w')) name i us \<and> clock w \<le> clock w' \<and>
    posted_to (dom P) (notices (T (clock w) (clock w')) ''announce'' ''arrived'' name) (P(c \<mapsto> ts @ us)) P' \<and>
    chatters w' = renamed (Some c) who name (chatters w) \<and> json_refs w' = json_refs w \<and> oom w' = oom w"
proof -
  let ?w1 = "w\<lparr>chatters := renamed (Some c) who name (chatters w)\<rparr>"
  from name obtain h where h: "json_array_get E params 0 = Some h" "json_is_string E h" "json_string_value E h = name"
    by (auto simp: string_element_def)
  have ok1: "table_ok (chatters ?w1) (dom P)"
    using table_rename [OF ok who] new by (force simp: renamed_def is_name_used_def list_ex_iff)
  have w1: "inv E ?w1 P" using w by (rule inv_frame) simp_all
  have "K ?w1" using K by (rule K_same) simp
  from confirmation_posted [OF w1 P this S(3), of i] obtain w5 us
    where call: "jrpc_respond E (Some c) (name_value E (clock ?w1) name) i
        (?w1\<lparr>clock := clock ?w1 + 3, json_refs := json_refs ?w1 + ref_count (json_object E (clock ?w1))\<rparr>) = Some w5"
      and us: "confirmations (T (clock ?w1) (clock w5)) name i us" and q5: "quiet E ?w1 P w5 (P(c \<mapsto> ts @ us))" and refs: "json_refs w5 = json_refs ?w1"
    by blast
  let ?P = "P(c \<mapsto> ts @ us)"
  have chatters5: "chatters w5 = chatters ?w1" using q5 by (rule quiet_chatters)
  have dom: "dom ?P = dom P" using P by auto
  have "table_ok (chatters w5) (dom ?P)" unfolding chatters5 dom by (rule ok1)
  from all_posts [OF quiet_inv [OF q5] quiet_K [OF q5 \<open>K ?w1\<close>] S this] obtain w6 P6
    where 6: "announce E ''arrived'' name w5 = Some w6" "quiet E w5 ?P w6 P6"
      "posted_to (dom P) (notices (T (clock w5) (clock w6)) ''announce'' ''arrived'' name) ?P P6" "json_refs w6 = json_refs w5"
    unfolding announce_def dom by blast
  have clocks: "clock w \<le> clock w5" "clock w5 \<le> clock w6" using quiet_clock [OF q5] quiet_clock [OF 6(2)] by simp_all
  have us6: "confirmations (T (clock w) (clock w6)) name i us"
    and posted6: "posted_to (dom P) (notices (T (clock w) (clock w6)) ''announce'' ''arrived'' name) ?P P6"
    using within(3) [OF _ clocks(2) us] within(4) [OF clocks(1) _ 6(3)] by simp_all
  have "set_name E (Some c) params i w = Some w6"
    using set_name_run [OF who h(1,2), of i] new h(3) call 6(1) chatters5 table_connection [OF ok who]
    by (simp add: map_of_renamed)
  moreover have "chatters w6 = renamed (Some c) who name (chatters w)"
    using quiet_chatters [OF 6(2)] chatters5 by simp
  moreover have "oom w6 = oom w" using q5 6(2) by (simp add: quiet_def same_sessions_def)
  ultimately show ?thesis
    using us6 posted6 clocks 6(4) refs quiet_inv [OF 6(2)] by auto
qed

lemma departure_posts:
  assumes w: "inv E w P" and K: "K w" and ok: "table_ok (chatters w) (dom P)"
    and who: "map_of (chatters w) (Some c) = Some who" and S: "S ''announce''" "S ''gone''" "S (chat_name who)"
  shows "\<exists>w' P'. ondisconnected E (Some c) w = Some w' \<and> inv E w' P' \<and>
    posted_to (dom P) (notices (T (clock w) (clock w')) ''announce'' ''gone'' (chat_name who)) P P' \<and> clock w \<le> clock w' \<and>
    chatters w' = AList.delete (Some c) (chatters w) \<and> json_refs w' = json_refs w \<and> oom w' = oom w"
proof -
  from all_posts [OF w K S ok] obtain w1 P1
    where 1: "announce E ''gone'' (chat_name who) w = Some w1" "quiet E w P w1 P1"
      "posted_to (dom P) (notices (T (clock w) (clock w1)) ''announce'' ''gone'' (chat_name who)) P P1" "json_refs w1 = json_refs w"
    unfolding announce_def by blast
  let ?w = "w1\<lparr>chatters := AList.delete (Some c) (chatters w1)\<rparr>"
  have "inv E ?w P1" using quiet_inv [OF 1(2)] by (rule inv_frame) simp_all
  moreover have "ondisconnected E (Some c) w = Some ?w"
    using who 1(1) by (simp add: ondisconnected_def)
  moreover have "oom ?w = oom w" using 1(2) by (simp add: quiet_def same_sessions_def)
  ultimately show ?thesis
    using 1(3,4) quiet_clock [OF 1(2)] quiet_chatters [OF 1(2)] by (intro exI [of _ ?w] exI [of _ P1]) simp
qed

end

section \<open>As long as memory lasts\<close>

context chat_jansson
begin

lemma notify_pair_posts:
  assumes w: "inv E w P" and P: "P c = Some ts" and ok: "lasts E (oom w) {name, x, y} {clock w..<clock w + 10}"
    and conn: "chat_connection (snd item) = Some c"
  shows "\<exists>w' t. notify_pair E name x y item w = Some w' \<and> pair_text E name x y t \<and>
    quiet E w P w' (P(c \<mapsto> ts @ [t])) \<and> json_refs w' = json_refs w"
proof -
  let ?w = "w\<lparr>clock := clock w + 5, json_refs := json_refs w + ref_count (json_array E (clock w))\<rparr>"
  have q: "quiet E w P ?w P" using w by (rule quiet_calls)
  have s: "json_string E t z \<noteq> NULL" if "z \<in> {name, x, y}" "t \<in> {clock w..<clock w + 10}" for t z
    using lastsD(4) [OF ok subset_refl that(2,1)] .
  have "arrays_work E {clock w..<clock w + 5}" by (rule lastsD(2) [OF ok]) auto
  then obtain a where a: "pair_value E (clock w) x y = Some a" "is_pair E x y a"
    using pair_value_content [OF _ s s, of "clock w" x y] by auto
  have 1: "works E {clock ?w..<clock ?w + 4}" by (rule lastsD(1) [OF ok]) auto
  have 2: "\<not> oom ?w (clock ?w + 4)" "json_string E (clock ?w + 1) name \<noteq> NULL"
    using lastsD(3) [OF ok subset_refl, of "clock w + 9"] s [of name "clock w + 6"] by (simp_all add: add.commute)
  from notify_posts_works [OF 1 quiet_inv [OF q] P 2, of "Some a"] obtain w' v
    where call: "jrpc_notify E (Some c) name (Some a) ?w = Some w'" and v: "is_notification E name (Some a) v"
      and q': "quiet E ?w P w' (P(c \<mapsto> ts @ [json_text E (Some v)]))" and refs: "json_refs w' = json_refs ?w - 1"
    by auto
  have "ref_count (json_array E (clock w)) = 1"
    using a(1) pair_refs [of "clock w" x y] by simp
  moreover have "pair_text E name x y (json_text E (Some v))"
    using v a(2) by (auto simp: pair_text_def)
  ultimately show ?thesis
    using call refs conn a(1) quiet_trans [OF q q'] by (auto simp: notify_pair_eq)
qed

lemma error_posts:
  assumes w: "inv E w P" and P: "P c = Some ts" and ok: "lasts E (oom w) {s} {clock w..<clock w + 10}"
  shows "\<exists>w' t. jrpc_respond_error E (Some c) code s i w = Some w' \<and> error_text E code s i t \<and>
    quiet E w P w' (P(c \<mapsto> ts @ [t])) \<and> json_refs w' = json_refs w"
proof -
  have 1: "works E {clock w..<clock w + 9}" by (rule lastsD(1) [OF ok]) auto
  have 2: "\<not> oom w (clock w + 9)" "json_string E (clock w + 3) s \<noteq> NULL"
    using lastsD(3) [OF ok subset_refl, of "clock w + 9"] lastsD(4) [OF ok subset_refl, of "clock w + 3" s] by simp_all
  from respond_error_posts_works [OF 1 w P 2, of code i] show ?thesis
    by (fastforce simp: error_text_def)
qed

lemma name_posts:
  assumes w: "inv E w P" and P: "P c = Some ts" and ok: "lasts E (oom w) {name} {clock w..<clock w + 8}"
  shows "\<exists>w' t. jrpc_respond E (Some c) (name_value E (clock w) name) i
      (w\<lparr>clock := clock w + 3, json_refs := json_refs w + ref_count (json_object E (clock w))\<rparr>) = Some w' \<and>
    name_text E name i t \<and> quiet E w P w' (P(c \<mapsto> ts @ [t])) \<and> json_refs w' = json_refs w"
proof -
  let ?w = "w\<lparr>clock := clock w + 3, json_refs := json_refs w + ref_count (json_object E (clock w))\<rparr>"
  have q: "quiet E w P ?w P" using w by (rule quiet_calls)
  have s: "json_string E (clock w + 1) name \<noteq> NULL" using lastsD(4) [OF ok subset_refl] by simp
  have 3: "works E {clock w..<clock w + 3}" by (rule lastsD(1) [OF ok]) auto
  from name_value_content [OF 3 s] obtain r
    where r: "name_value E (clock w) name = Some r" "json_is_object E r" "string_member E r ''name'' name"
    by blast
  have 1: "works E {clock ?w..<clock ?w + 4}" by (rule lastsD(1) [OF ok]) auto
  have "\<not> oom ?w (clock ?w + 4)" using lastsD(3) [OF ok subset_refl, of "clock w + 7"] by (simp add: add.commute)
  from respond_posts_works [OF 1 quiet_inv [OF q] P this, of "Some r" i] obtain w' v
    where "jrpc_respond E (Some c) (Some r) i ?w = Some w'" and v: "is_response E (Some r) i v"
      and "quiet E ?w P w' (P(c \<mapsto> ts @ [json_text E (Some v)]))" and "json_refs w' = json_refs ?w - 1"
    by auto
  moreover have "name_text E name i (json_text E (Some v))" using v r by (auto simp: name_text_def)
  moreover have "ref_count (json_object E (clock w)) = 1"
    using r(1) name_value_refs [of "clock w" name] by simp
  ultimately show ?thesis using r(1) quiet_trans [OF q] by fastforce
qed

end

context chat_jansson_total
begin

lemma memory_lasts: "no_oom w \<Longrightarrow> utf8 E S \<Longrightarrow> lasts E (oom w) S N"
  using works_all array_total append_new unfolding lasts_def arrays_work_def no_oom_def utf8_def by blast

end

sublocale chat_jansson_total \<subseteq> full: sender E "\<lambda>lo hi. full_texts E" no_oom "\<lambda>s. utf8 E {s}"
proof unfold_locales
  fix w P c ts name x y s code i and item :: "ptr \<times> chatter" and w' :: "'b chat_heap_scheme"
  assume w: "inv E w P" "P c = Some ts" "no_oom (w :: 'b chat_heap_scheme)"
  show "\<exists>w' us. notify_pair E name x y item w = Some w' \<and> notices (full_texts E) name x y us \<and>
      quiet E w P w' (P(c \<mapsto> ts @ us)) \<and> json_refs w' = json_refs w"
    if "utf8 E {name}" "utf8 E {x}" "utf8 E {y}" "chat_connection (snd item) = Some c"
  proof -
    have "utf8 E {name, x, y}" using that(1-3) by (simp add: utf8_def)
    from notify_pair_posts [OF w(1,2) memory_lasts [OF w(3) this] that(4)] show ?thesis
      by (fastforce simp: full_texts_def)
  qed
  show "\<exists>w' us. jrpc_respond_error E (Some c) code s i w = Some w' \<and> refusals (full_texts E) code s i us \<and>
      quiet E w P w' (P(c \<mapsto> ts @ us)) \<and> json_refs w' = json_refs w" if "utf8 E {s}"
    using error_posts [OF w(1,2) memory_lasts [OF w(3) that], of code i] by (fastforce simp: full_texts_def)
  show "\<exists>w' us. jrpc_respond E (Some c) (name_value E (clock w) name) i
        (w\<lparr>clock := clock w + 3, json_refs := json_refs w + ref_count (json_object E (clock w))\<rparr>) = Some w' \<and>
      confirmations (full_texts E) name i us \<and> quiet E w P w' (P(c \<mapsto> ts @ us)) \<and> json_refs w' = json_refs w"
    if "utf8 E {name}"
    using name_posts [OF w(1,2) memory_lasts [OF w(3) that], of i] by (fastforce simp: full_texts_def)
qed (simp_all add: no_oom_def allows_def)

context chat_jansson_total
begin

lemma full_sender: "sender E (\<lambda>lo hi. full_texts E) no_oom (\<lambda>s. utf8 E {s})"
  by (rule full.sender_axioms)

text \<open>Every request.\<close>

lemma onmethod_answers:
  assumes w: "inv E w P" and P: "P c = Some ts" and oom: "no_oom w" and ok: "table_ok (chatters w) (dom P)"
    and utf8: "utf8 E ({''announce'', ''arrived'', ''name already used'', ''invalid params'', ''not implemented''} \<union>
      {x. string_element E params 0 x})"
  shows "\<exists>w' P' t. onmethod E (Some c) name params i w = Some w' \<and> inv E w' P' \<and> answer_text E i t \<and>
    only_notifications E (P(c \<mapsto> ts @ [t])) P' \<and> json_refs w' = json_refs w"
proof -
  have c: "c \<in> dom P" using P by blast
  from table_some [OF ok c] obtain who
    where who: "map_of (chatters w) (Some c) = Some who" and conn: "chat_connection who = Some c"
    by blast
  have error: "\<exists>w' P' t. jrpc_respond_error E (Some c) code s i w = Some w' \<and> inv E w' P' \<and> answer_text E i t \<and>
      only_notifications E (P(c \<mapsto> ts @ [t])) P' \<and> json_refs w' = json_refs w"
    if "s \<in> {''name already used'', ''invalid params'', ''not implemented''}" for code s
  proof -
    have "utf8 E {s}" by (rule utf8_subset [OF utf8]) (use that in auto)
    from error_posts [OF w P memory_lasts [OF oom this], of code i] show ?thesis
      using answer_texts(1) quiet_inv only_notifications_refl by blast
  qed
  consider (other) "name \<noteq> ''set_name''" | (invalid) "name = ''set_name''" "\<nexists>x. string_element E params 0 x"
    | (used) x where "name = ''set_name''" "string_element E params 0 x" "is_name_used x w"
    | (new) x where "name = ''set_name''" "string_element E params 0 x" "\<not> is_name_used x w"
    by blast
  then show ?thesis
  proof cases
    case other
    then show ?thesis using error [of "''not implemented''"] onmethod_errors(1) [OF ok c other, of E params i] by simp
  next
    case invalid
    then show ?thesis using error [of "''invalid params''"] onmethod_errors(2) [OF ok c invalid(2), of i] invalid(1) by simp
  next
    case used
    then show ?thesis using error [of "''name already used''"] onmethod_errors(3) [OF ok c used(2,3), of i] used(1) by simp
  next
    case new
    have S: "utf8 E {''announce''}" "utf8 E {''arrived''}" "utf8 E {x}" by (rule utf8_subset [OF utf8], use new(2) in auto)+
    have "onmethod E (Some c) name params i w = set_name E (Some c) params i w"
      using who new(1) by (simp add: onmethod_def)
    with full.set_name_posts [OF w P oom ok who new(2,3) S, of i] show ?thesis
      by (auto simp: full_texts_simps broadcast_posted intro: answer_texts(2) broadcast_notifications)
  qed
qed

end

end
