(* ===== verification/Jrpc_Chat_Service.thy ===== *)
theory Jrpc_Chat_Service
  imports Jrpc_Chat_Rules
begin

text \<open>
  The chat server as its clients see it: the handlers of \<open>Jrpc_Chat\<close> behind the library's callback
  and event loop, from the bytes that are received to the texts that wait for the clients.
\<close>

section \<open>An instance of the contract\<close>

text \<open>\<open>ref_env\<close> with arrays, and a table whose iteration order is turned round by an insertion.\<close>

definition ref_array_append :: "json option \<Rightarrow> json option \<Rightarrow> json option" where
  "ref_array_append arr v =
     (case (arr, v) of
        (Some (JArray vs), Some x) \<Rightarrow> Some (JArray (vs @ [x]))
      | _ \<Rightarrow> arr)"

definition ref_array_get :: "json \<Rightarrow> nat \<Rightarrow> json option" where
  "ref_array_get v n = (case v of JArray vs \<Rightarrow> if n < length vs then Some (vs ! n) else NULL | _ \<Rightarrow> NULL)"

definition ref_chat_env :: "json chat_env" where
  "ref_chat_env = env.extend ref_env
     \<lparr>json_array = (\<lambda>t. Some (JArray [])), json_array_append_new = (\<lambda>t. ref_array_append),
      json_array_get = ref_array_get, rehash = rev\<rparr>"

declare ref_env_def [instance_defs] ref_chat_env_def [instance_defs] env.defs [instance_defs]

lemma ref_array_get_append: "ref_array_get (JArray (vs @ [x])) = (ref_array_get (JArray vs))(length vs \<mapsto> x)"
  by (auto simp: ref_array_get_def nth_append fun_eq_iff)

lemma ref_array_length: "(\<And>m. ref_array_get (JArray vs) m = NULL \<longleftrightarrow> n \<le> m) \<Longrightarrow> n = length vs"
proof (rule le_antisym)
  assume get: "\<And>m. ref_array_get (JArray vs) m = NULL \<longleftrightarrow> n \<le> m"
  from get [of "length vs"] show "n \<le> length vs" by (simp add: ref_array_get_def)
  from get [of n] show "length vs \<le> n" by (simp add: ref_array_get_def split: if_splits)
qed

lemma jansson_total_truncate: "jansson_total (env.truncate E) \<Longrightarrow> jansson_total E"
  by (simp add: jansson_total_def jansson_def jansson_total_axioms_def env.truncate_def json_text_def)

lemma truncate_ref_chat_env: "env.truncate ref_chat_env = ref_env"
  by (simp add: instance_defs)

interpretation chat_ref: chat_jansson_total ref_chat_env
proof -
  have total: "jansson_total ref_chat_env"
    by (rule jansson_total_truncate) (simp add: truncate_ref_chat_env ref.jansson_total_axioms)
  have "chat_jansson_axioms ref_chat_env"
    by unfold_locales
       (auto simp: instance_defs ref_array_get_def ref_array_append_def split: json.splits option.splits)
  moreover have "chat_jansson_total_axioms ref_chat_env"
  proof
    fix a n x t
    assume "json_is_array ref_chat_env a" and get: "\<And>m. json_array_get ref_chat_env a m = NULL \<longleftrightarrow> n \<le> m"
    then obtain vs where a: "a = JArray vs"
      by (auto simp: instance_defs split: json.splits)
    have "n = length vs"
      using get by (intro ref_array_length) (simp add: a instance_defs)
    with a show "\<exists>a'. json_array_append_new ref_chat_env t (Some a) (Some x) = Some a' \<and>
        json_is_array ref_chat_env a' \<and> json_array_get ref_chat_env a' = (json_array_get ref_chat_env a)(n \<mapsto> x)"
      by (simp add: instance_defs ref_array_append_def ref_array_get_append)
  qed (simp add: instance_defs)
  ultimately show "chat_jansson_total ref_chat_env"
    using total by (simp add: chat_jansson_total_def chat_jansson_def jansson_total_def)
qed

section \<open>A message received\<close>

text \<open>What a handler did for a JSON-RPC call, as the outcome of \<open>jrpc_protocol_process\<close>.\<close>

lemma processed:
  fixes w w2 :: "'a chat_heap_scheme"
  assumes load: "json_loadb E (clock w) input = Some r" and call: "rpc_call E r name params"
    and p: "deref (protos w) protocol = Some p" "chat_protocol p"
    and handler: "(case rpc_id E r of
        None \<Rightarrow> onnotify E connection name params
      | Some i \<Rightarrow> onmethod E connection name params i)
        (w\<lparr>clock := Suc (clock w), json_refs := json_refs w + 1\<rparr>) = Some w2"
    and "inv E w2 P2" and "json_refs w2 = json_refs w + 1"
  shows "\<exists>w'. jrpc_protocol_process E (chat_user E) protocol connection input w = Some w' \<and> inv E w' P2 \<and>
    chatters w' = chatters w2 \<and> json_refs w' = json_refs w \<and> oom w' = oom w2 \<and> clock w' = clock w2"
proof -
  have "(case rpc_id E r of
      None \<Rightarrow> call_onnotify (chat_user E) (p_onnotify p) connection name params
        (w\<lparr>clock := Suc (clock w), json_refs := json_refs w + 1\<rparr>)
    | Some i \<Rightarrow> call_onmethod E (chat_user E) (p_onmethod p) connection name params i
        (w\<lparr>clock := Suc (clock w), json_refs := json_refs w + 1\<rparr>)) = Some w2"
    using handler p(2) by (simp add: chat_protocol_def chat_user_def split: option.splits)
  with process_call [OF load call p(1), of "chat_user E" connection]
  have "jrpc_protocol_process E (chat_user E) protocol connection input w = Some (w2\<lparr>json_refs := json_refs w2 - 1\<rparr>)"
    by simp
  then show ?thesis
    using assms(6,7) by simp
qed

lemma loaded:
  fixes w :: "'a chat_heap_scheme"
  assumes "inv E w P" and "chat_inv w (dom P)"
  shows "inv E (w\<lparr>clock := Suc (clock w), json_refs := json_refs w + 1\<rparr>) P"
    and "table_ok (chatters (w\<lparr>clock := Suc (clock w), json_refs := json_refs w + 1\<rparr>)) (dom P)"
  using assms by (simp_all add: chat_inv_def)

lemma loaded_no_oom: "no_oom w \<Longrightarrow> no_oom (w\<lparr>clock := n, json_refs := r\<rparr>)"
  by (simp add: no_oom_def)

context sender
begin

lemma loaded_K: "K w \<Longrightarrow> K (w\<lparr>clock := n, json_refs := r\<rparr>)"
  by (rule K_same) simp_all

lemma process_chat:
  assumes w: "inv E w P" and K: "K w" and table: "chat_inv w (dom P)"
    and load: "json_loadb E (clock w) input = Some r" and call: "rpc_call E r ''chat'' params"
    and id: "rpc_id E r = None" and p: "deref (protos w) protocol = Some p" "chat_protocol p"
    and who: "map_of (chatters w) (Some c) = Some who" and m: "string_element E params 0 m"
    and S: "S ''message''" "S (chat_name who)" "S m"
  shows "\<exists>w' P'. jrpc_protocol_process E (chat_user E) protocol (Some c) input w = Some w' \<and> inv E w' P' \<and>
    posted_to (dom P) (notices (T (clock w) (clock w')) ''message'' (chat_name who) m) P P' \<and> chatters w' = chatters w \<and>
    json_refs w' = json_refs w \<and> oom w' = oom w"
proof -
  let ?w = "w\<lparr>clock := Suc (clock w), json_refs := json_refs w + 1\<rparr>"
  have "map_of (chatters ?w) (Some c) = Some who" using who by simp
  from chat_posts [OF loaded(1) [OF w table] loaded_K [OF K] loaded(2) [OF w table] this m S] obtain w2 P2
    where 2: "onnotify E (Some c) ''chat'' params ?w = Some w2" "quiet E ?w P w2 P2"
      "posted_to (dom P) (notices (T (clock ?w) (clock w2)) ''message'' (chat_name who) m) P P2" "json_refs w2 = json_refs ?w"
    by blast
  have posted: "posted_to (dom P) (notices (T (clock w) (clock w2)) ''message'' (chat_name who) m) P P2"
    using within(4) [OF _ _ 2(3)] by simp
  have "json_refs w2 = json_refs w + 1" "chatters w2 = chatters w" "oom w2 = oom w"
    using 2(4) quiet_chatters [OF 2(2)] 2(2) by (simp_all add: quiet_def same_sessions_def)
  with processed [OF load call p _ quiet_inv [OF 2(2)], of "Some c"] 2(1) posted id show ?thesis
    by fastforce
qed

lemma process_name:
  assumes w: "inv E w P" and K: "K w" and table: "chat_inv w (dom P)"
    and load: "json_loadb E (clock w) input = Some r" and call: "rpc_call E r ''set_name'' params"
    and id: "rpc_id E r = Some i" and p: "deref (protos w) protocol = Some p" "chat_protocol p"
    and P: "P c = Some ts" and who: "map_of (chatters w) (Some c) = Some who"
    and name: "string_element E params 0 name" and new: "\<forall>(k, x) \<in> set (chatters w). chat_name x \<noteq> name"
    and S: "S ''announce''" "S ''arrived''" "S name"
  shows "\<exists>w' P' us. jrpc_protocol_process E (chat_user E) protocol (Some c) input w = Some w' \<and> inv E w' P' \<and>
    confirmations (T (clock w) (clock w')) name i us \<and>
    posted_to (dom P) (notices (T (clock w) (clock w')) ''announce'' ''arrived'' name) (P(c \<mapsto> ts @ us)) P' \<and>
    map_of (chatters w') = (map_of (chatters w))(Some c \<mapsto> who\<lparr>chat_name := name\<rparr>) \<and> json_refs w' = json_refs w \<and>
    oom w' = oom w"
proof -
  let ?w = "w\<lparr>clock := Suc (clock w), json_refs := json_refs w + 1\<rparr>"
  have who': "map_of (chatters ?w) (Some c) = Some who" using who by simp
  have new': "\<not> is_name_used name ?w" using new by (auto simp: is_name_used_def list_ex_iff)
  from set_name_posts [OF loaded(1) [OF w table] P loaded_K [OF K] loaded(2) [OF w table] who' name new' S, of i]
  obtain w2 P2 us where 2: "set_name E (Some c) params i ?w = Some w2" "inv E w2 P2"
      "confirmations (T (clock ?w) (clock w2)) name i us"
      "posted_to (dom P) (notices (T (clock ?w) (clock w2)) ''announce'' ''arrived'' name) (P(c \<mapsto> ts @ us)) P2"
      "chatters w2 = renamed (Some c) who name (chatters w)" "json_refs w2 = json_refs w + 1" "oom w2 = oom w"
    by auto
  have "onmethod E (Some c) ''set_name'' params i ?w = Some w2"
    using 2(1) who by (simp add: onmethod_def)
  with processed [OF load call p _ 2(2,6), of "Some c"] id obtain w'
    where "jrpc_protocol_process E (chat_user E) protocol (Some c) input w = Some w'" "inv E w' P2"
      "chatters w' = chatters w2" "json_refs w' = json_refs w" "oom w' = oom w2" and clock: "clock w' = clock w2"
    by auto
  moreover have "confirmations (T (clock w) (clock w')) name i us"
    "posted_to (dom P) (notices (T (clock w) (clock w')) ''announce'' ''arrived'' name) (P(c \<mapsto> ts @ us)) P2"
    using within(3) [OF _ _ 2(3)] within(4) [OF _ _ 2(4)] by (simp_all add: clock)
  ultimately show ?thesis using 2(5,7) by (metis map_of_renamed)
qed

lemma process_error:
  assumes w: "inv E w P" and K: "K w" and table: "chat_inv w (dom P)"
    and load: "json_loadb E (clock w) input = Some r" and call: "rpc_call E r name params"
    and id: "rpc_id E r = Some i" and p: "deref (protos w) protocol = Some p" "chat_protocol p"
    and P: "P c = Some ts" and S: "S s"
    and run: "\<And>w'. K w' \<Longrightarrow> chatters w' = chatters w \<Longrightarrow>
      onmethod E (Some c) name params i w' = jrpc_respond_error E (Some c) code s i w'"
  shows "\<exists>w' us. jrpc_protocol_process E (chat_user E) protocol (Some c) input w = Some w' \<and>
    refusals (T (clock w) (clock w')) code s i us \<and> inv E w' (P(c \<mapsto> ts @ us)) \<and>
    chatters w' = chatters w \<and> json_refs w' = json_refs w \<and> oom w' = oom w"
proof -
  let ?w = "w\<lparr>clock := Suc (clock w), json_refs := json_refs w + 1\<rparr>"
  from refusal_posted [OF loaded(1) [OF w table] P loaded_K [OF K] S, of code i]
  obtain w2 us where 2: "jrpc_respond_error E (Some c) code s i ?w = Some w2"
      "refusals (T (clock ?w) (clock w2)) code s i us" "quiet E ?w P w2 (P(c \<mapsto> ts @ us))" "json_refs w2 = json_refs w + 1"
    by auto
  have "chatters w2 = chatters w" "oom w2 = oom w"
    using quiet_chatters [OF 2(3)] 2(3) by (simp_all add: quiet_def same_sessions_def)
  moreover have "refusals (T (clock w) (clock w2)) code s i us" using within(2) [OF _ _ 2(2)] by simp
  ultimately show ?thesis
    using processed [OF load call p _ quiet_inv [OF 2(3)] 2(4), of "Some c"] run [OF loaded_K [OF K]] 2(1) id
    by fastforce
qed

lemma departure_callback:
  assumes w: "inv E w P" and K: "K w" and table: "chat_inv w (dom P)"
    and p: "deref (protos w) (lp_user lp) = Some p" "chat_protocol p"
    and who: "map_of (chatters w) (Some c) = Some who" and S: "S ''announce''" "S ''gone''" "S (chat_name who)"
  shows "\<exists>w' P''. jrpc_protocol_callback E (chat_user E) (Some lp) s LWS_CALLBACK_CLOSED (Some c) input w = Some (0, w') \<and>
    inv E w' (P''(c \<mapsto> [])) \<and> posted_to (dom P) (notices (T (clock w) (clock w')) ''announce'' ''gone'' (chat_name who)) P P'' \<and>
    map_of (chatters w') = (map_of (chatters w))(Some c := None) \<and> json_refs w' = json_refs w \<and> oom w' = oom w"
proof -
  have ok: "table_ok (chatters w) (dom P)" using table by (simp add: chat_inv_def)
  have c: "c \<in> dom P" using table_entry [OF ok map_of_SomeD [OF who]] by blast
  from departure_posts [OF w K ok who S] obtain w1 P1
    where 1: "ondisconnected E (Some c) w = Some w1" "inv E w1 P1"
      "posted_to (dom P) (notices (T (clock w) (clock w1)) ''announce'' ''gone'' (chat_name who)) P P1"
      "chatters w1 = AList.delete (Some c) (chatters w)" "json_refs w1 = json_refs w" "oom w1 = oom w"
    by blast
  have "c \<in> dom P1" using c 1(3) by (simp add: posted_to_def)
  from close_session [OF 1(2) this, of s] obtain w2
    where 2: "jrpc_connection_cleanup (Some c) w1 = Some w2" "request_writeable s (Some c) w2 = Some w2"
      "inv E w2 (P1(c \<mapsto> []))" "cheap.more w2 = cheap.more w1" "json_refs w2 = json_refs w1"
      "oom w2 = oom w1" "clock w2 = clock w1"
    by blast
  have "posted_to (dom P) (notices (T (clock w) (clock w2)) ''announce'' ''gone'' (chat_name who)) P P1"
    using 1(3) by (simp add: 2(7))
  moreover have "chatters w2 = chatters w1" using 2(4) by (cases w1; cases w2) simp
  moreover have "jrpc_protocol_callback E (chat_user E) (Some lp) s LWS_CALLBACK_CLOSED (Some c) input w = Some (0, w2)"
    using 1(1) 2(1,2) p by (simp add: jrpc_protocol_callback_def chat_protocol_def chat_user_def Let_def)
  ultimately show ?thesis
    using 1(4-6) 2(3,5,6) AList.delete_conv [of "Some c" "chatters w"] by fastforce
qed

end

text \<open>Two sessions with the chat handlers installed at address 0: \<open>ann\<close>, and somebody without a name.\<close>

definition room_protocol :: jrpc_protocol where
  "room_protocol =
     \<lparr>p_server = Some 0, p_onmethod = Some (User_onmethod 0), p_onnotify = Some (User_onnotify 0),
      p_onconnected = Some (User_onconnected 0), p_ondisconnected = Some (User_ondisconnected 0),
      p_user_data = None, p_fd = (Some 3, Some 4)\<rparr>"

definition empty_room :: "nat set \<Rightarrow> chat_heap" where
  "empty_room bad =
     \<lparr>clock = 2, oom = (\<lambda>i. i \<in> bad), json_refs = 0, blocks = Map.empty, lws_log = [], conns = Map.empty,
      protos = [0 \<mapsto> room_protocol],
      sockets = [3 \<mapsto> \<lparr>peer = 4, inbox = []\<rparr>, 4 \<mapsto> \<lparr>peer = 3, inbox = []\<rparr>], next_fd = 5,
      servers = Map.empty, cstrs = Map.empty, chatters = [], is_shutdown_requested = False,
      std_out = [], std_err = []\<rparr>"

definition room :: "nat set \<Rightarrow> chat_heap" where
  "room bad = (open_session (Some 0) 1 6 (open_session (Some 0) 0 5 (empty_room bad)))
     \<lparr>chatters := [(Some 0, \<lparr>chat_connection = Some 0, chat_name = ''ann''\<rparr>),
                   (Some 1, \<lparr>chat_connection = Some 1, chat_name = []\<rparr>)]\<rparr>"

lemma room_protocol_ok: "chat_protocol room_protocol"
  by (simp add: room_protocol_def chat_protocol_def wired_def)

lemma empty_room_fresh: "fresh_server chat_protocol example_lws (empty_room bad)"
  using room_protocol_ok by (simp add: fresh_server_def configured_def example_lws_def empty_room_def)

lemma room_inv: "inv E (room bad) [0 \<mapsto> [], 1 \<mapsto> []]"
proof -
  have "inv E (open_session (Some 0) 1 6 (open_session (Some 0) 0 5 (empty_room bad))) [0 \<mapsto> [], 1 \<mapsto> []]"
    by (intro inv_open_session inv_empty) (simp_all add: open_session_def wsi_of_def empty_room_def split: if_splits)
  then show ?thesis unfolding room_def by (rule inv_frame) simp_all
qed

lemma room_simps [simp]:
  "clock (room bad) = 2" "oom (room bad) = (\<lambda>i. i \<in> bad)" "json_refs (room bad) = 0"
  "protos (room bad) = [0 \<mapsto> room_protocol]"
  "chatters (room bad) = [(Some 0, \<lparr>chat_connection = Some 0, chat_name = ''ann''\<rparr>),
     (Some 1, \<lparr>chat_connection = Some 1, chat_name = []\<rparr>)]"
  by (simp_all add: room_def open_session_def empty_room_def)

lemma room_table: "chat_inv (room bad) (dom [0 \<mapsto> ([] :: string list), 1 \<mapsto> []])"
  by (auto simp: chat_inv_def table_ok_def names_unique_def)

lemma room_no_oom: "no_oom (room {})"
  by (simp add: no_oom_def)

text \<open>A client comes and sends something.\<close>

lemma chat_run_possible:
  assumes E: "chat_jansson E"
  shows "\<exists>w. steps E (chat_user E) example_lws (empty_room bad) [Established 0 5, Received 0 input] w"
proof -
  note W = chat_jansson.chat_handlers [OF E]
  have "chat_inv (empty_room bad) {}" by (simp add: empty_room_def chat_inv_def table_ok_def names_unique_def)
  from wired_handlers.fresh_sound [OF W empty_room_fresh this]
  have 0: "sound E chat_protocol chat_inv example_lws (empty_room bad) Map.empty" .
  have e: "enabled example_lws (Established 0 5) (empty_room bad)" by (simp add: empty_room_def wsi_of_def)
  from wired_handlers.run_event [OF W 0 e] obtain w P
    where 1: "steps E (chat_user E) example_lws (empty_room bad) [Established 0 5] w"
      and P: "sound E chat_protocol chat_inv example_lws w P" "0 \<in> dom P"
    by auto
  from wired_handlers.run_event [OF W P(1) enabled_session(2) [OF P]] obtain w'
    where "steps E (chat_user E) example_lws w [Received 0 input] w'" by blast
  with 1 show ?thesis using steps_append by fastforce
qed

lemma chat_run_exists:
  "\<exists>w. steps ref_chat_env (chat_user ref_chat_env) example_lws (empty_room {}) [Established 0 5, Received 0 input] w"
  by (rule chat_run_possible [OF chat_ref.chat_jansson_axioms])

lemma ref_utf8: "utf8 ref_chat_env S"
  by (simp add: utf8_def instance_defs)

section \<open>Properties\<close>

text \<open>C20. The chat server never goes wrong: with the handlers of the example installed and an empty
  table at the start, every call that the event loop makes, in every state that can be reached and
  for every pattern of allocation failures, is defined and returns. No assumption on the handlers
  is left.\<close>

theorem chat_server_safe:
  assumes E: "chat_jansson E" and fresh: "fresh_server chat_protocol lp w0" and empty: "chatters w0 = []"
    and run: "steps E (chat_user E) lp w0 es w" and e: "enabled lp e w"
  shows "\<exists>w'. perform E (chat_user E) lp e w = Some w' \<and> (\<exists>P. inv E w' P)"
proof -
  have W: "wired_handlers E (chat_user E) chat_protocol chat_inv"
    using E by (rule chat_jansson.chat_handlers)
  have "chat_inv w0 {}" using empty by (simp add: chat_inv_def table_ok_def names_unique_def)
  with wired_handlers.steps_sound [OF W run wired_handlers.fresh_sound [OF W fresh]] obtain P
    where "sound E chat_protocol chat_inv lp w P" by blast
  from wired_handlers.event_ok [OF W this e] show ?thesis
    by (auto simp: sound_def)
qed

theorem chat_server_safe_witness:
  "\<exists>w'. perform ref_chat_env (chat_user ref_chat_env) example_lws (Established 0 5) (empty_room {2, 3}) = Some w' \<and>
    (\<exists>P. inv ref_chat_env w' P)"
proof (rule chat_server_safe [OF chat_ref.chat_jansson_axioms empty_room_fresh _ steps_Nil])
  show "enabled example_lws (Established 0 5) (empty_room {2, 3})"
    by (simp add: empty_room_def wsi_of_def)
qed (simp add: empty_room_def)

text \<open>C21. The table of the participants is well-formed in every reachable state: it has exactly one
  entry for each open connection, kept under that connection, and two participants with the same
  name are one and the same, but for those who have not named themselves.\<close>

theorem chat_table_wellformed:
  fixes w :: "'a chat_heap_scheme"
  assumes E: "chat_jansson E" and fresh: "fresh_server chat_protocol lp w0" and empty: "chatters w0 = []"
    and run: "steps E (chat_user E) lp w0 es w"
  shows "distinct (map fst (chatters w)) \<and> set (map fst (chatters w)) = Some ` dom (conns w) \<and>
    (\<forall>(k, x) \<in> set (chatters w). chat_connection x = k) \<and>
    (\<forall>(k, x) \<in> set (chatters w). \<forall>(k', x') \<in> set (chatters w).
       chat_name x = chat_name x' \<and> chat_name x \<noteq> [] \<longrightarrow> k = k')"
proof -
  have W: "wired_handlers E (chat_user E) chat_protocol chat_inv"
    using E by (rule chat_jansson.chat_handlers)
  have "chat_inv w0 {}" using empty by (simp add: chat_inv_def table_ok_def names_unique_def)
  with wired_handlers.steps_sound [OF W run wired_handlers.fresh_sound [OF W fresh]] obtain P
    where w: "sound E chat_protocol chat_inv lp w P" by blast
  then have "table_ok (chatters w) (dom (conns w))"
    using sound_dom [OF w] by (simp add: sound_def chat_inv_def)
  then show ?thesis
    unfolding table_ok_def names_unique_def by (simp add: split_beta') (metis prod.collapse)
qed

theorem chat_table_wellformed_witness:
  "\<exists>w. steps ref_chat_env (chat_user ref_chat_env) example_lws (empty_room {}) [Established 0 5, Received 0 ''[]''] w \<and>
    distinct (map fst (chatters w)) \<and> set (map fst (chatters w)) = Some ` dom (conns w)"
proof -
  have empty: "chatters (empty_room {}) = []" by (simp add: empty_room_def)
  from chat_run_exists [of "''[]''"] obtain w
    where run: "steps ref_chat_env (chat_user ref_chat_env) example_lws (empty_room {}) [Established 0 5, Received 0 ''[]''] w"
    by blast
  from chat_table_wellformed [OF chat_ref.chat_jansson_axioms empty_room_fresh empty run] run
  show ?thesis by blast
qed

text \<open>C15. A chat message reaches everybody: when the bytes of a notification \<open>chat\<close> with the text
  \<open>m\<close> arrive, every open connection, the sender included, gets exactly one more text, a notification
  \<open>message\<close> with the sender's name and \<open>m\<close>, in whatever order the table is iterated; nothing
  else is sent, the table stays the same, and the references to JSON values are balanced.\<close>

theorem chat_message_broadcast:
  fixes w :: "'a chat_heap_scheme"
  assumes E: "chat_jansson_total E" and w: "inv E w P" and oom: "no_oom w" and table: "chat_inv w (dom P)"
    and load: "json_loadb E (clock w) input = Some r" and call: "rpc_call E r ''chat'' params"
    and id: "rpc_id E r = None" and p: "deref (protos w) protocol = Some p" "chat_protocol p"
    and who: "map_of (chatters w) (Some c) = Some who" and m: "string_element E params 0 m"
    and utf8: "utf8 E {''message'', chat_name who, m}"
  shows "\<exists>w' P'. jrpc_protocol_process E (chat_user E) protocol (Some c) input w = Some w' \<and> inv E w' P' \<and>
    broadcast E ''message'' (chat_name who) m (dom P) P P' \<and> chatters w' = chatters w \<and> json_refs w' = json_refs w"
proof -
  have S: "utf8 E {''message''}" "utf8 E {chat_name who}" "utf8 E {m}" by (rule utf8_subset [OF utf8], simp)+
  show ?thesis
    using sender.process_chat [OF chat_jansson_total.full_sender [OF E] w oom table load call id p who m S]
    by (auto simp: broadcast_posted)
qed

definition chat_request :: json where
  "chat_request = JObject [(''method'', JString ''chat''), (''params'', JArray [JString ''hi''])]"

lemma chat_request_load: "json_loadb ref_chat_env n ''{\"method\":\"chat\",\"params\":[\"hi\"]}'' = Some chat_request"
proof -
  have "print_json chat_request = ''{\"method\":\"chat\",\"params\":[\"hi\"]}''"
    by (simp add: chat_request_def)
  moreover have "ref_loadb (print_json chat_request) = Some chat_request"
    by (rule ref_load_print) (simp add: chat_request_def is_container_def)
  ultimately show ?thesis by (simp add: instance_defs)
qed

theorem chat_message_broadcast_witness:
  "\<exists>w' P'. jrpc_protocol_process ref_chat_env (chat_user ref_chat_env) (Some 0) (Some 0)
      ''{\"method\":\"chat\",\"params\":[\"hi\"]}'' (room {}) = Some w' \<and>
    inv ref_chat_env w' P' \<and> broadcast ref_chat_env ''message'' ''ann'' ''hi'' {0, 1} [0 \<mapsto> [], 1 \<mapsto> []] P'"
proof -
  have call: "rpc_call ref_chat_env chat_request ''chat'' (JArray [JString ''hi''])"
    and id: "rpc_id ref_chat_env chat_request = None"
    and m: "string_element ref_chat_env (JArray [JString ''hi'']) 0 ''hi''"
    by (simp_all add: chat_request_def rpc_call_def rpc_id_def string_member_def string_element_def
        instance_defs ref_get_def ref_array_get_def)
  have p: "deref (protos (room {})) (Some 0) = Some room_protocol" by simp
  have who: "map_of (chatters (room {})) (Some 0) = Some \<lparr>chat_connection = Some 0, chat_name = ''ann''\<rparr>" by simp
  from chat_message_broadcast [OF chat_ref.chat_jansson_total_axioms room_inv room_no_oom room_table
      chat_request_load call id p room_protocol_ok who m ref_utf8]
  show ?thesis by (auto simp: insert_commute)
qed

text \<open>C25. A free name is given out: the bytes of a request \<open>set_name\<close> with a name that nobody has lead
  to a response with the name and the request's \<open>id\<close> to the sender, and after it to one announcement
  of the arrival for everybody; the table then has the sender under the new name and is
  otherwise unchanged.\<close>

theorem set_name_accepted:
  fixes w :: "'a chat_heap_scheme"
  assumes E: "chat_jansson_total E" and w: "inv E w P" and oom: "no_oom w" and table: "chat_inv w (dom P)"
    and load: "json_loadb E (clock w) input = Some r" and call: "rpc_call E r ''set_name'' params"
    and id: "rpc_id E r = Some i" and p: "deref (protos w) protocol = Some p" "chat_protocol p"
    and P: "P c = Some ts" and who: "map_of (chatters w) (Some c) = Some who"
    and name: "string_element E params 0 name" and new: "\<forall>(k, x) \<in> set (chatters w). chat_name x \<noteq> name"
    and utf8: "utf8 E {''announce'', ''arrived'', name}"
  shows "\<exists>w' P' t. jrpc_protocol_process E (chat_user E) protocol (Some c) input w = Some w' \<and> inv E w' P' \<and>
    name_text E name i t \<and> broadcast E ''announce'' ''arrived'' name (dom P) (P(c \<mapsto> ts @ [t])) P' \<and>
    map_of (chatters w') = (map_of (chatters w))(Some c \<mapsto> who\<lparr>chat_name := name\<rparr>) \<and> json_refs w' = json_refs w"
proof -
  have S: "utf8 E {''announce''}" "utf8 E {''arrived''}" "utf8 E {name}" by (rule utf8_subset [OF utf8], simp)+
  show ?thesis
    using sender.process_name [OF chat_jansson_total.full_sender [OF E] w oom table load call id p P who name new S]
    by (auto simp: broadcast_posted full_texts_simps)
qed

definition name_request :: "string \<Rightarrow> json" where
  "name_request name = JObject [(''method'', JString ''set_name''), (''params'', JArray [JString name]), (''id'', JInt 7)]"

lemma name_request_load: "json_loadb ref_chat_env n (print_json (name_request name)) = Some (name_request name)"
  using ref_load_print [of "name_request name"]
  by (simp add: instance_defs name_request_def is_container_def)

lemma name_request_call:
  "rpc_call ref_chat_env (name_request name) ''set_name'' (JArray [JString name])"
  "rpc_id ref_chat_env (name_request name) = Some 7" "string_element ref_chat_env (JArray [JString name]) 0 name"
  by (simp_all add: name_request_def rpc_call_def rpc_id_def string_member_def string_element_def
      instance_defs ref_get_def ref_array_get_def json_to_int_def)

lemma room_dom: "dom [0 \<mapsto> ([] :: string list), 1 \<mapsto> []] = {0 :: nat, 1}"
  by auto

lemma room_lookups:
  "deref (protos (room bad)) (Some 0) = Some room_protocol"
  "map_of (chatters (room bad)) (Some 1) = Some \<lparr>chat_connection = Some 1, chat_name = []\<rparr>"
  "([0 \<mapsto> [], 1 \<mapsto> []] :: mailbox) 1 = Some []"
  by simp_all

theorem set_name_accepted_witness:
  "\<exists>w' P' t. jrpc_protocol_process ref_chat_env (chat_user ref_chat_env) (Some 0) (Some 1)
      (print_json (name_request ''bob'')) (room {}) = Some w' \<and> inv ref_chat_env w' P' \<and>
    name_text ref_chat_env ''bob'' 7 t \<and>
    broadcast ref_chat_env ''announce'' ''arrived'' ''bob'' {0, 1} [0 \<mapsto> [], 1 \<mapsto> [t]] P' \<and>
    map_option chat_name (map_of (chatters w') (Some 1)) = Some ''bob''"
proof -
  have new: "\<forall>(k, x) \<in> set (chatters (room {})). chat_name x \<noteq> ''bob''" by simp
  from set_name_accepted [OF chat_ref.chat_jansson_total_axioms room_inv room_no_oom room_table name_request_load
      name_request_call(1,2) room_lookups(1) room_protocol_ok room_lookups(3,2) name_request_call(3) new ref_utf8]
  obtain w' P' t where "jrpc_protocol_process ref_chat_env (chat_user ref_chat_env) (Some 0) (Some 1)
      (print_json (name_request ''bob'')) (room {}) = Some w'" "inv ref_chat_env w' P'" "name_text ref_chat_env ''bob'' 7 t"
    "broadcast ref_chat_env ''announce'' ''arrived'' ''bob'' {0, 1} [0 \<mapsto> [], 1 \<mapsto> [t]] P'"
    "map_of (chatters w') = (map_of (chatters (room {})))(Some 1 \<mapsto> \<lparr>chat_connection = Some 1, chat_name = ''bob''\<rparr>)"
    unfolding room_dom fun_upd_upd append_Nil chatter.simps by blast
  then show ?thesis by (intro exI conjI) (assumption | simp)+
qed

text \<open>A name that is taken, be it by the sender itself, is refused: the request \<open>set_name\<close> leads to
  one error response with code 1 to the sender and to nothing else, and the table stays the same.\<close>

theorem set_name_refused:
  fixes w :: "'a chat_heap_scheme"
  assumes E: "chat_jansson_total E" and w: "inv E w P" and oom: "no_oom w" and table: "chat_inv w (dom P)"
    and load: "json_loadb E (clock w) input = Some r" and call: "rpc_call E r ''set_name'' params"
    and id: "rpc_id E r = Some i" and p: "deref (protos w) protocol = Some p" "chat_protocol p"
    and P: "P c = Some ts" and name: "string_element E params 0 name"
    and used: "(k, x) \<in> set (chatters w)" "chat_name x = name" and utf8: "utf8 E {''name already used''}"
  shows "\<exists>w' t. jrpc_protocol_process E (chat_user E) protocol (Some c) input w = Some w' \<and>
    error_text E 1 ''name already used'' i t \<and> inv E w' (P(c \<mapsto> ts @ [t])) \<and>
    chatters w' = chatters w \<and> json_refs w' = json_refs w"
proof -
  have "c \<in> dom P" using P by blast
  moreover have "is_name_used name w'" if "chatters w' = chatters w" for w' :: "'a chat_heap_scheme"
    using used that by (auto simp: is_name_used_def list_ex_iff intro!: bexI [of _ "(k, x)"])
  ultimately have run: "onmethod E (Some c) ''set_name'' params i w' = jrpc_respond_error E (Some c) 1 ''name already used'' i w'"
    if "chatters w' = chatters w" for w' :: "'a chat_heap_scheme"
    using that table name by (intro onmethod_errors(3) [of w' "dom P"]) (simp_all add: chat_inv_def)
  from sender.process_error [OF chat_jansson_total.full_sender [OF E] w oom table load call id p P utf8 run] show ?thesis
    by (auto simp: full_texts_simps)
qed

theorem set_name_refused_witness:
  "\<exists>w' t. jrpc_protocol_process ref_chat_env (chat_user ref_chat_env) (Some 0) (Some 1)
      (print_json (name_request ''ann'')) (room {}) = Some w' \<and>
    error_text ref_chat_env 1 ''name already used'' 7 t \<and> inv ref_chat_env w' [0 \<mapsto> [], 1 \<mapsto> [t]] \<and>
    chatters w' = chatters (room {})"
proof -
  have used: "(Some 0, \<lparr>chat_connection = Some 0, chat_name = ''ann''\<rparr>) \<in> set (chatters (room {}))"
    "chat_name \<lparr>chat_connection = Some 0, chat_name = ''ann''\<rparr> = ''ann''"
    by simp_all
  from set_name_refused [OF chat_ref.chat_jansson_total_axioms room_inv room_no_oom room_table name_request_load
      name_request_call(1,2) room_lookups(1) room_protocol_ok room_lookups(3) name_request_call(3) used ref_utf8]
  show ?thesis unfolding fun_upd_upd append_Nil by blast
qed

text \<open>C16. Every request is answered exactly once: whatever the method is and whatever its parameters
  are, the sender gets one response or error with the request's \<open>id\<close>, and all that is sent
  after it, to the sender or to others, are notifications.\<close>

theorem requests_answered_once:
  fixes w :: "'a chat_heap_scheme"
  assumes E: "chat_jansson_total E" and w: "inv E w P" and oom: "no_oom w" and table: "chat_inv w (dom P)"
    and load: "json_loadb E (clock w) input = Some r" and call: "rpc_call E r name params"
    and id: "rpc_id E r = Some i" and p: "deref (protos w) protocol = Some p" "chat_protocol p"
    and P: "P c = Some ts"
    and utf8: "utf8 E ({''announce'', ''arrived'', ''name already used'', ''invalid params'', ''not implemented''} \<union>
      {x. string_element E params 0 x})"
  shows "\<exists>w' P' t. jrpc_protocol_process E (chat_user E) protocol (Some c) input w = Some w' \<and> inv E w' P' \<and>
    answer_text E i t \<and> only_notifications E (P(c \<mapsto> ts @ [t])) P' \<and> json_refs w' = json_refs w"
proof -
  let ?w = "w\<lparr>clock := Suc (clock w), json_refs := json_refs w + 1\<rparr>"
  from chat_jansson_total.onmethod_answers [OF E loaded(1) [OF w table] P loaded_no_oom [OF oom] loaded(2) [OF w table] utf8, of name i]
  obtain w2 P2 t where 2: "onmethod E (Some c) name params i ?w = Some w2" "inv E w2 P2" "answer_text E i t"
      "only_notifications E (P(c \<mapsto> ts @ [t])) P2" "json_refs w2 = json_refs w + 1"
    by auto
  with processed [OF load call p _ 2(2,5), of "Some c"] id show ?thesis
    by fastforce
qed

theorem requests_answered_once_witness:
  "\<exists>w' P' t. jrpc_protocol_process ref_chat_env (chat_user ref_chat_env) (Some 0) (Some 1)
      (print_json (name_request ''ann'')) (room {}) = Some w' \<and> inv ref_chat_env w' P' \<and>
    answer_text ref_chat_env 7 t \<and> only_notifications ref_chat_env [0 \<mapsto> [], 1 \<mapsto> [t]] P'"
proof -
  from requests_answered_once [OF chat_ref.chat_jansson_total_axioms room_inv room_no_oom room_table name_request_load
      name_request_call(1,2) room_lookups(1) room_protocol_ok room_lookups(3) ref_utf8]
  show ?thesis unfolding fun_upd_upd append_Nil by blast
qed

text \<open>C24. A departure is announced: when a session is closed, every other connection gets exactly one
  more text, the announcement that the participant is gone; the participant leaves the table, which
  is otherwise unchanged; and nothing waits on the closed connection any more, the
  announcement to itself included.\<close>

theorem departure_announced:
  fixes w :: "'a chat_heap_scheme"
  assumes E: "chat_jansson_total E" and w: "inv E w P" and oom: "no_oom w" and table: "chat_inv w (dom P)"
    and p: "deref (protos w) (lp_user lp) = Some p" "chat_protocol p"
    and who: "map_of (chatters w) (Some c) = Some who" and utf8: "utf8 E {''announce'', ''gone'', chat_name who}"
  shows "\<exists>w' P' P''. jrpc_protocol_callback E (chat_user E) (Some lp) s LWS_CALLBACK_CLOSED (Some c) input w = Some (0, w') \<and>
    inv E w' P' \<and> broadcast E ''announce'' ''gone'' (chat_name who) (dom P) P P'' \<and> P' = P''(c \<mapsto> []) \<and>
    map_of (chatters w') = (map_of (chatters w))(Some c := None) \<and> json_refs w' = json_refs w"
proof -
  have S: "utf8 E {''announce''}" "utf8 E {''gone''}" "utf8 E {chat_name who}" by (rule utf8_subset [OF utf8], simp)+
  show ?thesis
    using sender.departure_callback [OF chat_jansson_total.full_sender [OF E] w oom table p who S, of s input]
    by (auto simp: broadcast_posted)
qed

theorem departure_announced_witness:
  "\<exists>w' P''. jrpc_protocol_callback ref_chat_env (chat_user ref_chat_env) (Some example_lws) 5 LWS_CALLBACK_CLOSED (Some 0)
      [] (room {}) = Some (0, w') \<and> inv ref_chat_env w' (P''(0 \<mapsto> [])) \<and>
    broadcast ref_chat_env ''announce'' ''gone'' ''ann'' {0, 1} [0 \<mapsto> [], 1 \<mapsto> []] P'' \<and>
    map_of (chatters w') (Some 0) = None"
proof -
  have p: "deref (protos (room {})) (lp_user example_lws) = Some room_protocol"
    by (simp add: example_lws_def)
  have who: "map_of (chatters (room {})) (Some 0) = Some \<lparr>chat_connection = Some 0, chat_name = ''ann''\<rparr>" by simp
  from departure_announced [OF chat_ref.chat_jansson_total_axioms room_inv room_no_oom room_table p room_protocol_ok
      who ref_utf8, of 5 "[]"]
  show ?thesis unfolding room_dom chatter.simps by (metis fun_upd_same)
qed

end
