(* ===== verification/Jrpc_Chat_Main.thy ===== *)
theory Jrpc_Chat_Main
  imports Jrpc_Chat_Service
begin

text \<open>
  The command line and the main loop of the chat server (\<open>example/chat-server/main.cc\<close>). The GNU
  function \<open>getopt_long\<close> is a parameter: it takes its string and its table of options and a state
  of its own (\<open>argv\<close> and its position), and gives the option found, \<open>optarg\<close>, and the next state. What
  the two output streams are given is kept in \<open>std_out\<close> and \<open>std_err\<close>. When SIGINT arrives is a
  parameter, too.
\<close>

section \<open>The command line\<close>

abbreviation (input) EXIT_SUCCESS :: c_int where "EXIT_SUCCESS \<equiv> 0"
abbreviation (input) EXIT_FAILURE :: c_int where "EXIT_FAILURE \<equiv> 1"

abbreviation code :: "char \<Rightarrow> c_int" where
  "code c \<equiv> of_char c"

record long_option =
  lo_name :: string
  lo_has_arg :: bool
  lo_val :: c_int

type_synonym 'g getopt = "string \<Rightarrow> long_option list \<Rightarrow> 'g \<Rightarrow> c_int \<times> string option \<times> 'g"

definition chat_options :: "long_option list" where
  "chat_options =
     [\<lparr>lo_name = ''document_root'', lo_has_arg = True, lo_val = code CHR ''d''\<rparr>,
      \<lparr>lo_name = ''cert_path'', lo_has_arg = True, lo_val = code CHR ''c''\<rparr>,
      \<lparr>lo_name = ''key_path'', lo_has_arg = True, lo_val = code CHR ''k''\<rparr>,
      \<lparr>lo_name = ''port'', lo_has_arg = True, lo_val = code CHR ''p''\<rparr>,
      \<lparr>lo_name = ''help'', lo_has_arg = False, lo_val = code CHR ''h''\<rparr>]"

text \<open>\<open>atoi\<close> of the C library: white space, a sign, digits. A number outside of the range of \<open>int\<close>
  is undefined.\<close>

definition is_space :: "char \<Rightarrow> bool" where
  "is_space c \<longleftrightarrow> (of_char c :: nat) = 32 \<or> 9 \<le> (of_char c :: nat) \<and> (of_char c :: nat) \<le> 13"

definition atoi :: "string \<Rightarrow> c_int option" where
  "atoi s = (
     let r = dropWhile is_space s;
         n = (\<lambda>ds. int (nat_value (takeWhile is_digit ds)));
         i = (case r of
                [] \<Rightarrow> 0
              | c # r' \<Rightarrow> if c = CHR ''-'' then - n r' else if c = CHR ''+'' then n r' else n r)
     in if - (2 ^ 31) \<le> i \<and> i < 2 ^ 31 then Some (word_of_int i) else None)"

definition line :: "string \<Rightarrow> string" where
  "line s = s @ [CHR 0x0A]"

definition tab :: string where
  "tab = [CHR 0x09]"

definition printUsage :: "'a chat_heap_scheme \<Rightarrow> 'a chat_heap_scheme" where
  "printUsage w = w\<lparr>std_out := std_out w @
     line ''chat-server, Copyright (C) 2019, Falk Werner'' @
     line ''Example for jrpc library'' @
     line [] @
     line ''Usage: chat-server [-p <port>] [-d <document_root>]'' @
     line ''                   [-c <cert_path>] [-k <key_path]'' @
     line [] @
     line ''Options:'' @
     line (tab @ ''-p, --port          Number of servers port (default: 8080)'') @
     line (tab @ ''-d, --document_root Path of ww directory (default: not set, disabled)'') @
     line (tab @ ''-c, --cert_path     Path of servers own certifcate (default: not set, TLS disabled)'') @
     line (tab @ ''-k, --key_path      Path of servers private key (default: not set, TLS disabled)'') @
     line []\<rparr>"

text \<open>The local variables of \<open>parse_arguments\<close>, the \<open>switch\<close> in its loop, and the loop. It ends only if
  \<open>getopt_long\<close> ever ends it.\<close>

record parse_vars =
  result :: c_int
  is_finished :: bool
  show_help :: bool

definition parse_option ::
  "c_int \<Rightarrow> string option \<Rightarrow> ptr \<Rightarrow> parse_vars \<Rightarrow> 'a chat_heap_scheme \<Rightarrow> (parse_vars \<times> 'a chat_heap_scheme) option" where
  "parse_option c optarg server v w =
     (if c = - 1 then Some (v\<lparr>is_finished := True\<rparr>, w)
      else if c = code CHR ''h'' then Some (v\<lparr>show_help := True, is_finished := True\<rparr>, w)
      else if c = code CHR ''d'' then map_option (Pair v) (jrpc_server_set_documentroot server optarg w)
      else if c = code CHR ''c'' then map_option (Pair v) (jrpc_server_set_certpath server optarg w)
      else if c = code CHR ''k'' then map_option (Pair v) (jrpc_server_set_keypath server optarg w)
      else if c = code CHR ''p'' then do {
        s \<leftarrow> optarg;
        n \<leftarrow> atoi s;
        map_option (Pair v) (jrpc_server_set_port server n w)
      }
      else Some (v\<lparr>is_finished := True, result := EXIT_FAILURE\<rparr>,
                 w\<lparr>std_err := std_err w @ line ''error: unknown argument''\<rparr>))"

partial_function (option) parse_loop ::
  "'g getopt \<Rightarrow> ptr \<Rightarrow> parse_vars \<Rightarrow> 'g \<Rightarrow> 'a chat_heap_scheme \<Rightarrow> (parse_vars \<times> 'a chat_heap_scheme) option" where
  "parse_loop G server v g w =
     (if is_finished v then Some (v, w)
      else do {
        let (c, optarg, g') = G ''d:c:k:p:h'' chat_options g;
        (v', w') \<leftarrow> parse_option c optarg server v w;
        parse_loop G server v' g' w'
      })"

definition parse_arguments ::
  "'g getopt \<Rightarrow> 'g \<Rightarrow> ptr \<Rightarrow> 'a chat_heap_scheme \<Rightarrow> (c_int \<times> 'a chat_heap_scheme) option" where
  "parse_arguments G g server w = do {
     (v, w1) \<leftarrow> parse_loop G server \<lparr>result = EXIT_SUCCESS, is_finished = False, show_help = False\<rparr> g w;
     Some (if show_help v then (EXIT_FAILURE, printUsage w1) else (result v, w1))
   }"

section \<open>Serving\<close>

definition on_shutdown_requested :: "c_int \<Rightarrow> 'a chat_heap_scheme \<Rightarrow> 'a chat_heap_scheme" where
  "on_shutdown_requested signal_id w = w\<lparr>is_shutdown_requested := True\<rparr>"

abbreviation (input) SIGINT :: c_int where "SIGINT \<equiv> 2"

text \<open>The loop of \<open>main\<close>; \<open>sigint n\<close> says whether SIGINT arrives after \<open>n\<close> runs and before the flag
  is tested the next time, at whatever moment of the last run.\<close>

partial_function (option) serve_loop ::
  "('a chat_heap_scheme) lws_api \<Rightarrow> (nat \<Rightarrow> bool) \<Rightarrow> ptr \<Rightarrow> nat \<Rightarrow> 'a chat_heap_scheme
     \<Rightarrow> 'a chat_heap_scheme option" where
  "serve_loop L sigint server n w =
     (let w0 = (if sigint n then on_shutdown_requested SIGINT w else w)
      in if is_shutdown_requested w0 then Some w0
         else do {
           w1 \<leftarrow> jrpc_server_run L server 1000 w0;
           serve_loop L sigint server (Suc n) w1
         })"

definition main_setup ::
  "'g getopt \<Rightarrow> 'g \<Rightarrow> 'a chat_heap_scheme \<Rightarrow> (ptr \<times> c_int \<times> 'a chat_heap_scheme) option" where
  "main_setup G g w = do {
     (server, w1) \<leftarrow> jrpc_server_create w;
     w2 \<leftarrow> jrpc_server_set_protocolname server (Some ''jrpc-chat'') w1;
     w3 \<leftarrow> jrpc_server_set_onconnected server (Some (User_onconnected 0)) w2;
     w4 \<leftarrow> jrpc_server_set_ondisconnected server (Some (User_ondisconnected 0)) w3;
     w5 \<leftarrow> jrpc_server_set_onmethod server (Some (User_onmethod 0)) w4;
     w6 \<leftarrow> jrpc_server_set_onnotify server (Some (User_onnotify 0)) w5;
     (res, w7) \<leftarrow> parse_arguments G g server w6;
     Some (server, res, w7)
   }"

definition chat_main ::
  "('a chat_heap_scheme) lws_api \<Rightarrow> 'g getopt \<Rightarrow> (nat \<Rightarrow> bool) \<Rightarrow> 'g \<Rightarrow> 'a chat_heap_scheme
     \<Rightarrow> (c_int \<times> 'a chat_heap_scheme) option" where
  "chat_main L G sigint g w = do {
     (server, res, w1) \<leftarrow> main_setup G g w;
     w2 \<leftarrow> (if res = EXIT_SUCCESS
       then serve_loop L sigint server 0 (w1\<lparr>is_shutdown_requested := False\<rparr>)
       else Some w1);
     w3 \<leftarrow> jrpc_server_dispose L server w2;
     Some (res, w3)
   }"

section \<open>What the command line means\<close>

text \<open>\<open>yields G g os\<close>: from its state \<open>g\<close> on, \<open>getopt_long\<close> finds the options \<open>os\<close> and then reports
  the end with -1.\<close>

primrec yields :: "'g getopt \<Rightarrow> 'g \<Rightarrow> (c_int \<times> string option) list \<Rightarrow> bool" where
  "yields G g [] \<longleftrightarrow> fst (G ''d:c:k:p:h'' chat_options g) = - 1"
| "yields G g (opt # os) \<longleftrightarrow>
     (let (c, optarg, g') = G ''d:c:k:p:h'' chat_options g
      in c \<noteq> - 1 \<and> opt = (c, optarg) \<and> yields G g' os)"

text \<open>The call that an option stands for, the calls up to the first option that is not a setting, and
  what that option leads to.\<close>

definition is_setting :: "c_int \<times> string option \<Rightarrow> bool" where
  "is_setting opt \<longleftrightarrow> fst opt \<in> set (map of_char ''dckp'')"

definition option_call :: "c_int \<times> string option \<Rightarrow> config_op option" where
  "option_call opt = do {
     x \<leftarrow> snd opt;
     if fst opt = code CHR ''d'' then Some (Set_documentroot x)
     else if fst opt = code CHR ''c'' then Some (Set_certpath x)
     else if fst opt = code CHR ''k'' then Some (Set_keypath x)
     else map_option Set_port (atoi x)
   }"

definition settings :: "(c_int \<times> string option) list \<Rightarrow> config_op list option" where
  "settings os = those (map option_call (takeWhile is_setting os))"

definition outcome :: "(c_int \<times> string option) list \<Rightarrow> 'a chat_heap_scheme \<Rightarrow> c_int \<times> 'a chat_heap_scheme" where
  "outcome os w =
     (case dropWhile is_setting os of
        [] \<Rightarrow> (EXIT_SUCCESS, w)
      | opt # _ \<Rightarrow>
          if fst opt = code CHR ''h'' then (EXIT_FAILURE, printUsage w)
          else (EXIT_FAILURE, w\<lparr>std_err := std_err w @ line ''error: unknown argument''\<rparr>))"

lemma settings_simps:
  "settings [] = Some []"
  "is_setting opt \<Longrightarrow> settings (opt # os) = do { e \<leftarrow> option_call opt; es \<leftarrow> settings os; Some (e # es) }"
  "\<not> is_setting opt \<Longrightarrow> settings (opt # os) = Some []"
  by (auto simp: settings_def map_conv_bind_option o_def split: option.split)

lemma outcome_setting: "is_setting opt \<Longrightarrow> outcome (opt # os) w = outcome os w"
  by (simp add: outcome_def)

lemma parse_setting:
  assumes "is_setting (c, arg)"
  shows "parse_option c arg server v w =
    (case option_call (c, arg) of None \<Rightarrow> None | Some e \<Rightarrow> map_option (Pair v) (config_call e server w))"
proof (cases arg)
  case None
  have "parse_option c NULL server v w = None"
    using assms by (auto simp: is_setting_def parse_option_def documentroot.set_NULL certpath.set_NULL keypath.set_NULL)
  with None show ?thesis by (simp add: option_call_def)
next
  case (Some x)
  then show ?thesis
    using assms by (auto simp: is_setting_def parse_option_def option_call_def split: option.split)
qed

lemma parse_loop_finished: "is_finished v \<Longrightarrow> parse_loop G server v g w = Some (v, w)"
  by (simp add: parse_loop.simps)

lemma parse_loop_yields:
  assumes "yields G g os" and "v = \<lparr>result = EXIT_SUCCESS, is_finished = False, show_help = False\<rparr>"
  shows "map_option (\<lambda>(v, w1). if show_help v then (EXIT_FAILURE, printUsage w1) else (result v, w1))
      (parse_loop G server v g w) =
    do { es \<leftarrow> settings os; w' \<leftarrow> configure es server w; Some (outcome os w') }"
  using assms(1)
proof (induction os arbitrary: g w)
  case Nil
  then obtain arg g' where "G ''d:c:k:p:h'' chat_options g = (- 1, arg, g')"
    by (cases "G ''d:c:k:p:h'' chat_options g") auto
  then show ?case
    using assms(2)
    by (subst parse_loop.simps) (simp add: parse_option_def parse_loop_finished settings_simps outcome_def)
next
  case (Cons opt os)
  obtain c arg g' where G: "G ''d:c:k:p:h'' chat_options g = (c, arg, g')"
    by (cases "G ''d:c:k:p:h'' chat_options g") auto
  with Cons.prems have opt: "opt = (c, arg)" and c: "c \<noteq> - 1" and os: "yields G g' os" by auto
  have step: "parse_loop G server v g w = parse_option c arg server v w \<bind> (\<lambda>(v', w'). parse_loop G server v' g' w')"
    using assms(2) by (subst parse_loop.simps) (simp add: G)
  show ?case
  proof (cases "is_setting opt")
    case True
    with opt have s: "is_setting (c, arg)" by simp
    show ?thesis
    proof (cases "option_call opt")
      case None
      with True opt show ?thesis by (simp add: step parse_setting [OF s] settings_simps)
    next
      case (Some e)
      show ?thesis
      proof (cases "config_call e server w")
        case None
        with True Some opt show ?thesis
          by (simp add: step parse_setting [OF s] settings_simps bind_eq_None_conv)
      next
        case (Some w1)
        with True \<open>option_call opt = Some e\<close> opt Cons.IH [OF os, of w1] show ?thesis
          by (simp add: step parse_setting [OF s] settings_simps outcome_setting)
      qed
    qed
  next
    case False
    with opt c show ?thesis
      by (cases "c = code CHR ''h''")
         (simp_all add: step [unfolded assms(2)] settings_simps outcome_def parse_option_def parse_loop_finished
            is_setting_def assms(2))
  qed
qed

section \<open>Setting up\<close>

text \<open>\<open>main\<close> up to the loop, as one configuration script.\<close>

definition chat_calls :: "config_op list" where
  "chat_calls =
     [Set_protocolname ''jrpc-chat'', Set_onconnected (Some (User_onconnected 0)),
      Set_ondisconnected (Some (User_ondisconnected 0)), Set_onmethod (Some (User_onmethod 0)),
      Set_onnotify (Some (User_onnotify 0))]"

lemma parse_arguments_yields:
  assumes "yields G g os"
  shows "parse_arguments G g server w = do {
    es \<leftarrow> settings os;
    w' \<leftarrow> configure es server w;
    Some (outcome os w')
  }"
  using parse_loop_yields [OF assms refl, of server w]
  by (simp add: parse_arguments_def map_conv_bind_option split_def o_def)

lemma main_setup_eq:
  assumes "yields G g os" and "settings os = Some es"
  shows "main_setup G g w = do {
    (server, w1) \<leftarrow> jrpc_server_create w;
    w2 \<leftarrow> configure (chat_calls @ es) server w1;
    Some (server, outcome os w2)
  }"
  by (simp add: main_setup_def chat_calls_def split_def parse_arguments_yields [OF assms(1)] assms(2))

lemma outcome_same [simp]:
  "servers (snd (outcome os w)) = servers w" "protos (snd (outcome os w)) = protos w"
  "cstrs (snd (outcome os w)) = cstrs w" "clock (snd (outcome os w)) = clock w" "oom (snd (outcome os w)) = oom w"
  "sockets (snd (outcome os w)) = sockets w" "conns (snd (outcome os w)) = conns w"
  "lws_log (snd (outcome os w)) = lws_log w" "json_refs (snd (outcome os w)) = json_refs w"
  "blocks (snd (outcome os w)) = blocks w" "chatters (snd (outcome os w)) = chatters w"
  "is_shutdown_requested (snd (outcome os w)) = is_shutdown_requested w"
  "chat_heap.more (snd (outcome os w)) = chat_heap.more w"
  by (simp_all add: outcome_def printUsage_def split: list.split)

lemma outcome_more:
  assumes "sheap.more w' = sheap.more w"
  shows "sheap.more (snd (outcome os w')) = sheap.more (snd (outcome os w))"
proof -
  have "chatters w' = chatters w" "is_shutdown_requested w' = is_shutdown_requested w" "std_out w' = std_out w"
    "std_err w' = std_err w" "chat_heap.more w' = chat_heap.more w"
    using assms by (cases w; cases w'; simp)+
  then show ?thesis
    unfolding outcome_def
    by (cases "dropWhile is_setting os"; cases w; cases w') (simp_all del: dropWhile_eq_Nil_conv add: printUsage_def)
qed

lemma outcome_code: "fst (outcome os w) = (if list_all is_setting os then EXIT_SUCCESS else EXIT_FAILURE)"
proof (cases "dropWhile is_setting os")
  case Nil
  then have "list_all is_setting os" by (simp add: dropWhile_eq_Nil_conv list_all_iff)
  moreover have "fst (outcome os w) = EXIT_SUCCESS" unfolding outcome_def Nil by simp
  ultimately show ?thesis by simp
next
  case (Cons opt rest)
  then have "\<not> list_all is_setting os" by (metis dropWhile_eq_Nil_conv list.distinct(1) list_all_iff)
  with Cons show ?thesis by (simp add: outcome_def)
qed

text \<open>A state with the same server.\<close>

lemma keeps_server_eq:
  assumes "keeps_server w a w'" and "servers w'' = servers w'" and "protos w'' = protos w'"
    and "cstrs w'' = cstrs w'" and "clock w'' = clock w'"
  shows "keeps_server w a w''"
  using assms by (simp add: keeps_server_def server_ok_def strings_ok_def foreign_def)

lemma setup_spec:
  fixes w :: "'a chat_heap_scheme"
  assumes w: "fresh_store w" and oom: "\<not> oom w (clock w)" "\<not> oom w (Suc (clock w))"
    and os: "yields G g os" "settings os = Some es"
  shows "\<exists>w1 w2. jrpc_server_create w = Some (Some (clock w), w1) \<and>
    configure (chat_calls @ es) (Some (clock w)) w1 = Some w2 \<and> server_step w1 (clock w) w2 \<and>
    main_setup G g w = Some (Some (clock w), outcome os w2) \<and> sheap.more w2 = sheap.more w \<and>
    keeps_server w1 (clock w) (snd (outcome os w2)) \<and>
    (\<exists>s. servers w2 (clock w) = Some s \<and> s_context s = NULL) \<and>
    protos w2 (clock w) = Some (fold apply_proto (chat_calls @ es) (created_protocol (clock w) (next_fd w))) \<and>
    (no_oom w \<longrightarrow> config_at w2 (clock w) = fold apply_op (chat_calls @ es) (default_config (Some ''jrpc''))) \<and>
    conns w2 = conns w \<and> blocks w2 = blocks w \<and>
    sockets w2 = (sockets w)(next_fd w := sockets w2 (next_fd w), Suc (next_fd w) := sockets w2 (Suc (next_fd w))) \<and>
    dom (sockets w2) = {next_fd w, Suc (next_fd w)} \<union> dom (sockets w) \<and>
    json_refs w2 = json_refs w \<and> lws_log w2 = lws_log w \<and> oom w2 = oom w"
proof -
  let ?a = "clock w"
  from server_create_spec [OF w oom] obtain w1 s1
    where create: "jrpc_server_create w = Some (Some ?a, w1)" and ok1: "server_ok w1 ?a"
      and s1: "servers w1 ?a = Some s1" "s_context s1 = NULL"
      and p1: "protos w1 ?a = Some (created_protocol ?a (next_fd w))"
      and config1: "config_at w1 ?a = default_config (if oom w (?a + 2) then NULL else Some ''jrpc'')"
      and rest1: "conns w1 = conns w" "blocks w1 = blocks w" "oom w1 = oom w" "sheap.more w1 = sheap.more w"
        "dom (sockets w1) = {next_fd w, Suc (next_fd w)} \<union> dom (sockets w)" "json_refs w1 = json_refs w"
        "lws_log w1 = lws_log w"
      and sockets1: "sockets w1 = (sockets w)(next_fd w := sockets w1 (next_fd w), Suc (next_fd w) := sockets w1 (Suc (next_fd w)))"
    by blast
  from configure_spec [OF ok1, of "chat_calls @ es"] obtain w2
    where conf: "configure (chat_calls @ es) (Some ?a) w1 = Some w2" and step: "server_step w1 ?a w2"
      and config2: "no_oom w1 \<Longrightarrow> config_at w2 ?a = fold apply_op (chat_calls @ es) (config_at w1 ?a)"
    by blast
  have keeps: "keeps_server w1 ?a w2" using step by (simp add: server_step_def)
  then have "keeps_server w1 ?a (snd (outcome os w2))" by (rule keeps_server_eq) simp_all
  moreover have "\<exists>s. servers w2 ?a = Some s \<and> s_context s = NULL"
    using server_step_ok [OF step] step s1 by (auto simp: server_ok_def server_step_def)
  moreover have "protos w2 ?a = Some (fold apply_proto (chat_calls @ es) (created_protocol ?a (next_fd w)))"
    using conf p1 by (rule configure_proto)
  moreover have "config_at w2 ?a = fold apply_op (chat_calls @ es) (default_config (Some ''jrpc''))" if "no_oom w"
    using that config1 config2 rest1(3) by (simp add: no_oom_def)
  moreover have "main_setup G g w = Some (Some ?a, outcome os w2)"
    using main_setup_eq [OF os, of w] create conf by simp
  moreover have "conns w2 = conns w" "blocks w2 = blocks w" "sheap.more w2 = sheap.more w" "sockets w2 = sockets w1"
    "json_refs w2 = json_refs w" "lws_log w2 = lws_log w" "oom w2 = oom w"
    using step rest1 by (simp_all add: server_step_def)
  ultimately show ?thesis
    using create conf step sockets1 rest1(5) by auto
qed

lemma settings_proto: "settings os = Some es \<Longrightarrow> fold apply_proto es p = p"
proof (induction os arbitrary: es)
  case (Cons opt os)
  show ?case
  proof (cases "is_setting opt")
    case True
    with Cons.prems obtain e es' where e: "option_call opt = Some e" and es: "settings os = Some es'" "es = e # es'"
      by (auto simp: settings_simps Option.bind_eq_Some_conv)
    have "apply_proto e p = p"
      using e by (auto simp: option_call_def Option.bind_eq_Some_conv split: if_splits)
    with Cons.IH [OF es(1)] es(2) show ?thesis by simp
  next
    case False
    with Cons.prems show ?thesis by (simp add: settings_simps)
  qed
qed (simp add: settings_simps)

text \<open>After the set-up the server is one of the event loop, with the handlers of the chat server.\<close>

lemma setup_fresh:
  fixes w w2 :: "'a chat_heap_scheme"
  assumes os: "settings os = Some es"
    and p: "protos w2 a = Some (fold apply_proto (chat_calls @ es) (created_protocol a fd))"
    and "conns w2 = Map.empty" and "blocks w2 = Map.empty" and "lp_user lp = Some a"
  shows "fresh_server chat_protocol lp (snd (outcome os w2))"
proof -
  have "chat_protocol (fold apply_proto (chat_calls @ es) (created_protocol a fd))"
    by (simp add: settings_proto [OF os] chat_calls_def chat_protocol_def created_protocol_def wired_def)
  with assms(2-) show ?thesis by (simp add: fresh_server_def configured_def)
qed

section \<open>The loop\<close>

text \<open>What a step of the server may do to the application: the server object that is served and its strings
  stay what they are, and the shutdown flag is not touched.\<close>

definition leaves :: "'a chat_heap_scheme \<Rightarrow> addr \<Rightarrow> 'a chat_heap_scheme \<Rightarrow> bool" where
  "leaves w a w' \<longleftrightarrow> keeps_server w a w' \<and> is_shutdown_requested w' = is_shutdown_requested w"

lemma leaves_fields:
  assumes "server_ok w a" and "servers w a = Some s" and "strs s' = strs s"
  shows "leaves w a (w\<lparr>servers := (servers w)(a \<mapsto> s')\<rparr>)"
  using assms by (auto simp: leaves_def keeps_server_def server_ok_def strings_ok_def foreign_def)

text \<open>An invariant of the functions of libwebsockets in the states in which \<open>jrpc_server_run\<close> calls them is an
  invariant of \<open>jrpc_server_run\<close>, and then of the loop.\<close>

definition prepared :: "addr \<Rightarrow> jrpc_server \<Rightarrow> 'a sheap_scheme \<Rightarrow> 'a sheap_scheme" where
  "prepared a s w = w\<lparr>servers := (servers w)(a \<mapsto> s\<lparr>s_ws_protocols := Some (server_protocols a s),
     s_mount := Some (server_mount s), s_info := Some (server_info s)\<rparr>)\<rparr>"

definition with_context :: "addr \<Rightarrow> jrpc_server \<Rightarrow> ptr \<Rightarrow> 'a sheap_scheme \<Rightarrow> 'a sheap_scheme" where
  "with_context a s ctx w = w\<lparr>servers := (servers w)(a \<mapsto> s\<lparr>s_context := ctx\<rparr>)\<rparr>"

lemma run_invariant:
  assumes s: "servers w a = Some s"
    and create: "s_context s = NULL \<Longrightarrow> \<exists>ctx w1 s1. lws_create_context L a (prepared a s w) = Some (ctx, w1) \<and>
      servers w1 a = Some s1 \<and> J (with_context a s1 ctx w1)"
    and w: "s_context s \<noteq> NULL \<Longrightarrow> J w"
    and service: "\<And>x sx ctx. J x \<Longrightarrow> servers x a = Some sx \<Longrightarrow> s_context sx = Some ctx \<Longrightarrow>
      \<exists>w'. lws_service L ctx t x = Some w' \<and> J w'"
  shows "\<exists>w'. jrpc_server_run L (Some a) t w = Some w' \<and> J w'"
proof (cases "s_context s")
  case (Some ctx)
  with s w service [of w s ctx] show ?thesis by (simp add: jrpc_server_run_def)
next
  case None
  with create obtain ctx w1 s1 where 1: "lws_create_context L a (prepared a s w) = Some (ctx, w1)"
    "servers w1 a = Some s1" "J (with_context a s1 ctx w1)" by blast
  then have "jrpc_server_run L (Some a) t w = (case ctx of NULL \<Rightarrow> Some (with_context a s1 ctx w1)
      | Some x \<Rightarrow> lws_service L x t (with_context a s1 ctx w1))"
    using None s by (simp add: jrpc_server_run_def jrpc_server_create_context_def prepared_def with_context_def
        split: option.split)
  moreover have "servers (with_context a s1 ctx w1) a = Some (s1\<lparr>s_context := ctx\<rparr>)"
    by (simp add: with_context_def)
  ultimately show ?thesis using 1(3) service by (cases ctx) auto
qed

lemma serve_loop_invariant:
  fixes w :: "'a chat_heap_scheme"
  assumes run: "\<And>x. J x \<Longrightarrow> \<exists>y. jrpc_server_run L server 1000 x = Some y \<and> J y"
    and flag: "\<And>x. J x \<Longrightarrow> \<not> is_shutdown_requested x" and "J w"
    and before: "\<And>j. j < k \<Longrightarrow> \<not> sigint (n + j)" and at: "sigint (n + k)"
  shows "\<exists>w'. repeat_call k (jrpc_server_run L server 1000) w = Some w' \<and> J w' \<and>
    serve_loop L sigint server n w = Some (on_shutdown_requested SIGINT w')"
  using assms(3-)
proof (induction k arbitrary: n w)
  case 0
  then show ?case by (subst serve_loop.simps) (simp add: on_shutdown_requested_def)
next
  case (Suc k)
  from run [OF Suc.prems(1)] obtain w1
    where w1: "jrpc_server_run L server 1000 w = Some w1" "J w1" by blast
  have "\<not> sigint (Suc n + j)" if "j < k" for j using Suc.prems(2) [of "Suc j"] that by simp
  with Suc.IH [OF w1(2), of "Suc n"] Suc.prems(3) obtain w'
    where w': "repeat_call k (jrpc_server_run L server 1000) w1 = Some w'" "J w'"
      "serve_loop L sigint server (Suc n) w1 = Some (on_shutdown_requested SIGINT w')"
    by auto
  have "\<not> sigint n" using Suc.prems(2) [of 0] by simp
  then have "serve_loop L sigint server n w = Some (on_shutdown_requested SIGINT w')"
    using flag [OF Suc.prems(1)] w1(1) w'(3) by (subst serve_loop.simps) simp
  with w1(1) w' show ?case by simp
qed

section \<open>An instance of \<open>getopt_long\<close>\<close>

text \<open>The documented behaviour of the GNU function, for the examples. The state has the arguments that
  follow and the rest of a cluster of short options. Arguments that are no options are skipped,
  \<open>--\<close> ends the options, a long name may be abbreviated as long as it is unambiguous.\<close>

type_synonym argv = "string list \<times> string"

definition bad_option :: "argv \<Rightarrow> c_int \<times> string option \<times> argv" where
  "bad_option g = (code CHR ''?'', NULL, g)"

definition next_arg :: "c_int \<Rightarrow> string list \<Rightarrow> c_int \<times> string option \<times> argv" where
  "next_arg c args = (case args of [] \<Rightarrow> bad_option ([], []) | x # xs \<Rightarrow> (c, Some x, (xs, [])))"

fun takes_arg :: "char \<Rightarrow> string \<Rightarrow> bool option" where
  "takes_arg c [] = None"
| "takes_arg c (x # xs) =
     (if x = c \<and> c \<noteq> CHR '':'' then Some (xs \<noteq> [] \<and> hd xs = CHR '':'') else takes_arg c xs)"

definition short_option :: "string \<Rightarrow> char \<Rightarrow> string \<Rightarrow> string list \<Rightarrow> c_int \<times> string option \<times> argv" where
  "short_option optstring c cluster args =
     (case takes_arg c optstring of
        None \<Rightarrow> bad_option (args, cluster)
      | Some False \<Rightarrow> (code c, NULL, (args, cluster))
      | Some True \<Rightarrow> if cluster \<noteq> [] then (code c, Some cluster, (args, [])) else next_arg (code c) args)"

definition scan_long :: "long_option list \<Rightarrow> string \<Rightarrow> string list \<Rightarrow> c_int \<times> string option \<times> argv" where
  "scan_long opts s args = (
     let name = takeWhile (\<lambda>c. c \<noteq> CHR ''='') s;
         val = dropWhile (\<lambda>c. c \<noteq> CHR ''='') s;
         exact = filter (\<lambda>opt. lo_name opt = name) opts;
         found = (if exact = [] then filter (\<lambda>opt. prefix name (lo_name opt)) opts else exact)
     in case found of
          [opt] \<Rightarrow>
            if lo_has_arg opt
            then (if val = [] then next_arg (lo_val opt) args else (lo_val opt, Some (tl val), (args, [])))
            else if val = [] then (lo_val opt, NULL, (args, [])) else bad_option (args, [])
        | _ \<Rightarrow> bad_option (args, []))"

fun scan_args :: "string \<Rightarrow> long_option list \<Rightarrow> string list \<Rightarrow> c_int \<times> string option \<times> argv" where
  "scan_args optstring opts [] = (- 1, NULL, ([], []))"
| "scan_args optstring opts (arg # args) =
     (if arg = ''--'' then (- 1, NULL, (args, []))
      else if prefix ''--'' arg then scan_long opts (drop 2 arg) args
      else if prefix ''-'' arg \<and> length arg > 1 then short_option optstring (arg ! 1) (drop 2 arg) args
      else scan_args optstring opts args)"

definition gnu_getopt :: "argv getopt" where
  "gnu_getopt optstring opts g =
     (case g of
        (args, []) \<Rightarrow> scan_args optstring opts args
      | (args, c # cluster) \<Rightarrow> short_option optstring c cluster args)"

lemmas getopt_eval = gnu_getopt_def scan_long_def short_option_def next_arg_def bad_option_def chat_options_def

text \<open>The command line \<open>-p80 --doc=www -k key.pem\<close>, and one that asks for help after the port.\<close>

definition example_args :: "string list" where
  "example_args = [''-p80'', ''--doc=www'', ''-k'', ''key.pem'']"

definition example_opts :: "(c_int \<times> string option) list" where
  "example_opts =
     [(code CHR ''p'', Some ''80''), (code CHR ''d'', Some ''www''), (code CHR ''k'', Some ''key.pem'')]"

definition help_opts :: "(c_int \<times> string option) list" where
  "help_opts = [(code CHR ''p'', Some ''80''), (code CHR ''h'', NULL)]"

lemma example_yields: "yields gnu_getopt (example_args, []) example_opts"
  by (simp add: example_args_def example_opts_def getopt_eval)

lemma help_yields: "yields gnu_getopt ([''--port'', ''80'', ''-hx''], []) (help_opts @ [(code CHR ''?'', NULL)])"
  by (simp add: help_opts_def getopt_eval)

lemma example_settings:
  "settings example_opts = Some [Set_port 80, Set_documentroot ''www'', Set_keypath ''key.pem'']"
  "settings (help_opts @ os) = Some [Set_port 80]"
  by (simp_all add: settings_def example_opts_def help_opts_def is_setting_def option_call_def atoi_def
      is_space_def is_digit_def nat_value_def digit_value_def)

section \<open>Properties\<close>

text \<open>C22. \<open>parse_arguments\<close> is equivalent to its meaning: whenever \<open>getopt_long\<close> finds finitely many
  options, the loop ends; the settings before the first other option are carried out in their order
  as the corresponding setter calls (undefined exactly if one of these is, or if a port is out of
  the range of \<open>int\<close>), and that first other option decides the exit code and the output:
  the usage for \<open>-h\<close>, an error message for anything unknown.\<close>

theorem parse_arguments_meaning:
  assumes "yields G g os"
  shows "parse_arguments G g server w = do {
    es \<leftarrow> settings os;
    w' \<leftarrow> configure es server w;
    Some (outcome os w')
  }"
  using assms by (rule parse_arguments_yields)

lemma example_room: "server_ok w 0 \<Longrightarrow>
   \<exists>w'. configure [Set_port 80, Set_documentroot ''www'', Set_keypath ''key.pem''] (Some 0) w = Some w'"
  using configure_spec [of w 0 "[Set_port 80, Set_documentroot ''www'', Set_keypath ''key.pem'']"] by blast

definition example_chat :: "nat set \<Rightarrow> chat_heap" where
  "example_chat bad =
     \<lparr>clock = 0, oom = (\<lambda>i. i \<in> bad), json_refs = 0, blocks = Map.empty, lws_log = [], conns = Map.empty,
      protos = Map.empty, sockets = Map.empty, next_fd = 3, servers = Map.empty, cstrs = Map.empty,
      chatters = [], is_shutdown_requested = False, std_out = [], std_err = []\<rparr>"

lemma example_chat_simps [simp]:
  "clock (example_chat bad) = 0" "oom (example_chat bad) = (\<lambda>i. i \<in> bad)" "fresh_store (example_chat bad)"
  "servers (example_chat bad) = Map.empty" "cstrs (example_chat bad) = Map.empty"
  "protos (example_chat bad) = Map.empty" "sockets (example_chat bad) = Map.empty"
  "conns (example_chat bad) = Map.empty" "blocks (example_chat bad) = Map.empty"
  "chatters (example_chat bad) = []" "std_out (example_chat bad) = []" "std_err (example_chat bad) = []"
  by (simp_all add: example_chat_def fresh_store_def)

theorem parse_arguments_meaning_witness:
  "\<exists>w1 w2. jrpc_server_create (example_chat {}) = Some (Some 0, w1) \<and>
    parse_arguments gnu_getopt (example_args, []) (Some 0) w1 = Some (EXIT_SUCCESS, w2) \<and>
    configure [Set_port 80, Set_documentroot ''www'', Set_keypath ''key.pem''] (Some 0) w1 = Some w2"
proof -
  from server_create_spec [of "example_chat {}"] obtain w1
    where create: "jrpc_server_create (example_chat {}) = Some (Some 0, w1)" and ok: "server_ok w1 0"
    by auto
  from example_room [OF ok] obtain w2
    where conf: "configure [Set_port 80, Set_documentroot ''www'', Set_keypath ''key.pem''] (Some 0) w1 = Some w2"
    by blast
  have "outcome example_opts w2 = (EXIT_SUCCESS, w2)"
    by (simp add: outcome_def example_opts_def is_setting_def)
  with parse_arguments_meaning [OF example_yields, of "Some 0" w1] conf
  have "parse_arguments gnu_getopt (example_args, []) (Some 0) w1 = Some (EXIT_SUCCESS, w2)"
    by (simp add: example_settings del: configure.simps)
  with create conf show ?thesis by blast
qed

text \<open>C26. A command line with \<open>-h\<close> or an unknown option makes the program end with \<open>EXIT_FAILURE\<close>
  without creating a context or serving (whatever libwebsockets would do), after it has printed
  the usage or the error message, with the stores of servers, protocols, strings and sockets restored,
  even if copying strings runs out of memory.\<close>

theorem main_rejects_options:
  fixes w :: "'a chat_heap_scheme"
  assumes w: "fresh_store w" and oom: "\<not> oom w (clock w)" "\<not> oom w (Suc (clock w))"
    and os: "yields G g os" "settings os = Some es" and bad: "\<not> list_all is_setting os"
  shows "\<exists>w'. chat_main L G sigint g w = Some (EXIT_FAILURE, w') \<and>
    sheap.more w' = sheap.more (snd (outcome os w)) \<and> servers w' = servers w \<and> protos w' = protos w \<and>
    cstrs w' = cstrs w \<and> sockets w' = sockets w \<and> conns w' = conns w \<and> blocks w' = blocks w"
proof -
  let ?a = "clock w" and ?fd = "next_fd w"
  from setup_spec [OF w oom os] obtain w1 w2 s
    where create: "jrpc_server_create w = Some (Some ?a, w1)" and call: "main_setup G g w = Some (Some ?a, outcome os w2)"
      and more: "sheap.more w2 = sheap.more w" and keeps: "keeps_server w1 ?a (snd (outcome os w2))"
      and s: "servers w2 ?a = Some s" "s_context s = NULL" and rest: "conns w2 = conns w" "blocks w2 = blocks w"
      and sockets: "sockets w2 = (sockets w)(?fd := sockets w2 ?fd, Suc ?fd := sockets w2 (Suc ?fd))"
    by blast
  let ?w3 = "snd (outcome os w2)"
  have "(sockets w2)(?fd := None, Suc ?fd := None) = sockets w"
    using w by (subst sockets) (auto simp: fresh_store_def fun_eq_iff)
  with created_dispose [OF w oom create keeps, of ?w3 s L] s rest obtain w'
    where dispose: "jrpc_server_dispose L (Some ?a) ?w3 = Some w'"
      and w': "servers w' = servers w" "protos w' = protos w" "cstrs w' = cstrs w" "sockets w' = sockets w"
        "conns w' = conns w" "blocks w' = blocks w" "sheap.more w' = sheap.more ?w3"
    by auto
  have fail: "outcome os w2 = (EXIT_FAILURE, ?w3)"
    using outcome_code [of os w2] bad by (cases "outcome os w2") simp
  have "main_setup G g w = Some (Some ?a, EXIT_FAILURE, ?w3)" using call fail by simp
  with dispose have "chat_main L G sigint g w = Some (EXIT_FAILURE, w')"
    by (simp add: chat_main_def)
  with w' outcome_more [OF more, of os] show ?thesis by simp
qed

definition chat_api :: "('a chat_heap_scheme) lws_api" where
  "chat_api = \<lparr>lws_create_context = (\<lambda>a w. Some (malloc w)), lws_service = (\<lambda>ctx t w. Some w),
     lws_context_destroy = (\<lambda>ctx w. Some w)\<rparr>"

theorem main_rejects_options_witness:
  "\<exists>w'. chat_main chat_api gnu_getopt (\<lambda>_. False) ([''--port'', ''80'', ''-hx''], []) (example_chat {}) = Some (EXIT_FAILURE, w') \<and>
    std_out w' = std_out (printUsage (example_chat {})) \<and> std_err w' = [] \<and> servers w' = Map.empty"
proof -
  have bad: "\<not> list_all is_setting (help_opts @ [(code CHR ''?'', NULL)])"
    by (simp add: help_opts_def is_setting_def)
  have oom: "\<not> oom (example_chat {}) (clock (example_chat {}))" "\<not> oom (example_chat {}) (Suc (clock (example_chat {})))"
    by simp_all
  have out: "snd (outcome (help_opts @ [(code CHR ''?'', NULL)]) (example_chat {})) = printUsage (example_chat {})"
    by (simp add: outcome_def help_opts_def is_setting_def)
  from main_rejects_options [OF example_chat_simps(3) oom help_yields example_settings(2) bad, of chat_api "\<lambda>_. False"]
  obtain w' where w': "chat_main chat_api gnu_getopt (\<lambda>_. False) ([''--port'', ''80'', ''-hx''], []) (example_chat {}) = Some (EXIT_FAILURE, w')"
    "sheap.more w' = sheap.more (printUsage (example_chat {}))" "servers w' = Map.empty"
    unfolding out by auto
  from w'(2) have "std_out w' = std_out (printUsage (example_chat {}))" "std_err w' = std_err (printUsage (example_chat {}))"
    by (cases w'; cases "printUsage (example_chat {})"; simp)+
  with w'(1,3) show ?thesis by (simp add: printUsage_def)
qed

text \<open>C27. What \<open>main\<close> sets up is the chat server: with valid options and enough memory for the strings, the server has the protocol name
  \<open>jrpc-chat\<close> and otherwise the documented defaults, changed by the settings of the command line in
  their order; the protocol structure behind it has the chat server's own handlers for connections,
  disconnections, requests and notifications (and nothing else of it has changed since it was created);
  the protocol that the server offers leads to this structure; and with these handlers every run of events from
  there on is without undefined behaviour.\<close>

theorem main_sets_up_chat:
  fixes w :: "'a chat_heap_scheme"
  assumes E: "chat_jansson E" and w: "fresh_store w" and oom: "no_oom w"
    and empty: "conns w = Map.empty" "blocks w = Map.empty" "chatters w = []"
    and os: "yields G g os" "settings os = Some es" "list_all is_setting os"
  shows "\<exists>a w1 s p. main_setup G g w = Some (Some a, EXIT_SUCCESS, w1) \<and> servers w1 a = Some s \<and>
    config_at w1 a = fold apply_op es
      \<lparr>port = 8080, protocol_name = Some ''jrpc-chat'', document_root = NULL, cert_path = NULL, key_path = NULL\<rparr> \<and>
    protos w1 a = Some p \<and> p_onconnected p = Some (User_onconnected 0) \<and>
    p_ondisconnected p = Some (User_ondisconnected 0) \<and> p_onmethod p = Some (User_onmethod 0) \<and>
    p_onnotify p = Some (User_onnotify 0) \<and>
    p\<lparr>p_onconnected := NULL, p_ondisconnected := NULL, p_onmethod := NULL, p_onnotify := NULL\<rparr> =
      (created_protocol a (next_fd w))\<lparr>p_onconnected := NULL, p_ondisconnected := NULL, p_onmethod := NULL, p_onnotify := NULL\<rparr> \<and>
    lp_user (server_protocols a s ! 1) = Some a \<and>
    lp_callback (server_protocols a s ! 1) = Some Jrpc_protocol_callback \<and>
    (\<forall>evs w2 e. steps E (chat_user E) (server_protocols a s ! 1) w1 evs w2 \<longrightarrow>
       enabled (server_protocols a s ! 1) e w2 \<longrightarrow>
       (\<exists>w3. perform E (chat_user E) (server_protocols a s ! 1) e w2 = Some w3))"
proof -
  let ?a = "clock w" and ?fd = "next_fd w"
  have oom': "\<not> oom w n" for n using oom by (simp add: no_oom_def)
  from setup_spec [OF w oom' oom' os(1,2)] oom obtain w2 s
    where call: "main_setup G g w = Some (Some ?a, outcome os w2)" and more: "sheap.more w2 = sheap.more w"
      and s: "servers w2 ?a = Some s"
      and p: "protos w2 ?a = Some (fold apply_proto (chat_calls @ es) (created_protocol ?a ?fd))"
      and config: "config_at w2 ?a = fold apply_op (chat_calls @ es) (default_config (Some ''jrpc''))"
      and rest: "conns w2 = conns w" "blocks w2 = blocks w"
    by blast
  let ?w1 = "snd (outcome os w2)" and ?lp = "server_protocols ?a s ! 1"
  have ok: "outcome os w2 = (EXIT_SUCCESS, ?w1)"
    using outcome_code [of os w2] os(3) by (cases "outcome os w2") simp
  have "chatters w2 = []" using more empty(3) by (cases w; cases w2) simp
  then have table: "chat_inv ?w1 {}" by (simp add: chat_inv_def table_ok_def names_unique_def)
  have lp: "lp_user ?lp = Some ?a" "lp_callback ?lp = Some Jrpc_protocol_callback"
    by (simp_all add: server_protocols_eq)
  with setup_fresh [OF os(2) p] rest empty(1,2) have fresh: "fresh_server chat_protocol ?lp ?w1" by simp
  have W: "wired_handlers E (chat_user E) chat_protocol chat_inv"
    using E by (rule chat_jansson.chat_handlers)
  have "\<exists>w3. perform E (chat_user E) ?lp e x = Some w3"
    if "steps E (chat_user E) ?lp ?w1 evs x" "enabled ?lp e x" for evs x e
    using wired_handlers.steps_sound [OF W that(1) wired_handlers.fresh_sound [OF W fresh table]]
      wired_handlers.event_ok [OF W _ that(2)] by blast
  moreover have "config_at ?w1 ?a = fold apply_op es
      \<lparr>port = 8080, protocol_name = Some ''jrpc-chat'', document_root = NULL, cert_path = NULL, key_path = NULL\<rparr>"
    using config s by (simp add: config_at_def config_of_def chat_calls_def default_config_def)
  moreover have "protos ?w1 ?a = Some (fold apply_proto chat_calls (created_protocol ?a ?fd))"
    using p by (simp add: settings_proto [OF os(2)])
  ultimately show ?thesis
    using call ok s lp
    by (intro exI [of _ ?a] exI [of _ ?w1] exI [of _ s] exI [of _ "fold apply_proto chat_calls (created_protocol ?a ?fd)"])
       (simp add: chat_calls_def created_protocol_def)
qed

theorem main_sets_up_chat_witness:
  "\<exists>a w1 s p. main_setup gnu_getopt (example_args, []) (example_chat {}) = Some (Some a, EXIT_SUCCESS, w1) \<and>
    config_at w1 a = \<lparr>port = 80, protocol_name = Some ''jrpc-chat'', document_root = Some ''www'', cert_path = NULL,
      key_path = Some ''key.pem''\<rparr> \<and>
    protos w1 a = Some p \<and> p_onmethod p = Some (User_onmethod 0) \<and> p_onnotify p = Some (User_onnotify 0) \<and>
    (\<forall>evs w2 e. steps ref_chat_env (chat_user ref_chat_env) (server_protocols a s ! 1) w1 evs w2 \<longrightarrow>
       enabled (server_protocols a s ! 1) e w2 \<longrightarrow>
       (\<exists>w3. perform ref_chat_env (chat_user ref_chat_env) (server_protocols a s ! 1) e w2 = Some w3))"
proof -
  have oom: "no_oom (example_chat {})" by (simp add: no_oom_def)
  have os: "list_all is_setting example_opts" by (simp add: example_opts_def is_setting_def)
  have config: "fold apply_op [Set_port 80, Set_documentroot ''www'', Set_keypath ''key.pem'']
      \<lparr>port = 8080, protocol_name = Some ''jrpc-chat'', document_root = NULL, cert_path = NULL, key_path = NULL\<rparr> =
    \<lparr>port = 80, protocol_name = Some ''jrpc-chat'', document_root = Some ''www'', cert_path = NULL, key_path = Some ''key.pem''\<rparr>"
    by simp
  from main_sets_up_chat [OF chat_ref.chat_jansson_axioms example_chat_simps(3) oom example_chat_simps(8,9,10)
      example_yields example_settings(1) os, unfolded config]
  show ?thesis by blast
qed

text \<open>The result of \<open>jrpc_server_create\<close> is not checked in \<open>main\<close>: when there is no memory for the
  server, the null pointer is dereferenced by the first setter, whatever the command line is.\<close>

theorem main_create_unchecked:
  assumes "oom w (clock w)"
  shows "jrpc_server_create w = Some (NULL, w\<lparr>clock := Suc (clock w)\<rparr>) \<and> chat_main L G sigint g w = None"
  using assms
  by (simp add: chat_main_def main_setup_def server_create_oom jrpc_server_set_protocolname_def)

end
