(* ===== verification/Jrpc_Room.thy ===== *)
theory Jrpc_Room
  imports Jrpc_Chat_Rules
begin

text \<open>
  The abstract specification of the chat server. A chat room has four parts: who is in it under which
  name, what texts wait for whom, who talks on which websocket, and what was written to each
  websocket. \<open>room_step\<close> says what each event of the loop does to it, without queues, heap blocks,
  reference counts, handlers or the order in which the table is iterated. What exactly is added to a mailbox
  is a parameter \<open>T\<close>; \<open>full_texts\<close> (\<open>Jrpc_Chat_Rules\<close>) is the service with enough memory. A \<open>history\<close> of the program
  are its events, each with the numbers of the allocation requests that were made in it; \<open>room_story\<close> is
  a run of the room along a history, in which the service may depend on these numbers.
\<close>

section \<open>The room\<close>

type_synonym members = "addr \<rightharpoonup> string"

text \<open>Events that come from libwebsockets or from \<open>jrpc_server_wakeup\<close>; the chat server sends nothing
  outside of its handlers. The internal ones change neither members nor texts.\<close>

fun loop_event :: "'j event \<Rightarrow> bool" where
  "loop_event (Notify c name params) = False"
| "loop_event (Respond c result i) = False"
| "loop_event (Respond_error c code s i) = False"
| "loop_event _ = True"

fun internal :: "'j event \<Rightarrow> bool" where
  "internal (Raw_readable s) = True"
| "internal (Protocol_init s) = True"
| "internal (Other_event n c s) = True"
| "internal Wakeup = True"
| "internal _ = False"

text \<open>What a received text says when it is read in the allocation request number \<open>n\<close>: a call, or nothing that
  the chat server reacts to.\<close>

definition hears :: "('j, 'e) chat_env_scheme \<Rightarrow> nat \<Rightarrow> string \<Rightarrow> string \<Rightarrow> 'j \<Rightarrow> c_int option \<Rightarrow> bool" where
  "hears E n input name params i \<longleftrightarrow>
     (\<exists>r. json_loadb E n input = Some r \<and> rpc_call E r name params \<and> rpc_id E r = i)"

definition ignored :: "('j, 'e) chat_env_scheme \<Rightarrow> nat \<Rightarrow> string \<Rightarrow> bool" where
  "ignored E n input \<longleftrightarrow>
     (\<forall>r name params. json_loadb E n input = Some r \<longrightarrow> rpc_call E r name params \<longrightarrow>
        rpc_id E r = None \<and> (name = ''chat'' \<longrightarrow> (\<nexists>m. string_element E params 0 m)))"

definition refusal ::
  "('j, 'e) chat_env_scheme \<Rightarrow> members \<Rightarrow> string \<Rightarrow> 'j \<Rightarrow> c_int \<Rightarrow> string \<Rightarrow> bool" where
  "refusal E M name params code s \<longleftrightarrow>
     name \<noteq> ''set_name'' \<and> code = - 1 \<and> s = ''not implemented'' \<or>
     name = ''set_name'' \<and> (\<nexists>y. string_element E params 0 y) \<and> code = - 1 \<and> s = ''invalid params'' \<or>
     name = ''set_name'' \<and> (\<exists>y \<in> ran M. string_element E params 0 y) \<and> code = 1 \<and> s = ''name already used''"

text \<open>The steps of a room, for any service \<open>T\<close>: what it may add to the texts that wait when something is said.
  What is received is read in request number \<open>n\<close>.\<close>

inductive room_step ::
  "texts \<Rightarrow> ('j, 'e) chat_env_scheme \<Rightarrow> nat \<Rightarrow> 'j event \<Rightarrow> members \<times> mailbox \<Rightarrow> members \<times> mailbox \<Rightarrow> bool"
  for T E n where
  room_join: "M c = None \<Longrightarrow> room_step T E n (Established c s) (M, P) (M(c \<mapsto> []), P(c \<mapsto> []))"
| room_say: "M c = Some x \<Longrightarrow> hears E n input ''chat'' params None \<Longrightarrow> string_element E params 0 m \<Longrightarrow>
    posted_to (dom P) (notices T ''message'' x m) P P' \<Longrightarrow> room_step T E n (Received c input) (M, P) (M, P')"
| room_rename: "P c = Some ts \<Longrightarrow> hears E n input ''set_name'' params (Some i) \<Longrightarrow> string_element E params 0 y \<Longrightarrow>
    y \<notin> ran M \<Longrightarrow> confirmations T y i us \<Longrightarrow>
    posted_to (dom P) (notices T ''announce'' ''arrived'' y) (P(c \<mapsto> ts @ us)) P' \<Longrightarrow>
    room_step T E n (Received c input) (M, P) (M(c \<mapsto> y), P')"
| room_refuse: "P c = Some ts \<Longrightarrow> hears E n input name params (Some i) \<Longrightarrow> refusal E M name params code s \<Longrightarrow>
    refusals T code s i us \<Longrightarrow> room_step T E n (Received c input) (M, P) (M, P(c \<mapsto> ts @ us))"
| room_ignore: "ignored E n input \<Longrightarrow> room_step T E n (Received c input) (M, P) (M, P)"
| room_deliver: "P c = Some ts \<Longrightarrow> room_step T E n (Can_write c) (M, P) (M, P(c \<mapsto> tl ts))"
| room_leave: "M c = Some x \<Longrightarrow> posted_to (dom P) (notices T ''announce'' ''gone'' x) P P' \<Longrightarrow>
    room_step T E n (Closed c) (M, P) (M(c := None), P'(c := None))"
| room_inside: "internal e \<Longrightarrow> room_step T E n e (M, P) (M, P)"

text \<open>The whole room: also which websocket belongs to whom, and what has been written to each.\<close>

type_synonym room = "members \<times> mailbox \<times> (addr \<rightharpoonup> wsi) \<times> (wsi \<Rightarrow> string list)"

fun texts_after :: "'j event \<Rightarrow> (addr \<rightharpoonup> wsi) \<Rightarrow> mailbox \<Rightarrow> (wsi \<Rightarrow> string list) \<Rightarrow> wsi \<Rightarrow> string list" where
  "texts_after (Can_write c) W P X =
     (case (W c, P c) of (Some s, Some ts) \<Rightarrow> X(s := X s @ take 1 ts) | _ \<Rightarrow> X)"
| "texts_after _ W P X = X"

definition room_event ::
  "texts \<Rightarrow> ('j, 'e) chat_env_scheme \<Rightarrow> nat \<Rightarrow> 'j event \<Rightarrow> room \<Rightarrow> room \<Rightarrow> bool" where
  "room_event T E n e r r' \<longleftrightarrow>
     (case r of (M, P, W, X) \<Rightarrow>
        \<exists>M' P'. room_step T E n e (M, P) (M', P') \<and> r' = (M', P', sessions_after e W, texts_after e W P X))"

text \<open>A run, in which each text may be read in any request.\<close>

primrec room_run ::
  "texts \<Rightarrow> ('j, 'e) chat_env_scheme \<Rightarrow> 'j event list \<Rightarrow> room \<Rightarrow> room \<Rightarrow> bool" where
  "room_run T E [] r r' \<longleftrightarrow> r' = r"
| "room_run T E (e # es) r r' \<longleftrightarrow> (\<exists>n r1. room_event T E n e r r1 \<and> room_run T E es r1 r')"

text \<open>A run along a history: the service of each event is that of the requests made in it, and a text is read in
  the first of them.\<close>

type_synonym 'j history = "('j event \<times> nat \<times> nat) list"

fun room_story ::
  "(nat \<Rightarrow> nat \<Rightarrow> texts) \<Rightarrow> ('j, 'e) chat_env_scheme \<Rightarrow> 'j history \<Rightarrow> room \<Rightarrow> room \<Rightarrow> bool" where
  "room_story T E [] r r' \<longleftrightarrow> r' = r"
| "room_story T E ((e, lo, hi) # h) r r' \<longleftrightarrow> (\<exists>r1. room_event (T lo hi) E lo e r r1 \<and> room_story T E h r1 r')"

definition empty_room_state :: room where
  "empty_room_state = (Map.empty, Map.empty, Map.empty, \<lambda>s. [])"

lemma room_story_append:
  "room_story T E h r r' \<Longrightarrow> room_story T E h' r' r'' \<Longrightarrow> room_story T E (h @ h') r r''"
proof (induction T E h r r' rule: room_story.induct)
  case (2 T E e lo hi h r r')
  then show ?case unfolding append_Cons room_story.simps by blast
qed simp

lemma room_story_run: "room_story (\<lambda>lo hi. T) E h r r' \<Longrightarrow> room_run T E (map fst h) r r'"
proof (induction "\<lambda>(lo :: nat) (hi :: nat). T" E h r r' rule: room_story.induct)
  case (2 E e lo hi h r r')
  then show ?case unfolding list.map fst_conv room_run.simps room_story.simps by blast
qed simp

section \<open>The history of the program\<close>

text \<open>The events of a list that take place (one that is not enabled is passed over), each with the requests that are made in it.\<close>

fun history ::
  "('j, 'e) env_scheme \<Rightarrow> ('j, 'a pheap_scheme) user_code \<Rightarrow> lws_protocols \<Rightarrow> 'j event list
     \<Rightarrow> 'a pheap_scheme \<Rightarrow> 'j history" where
  "history E U lp [] w = []"
| "history E U lp (e # es) w =
     (if enabled lp e w
      then (case perform E U lp e w of
              None \<Rightarrow> []
            | Some w' \<Rightarrow> (e, clock w, clock w') # history E U lp es w')
      else history E U lp es w)"

lemma history_events: "steps E U lp w es w' \<Longrightarrow> map fst (history E U lp es w) = es"
  by (induction rule: steps.induct) simp_all

end
