(* ===== verification/Jrpc_Frame.thy ===== *)
theory Jrpc_Frame
  imports Jrpc_Loop
begin

text \<open>
  What the library leaves alone. A call into the library may change queues, message blocks and the
  log, and it uses the allocator; everything else is \<open>untouched\<close>, and the program's account of
  references to JSON values changes by exactly the references that a caller hands over. These
  facts need no invariant: they hold for every call that returns.

  The locale \<open>guarded_handlers\<close> is the guarantee side of the contract with the handlers: a relation
  that every handler call satisfies is satisfied by every event of the loop, and, when the handlers
  are balanced, by every run. The default handlers guarantee as much as the library itself.
\<close>

section \<open>The relation\<close>

definition untouched :: "int \<Rightarrow> 'a pheap_scheme \<Rightarrow> 'a pheap_scheme \<Rightarrow> bool" where
  "untouched d w w' \<longleftrightarrow>
     clock w \<le> clock w' \<and> oom w' = oom w \<and> json_refs w' = json_refs w - d \<and>
     protos w' = protos w \<and> next_fd w' = next_fd w \<and> dom (sockets w') = dom (sockets w)"

text \<open>Nothing is written to a websocket.\<close>

definition silent :: "'a lheap_scheme \<Rightarrow> 'a lheap_scheme \<Rightarrow> bool" where
  "silent w w' \<longleftrightarrow> (\<forall>s. written s (lws_log w') = written s (lws_log w))"

definition library_step :: "int \<Rightarrow> 'a pheap_scheme \<Rightarrow> 'a pheap_scheme \<Rightarrow> bool" where
  "library_step d w w' \<longleftrightarrow> untouched d w w' \<and> silent w w' \<and> pheap.more w' = pheap.more w"

lemma untouched_trans: "untouched d w w' \<Longrightarrow> untouched d' w' w'' \<Longrightarrow> untouched (d + d') w w''"
  by (simp add: untouched_def)

lemma silent_trans: "silent w w' \<Longrightarrow> silent w' w'' \<Longrightarrow> silent w w''"
  by (simp add: silent_def)

lemma library_step_trans: "library_step d w w' \<Longrightarrow> library_step d' w' w'' \<Longrightarrow> library_step (d + d') w w''"
  unfolding library_step_def by (auto intro: untouched_trans silent_trans)

lemma library_step_refl [simp]: "library_step 0 w w"
  by (simp add: library_step_def untouched_def silent_def)

section \<open>Calls into the library\<close>

text \<open>The functions on messages and queues change blocks only.\<close>

definition blocks_step :: "'a mheap_scheme \<Rightarrow> 'a mheap_scheme \<Rightarrow> bool" where
  "blocks_step w w' \<longleftrightarrow>
     clock w \<le> clock w' \<and> oom w' = oom w \<and> json_refs w' = json_refs w \<and> mheap.more w' = mheap.more w"

lemma blocks_step_trans: "blocks_step w w' \<Longrightarrow> blocks_step w' w'' \<Longrightarrow> blocks_step w w''"
  by (simp add: blocks_step_def)

lemma blocks_step_refl [simp]: "blocks_step w w" "blocks_step w (w\<lparr>blocks := h\<rparr>)"
  by (simp_all add: blocks_step_def)

lemma blocks_step_more:
  assumes "blocks_step w w'"
  shows "lws_log w' = lws_log w" and "conns w' = conns w" and "cheap.more w' = cheap.more w"
  using assms by (cases w; cases w'; simp add: blocks_step_def)+

lemma create_step: "jrpc_message_create E v w = Some (m, w') \<Longrightarrow> blocks_step w w'"
  by (auto simp: jrpc_message_create_def malloc_def jrpc_message_serialize_def Let_def blocks_step_def
      Option.bind_eq_Some_conv split: if_splits)

lemma append_step: "jrpc_queue_append q m w = Some (q', w') \<Longrightarrow> blocks_step w w'"
  by (auto simp: jrpc_queue_append_def Option.bind_eq_Some_conv split: if_splits)

lemma dispose_step: "jrpc_message_dispose m w = Some w' \<Longrightarrow> blocks_step w w'"
  by (auto simp: jrpc_message_dispose_def split: option.splits if_splits)

lemma cleanup_loop_step: "cleanup_loop m w = Some w' \<Longrightarrow> blocks_step w w'"
proof (erule cleanup_loop.raw_induct [rotated])
  fix loop :: "ptr \<Rightarrow> 'a mheap_scheme \<Rightarrow> 'a mheap_scheme option" and m w w'
  assume IH: "\<And>m w w'. loop m w = Some w' \<Longrightarrow> blocks_step w w'"
    and step: "(case m of NULL \<Rightarrow> Some w | Some a \<Rightarrow> do {
      b \<leftarrow> blocks w a; w' \<leftarrow> jrpc_message_dispose m w; loop (msg_next (blk_msg b)) w' }) = Some w'"
  show "blocks_step w w'"
  proof (cases m)
    case (Some a)
    with step obtain b :: msg_block where "loop (msg_next (blk_msg b)) (w\<lparr>blocks := (blocks w)(a := None)\<rparr>) = Some w'"
      by (auto simp: Option.bind_eq_Some_conv)
    from blocks_step_trans [OF blocks_step_refl(2) IH [OF this]] show ?thesis .
  qed (use step in simp)
qed

lemma queue_cleanup_step: "jrpc_queue_cleanup q w = Some (q', w') \<Longrightarrow> blocks_step w w'"
  by (auto simp: jrpc_queue_cleanup_def Option.bind_eq_Some_conv intro: cleanup_loop_step)

text \<open>The functions on connections.\<close>

lemma send_library:
  fixes w :: "'a pheap_scheme"
  assumes "jrpc_connection_send E connection v w = Some w'"
  shows "library_step (ref_count v) w w'"
proof -
  from assms obtain m w1 where create: "jrpc_message_create E v w = Some (m, w1)"
    by (auto simp: jrpc_connection_send_def Option.bind_eq_Some_conv)
  note c = create_step [OF create]
  show ?thesis
  proof (cases m)
    case None
    with assms create have "w' = json_decref v w1" by (simp add: jrpc_connection_send_def)
    with c blocks_step_more [OF c] show ?thesis
      by (cases w; cases w1)
         (simp add: library_step_def untouched_def silent_def json_decref_def blocks_step_def)
  next
    case (Some a)
    with assms create obtain d conn q w2 s
      where "connection = Some d" and conn: "conns w1 d = Some conn"
        and append: "jrpc_queue_append (c_messages conn) m w1 = Some (q, w2)"
        and w': "w' = json_decref v (w2\<lparr>conns := (conns w2)(d \<mapsto> conn\<lparr>c_messages := q\<rparr>), lws_log := lws_log w2 @ [On_writable s]\<rparr>)"
      by (auto simp: jrpc_connection_send_def lws_callback_on_writable_def Option.bind_eq_Some_conv)
    note b = blocks_step_trans [OF c append_step [OF append]]
    from b blocks_step_more [OF b] show ?thesis
      unfolding w'
      by (cases w; cases w2)
         (simp add: library_step_def untouched_def silent_def json_decref_def blocks_step_def)
  qed
qed

lemma library_calls:
  assumes "library_step d (w\<lparr>clock := clock w + n, json_refs := r\<rparr>) w'"
  shows "library_step (json_refs w - r + d) w w'"
  using assms by (simp add: library_step_def untouched_def silent_def)

context jansson
begin

lemma respond_library:
  assumes "jrpc_respond E connection result i w = Some w'"
  shows "library_step (ref_count result) w w'"
  using library_calls [OF send_library [OF assms [unfolded jrpc_respond_send]]] by simp

lemma respond_error_library:
  assumes "jrpc_respond_error E connection code s i w = Some w'"
  shows "library_step 0 w w'"
  using library_calls [OF send_library [OF assms [unfolded jrpc_respond_error_send]]] by simp

lemma notify_library:
  assumes "jrpc_notify E connection name params w = Some w'"
  shows "library_step (ref_count params) w w'"
  using library_calls [OF send_library [OF assms [unfolded jrpc_notify_send]]] by simp

end

lemma connection_cleanup_library:
  fixes w :: "'a pheap_scheme"
  assumes "jrpc_connection_cleanup connection w = Some w'"
  shows "library_step 0 w w'"
proof -
  from assms obtain c conn q w1 where c: "jrpc_queue_cleanup (c_messages conn) w = Some (q, w1)"
    and w': "w' = w1\<lparr>conns := (conns w1)(c \<mapsto> conn\<lparr>c_messages := q\<rparr>)\<rparr>"
    by (auto simp: jrpc_connection_cleanup_def Option.bind_eq_Some_conv)
  from queue_cleanup_step [OF c] blocks_step_more [OF queue_cleanup_step [OF c]] show ?thesis
    unfolding w' by (cases w; cases w1) (simp add: library_step_def untouched_def silent_def blocks_step_def)
qed

lemma request_library:
  fixes w :: "'a pheap_scheme"
  assumes "request_writeable s connection w = Some w'"
  shows "library_step 0 w w'"
  using assms
  by (cases w)
     (auto simp: request_writeable_def lws_callback_on_writable_def Option.bind_eq_Some_conv library_step_def
       untouched_def silent_def split: option.splits if_splits)

lemma library_fields [simp]:
  "library_step 0 w (w\<lparr>conns := cs\<rparr>)" "library_step 0 w (w\<lparr>blocks := h\<rparr>)"
  by (cases w; simp add: library_step_def untouched_def silent_def)+

lemma sockets_library:
  "dom ss = dom (sockets w) \<Longrightarrow> library_step 0 w (w\<lparr>sockets := ss\<rparr>)"
  by (cases w) (simp add: library_step_def untouched_def silent_def)

lemma read_library: "sys_read fd w = Some w' \<Longrightarrow> library_step 0 w w'"
  by (auto simp: sys_read_def intro!: sockets_library split: option.splits list.splits if_splits)

lemma write_library: "library_step 0 w (sys_write fd bs w)"
  by (auto simp: sys_write_def intro!: sockets_library split: option.splits if_splits)

lemma wakeup_library: "jrpc_protocol_wakeup protocol w = Some w' \<Longrightarrow> library_step 0 w w'"
  by (auto simp: jrpc_protocol_wakeup_def Option.bind_eq_Some_conv write_library)

lemma log_library:
  "(\<And>s. written s [e] = []) \<Longrightarrow> library_step 0 w (w\<lparr>lws_log := lws_log w @ [e]\<rparr>)"
  for w :: "'a pheap_scheme"
  by (cases w) (simp add: library_step_def untouched_def silent_def)

section \<open>The callback for \<open>LWS_CALLBACK_SERVER_WRITEABLE\<close>\<close>

text \<open>It is the only one that writes.\<close>

definition write_step :: "'a pheap_scheme \<Rightarrow> 'a pheap_scheme \<Rightarrow> bool" where
  "write_step w w' \<longleftrightarrow> untouched 0 w w' \<and> pheap.more w' = pheap.more w"

lemma write_step_trans: "write_step w w' \<Longrightarrow> write_step w' w'' \<Longrightarrow> write_step w w''"
  unfolding write_step_def using untouched_trans [of 0 w w' 0 w''] by simp

lemma library_write: "library_step 0 w w' \<Longrightarrow> write_step w w'"
  by (simp add: library_step_def write_step_def)

lemma write_step_fields [simp]:
  "write_step w (w\<lparr>conns := cs, lws_log := l\<rparr>)" "write_step w (w\<lparr>lws_log := l\<rparr>)" "write_step w w"
  by (cases w; simp add: write_step_def untouched_def)+

lemma blocks_write:
  fixes w :: "'a pheap_scheme"
  shows "blocks_step w w' \<Longrightarrow> write_step w w'"
  by (cases w; cases w') (simp add: write_step_def untouched_def blocks_step_def)

lemma callback_writeable_step:
  fixes w :: "'a pheap_scheme"
  assumes "callback_writeable E s connection w = Some w'"
  shows "write_step w w'"
  using assms
  by (auto simp: callback_writeable_def lws_write_def Let_def Option.bind_eq_Some_conv
      split: option.splits if_splits
      intro: write_step_trans [OF write_step_fields(1) blocks_write [OF dispose_step]])

text \<open>The references that the application hands over.\<close>

fun taken :: "'j event \<Rightarrow> int" where
  "taken (Notify c name params) = ref_count params"
| "taken (Respond c result i) = ref_count result"
| "taken _ = 0"

fun writes :: "'j event \<Rightarrow> bool" where
  "writes (Can_write c) = True"
| "writes _ = False"

lemma can_write_step:
  assumes "perform E U lp e w = Some w'" and "writes e"
  shows "write_step w w' \<and> taken e = 0"
proof -
  from assms(2) obtain c where e: "e = Can_write c" by (cases e) auto
  with assms(1) obtain s w1 where 1: "callback_writeable E s (Some c) (w\<lparr>lws_log := lws_log w @ [Writeable s]\<rparr>) = Some w1"
    "request_writeable s (Some c) w1 = Some w'"
    by (auto simp: callback_for_def jrpc_protocol_callback_def Let_def Option.bind_eq_Some_conv)
  from write_step_trans [OF write_step_trans [OF write_step_fields(2) callback_writeable_step [OF 1(1)]]
      library_write [OF request_library [OF 1(2)]]] e
  show ?thesis by simp
qed

section \<open>Handlers with a guarantee\<close>

locale guarded_handlers = wired_handlers E U good I
  for E :: "('j, 'e) env_scheme" and U :: "('j, 'a pheap_scheme) user_code"
    and good :: "jrpc_protocol \<Rightarrow> bool" and I :: "'a pheap_scheme \<Rightarrow> addr set \<Rightarrow> bool" +
  fixes R :: "int \<Rightarrow> 'a pheap_scheme \<Rightarrow> 'a pheap_scheme \<Rightarrow> bool"
  assumes R_trans: "R d w w' \<Longrightarrow> R d' w' w'' \<Longrightarrow> R (d + d') w w''"
    and R_library: "library_step d w w' \<Longrightarrow> R d w w'"
    and onmethod_R: "good p \<Longrightarrow> call_onmethod E U (p_onmethod p) c name params i w = Some w' \<Longrightarrow> R 0 w w'"
    and onnotify_R: "good p \<Longrightarrow> call_onnotify U (p_onnotify p) c name params w = Some w' \<Longrightarrow> R 0 w w'"
    and onconnected_R: "good p \<Longrightarrow> call_onconnected U (p_onconnected p) c w = Some w' \<Longrightarrow> R 0 w w'"
    and ondisconnected_R: "good p \<Longrightarrow> call_ondisconnected U (p_ondisconnected p) c w = Some w' \<Longrightarrow> R 0 w w'"
begin

lemma R_then: "R 0 w w' \<Longrightarrow> R d w' w'' \<Longrightarrow> R d w w''"
  using R_trans [of 0 w w' d w''] by simp

lemma dispatch_R:
  assumes "jrpc_protocol_dispatch E U protocol c r w = Some w'" and "configured good w protocol"
  shows "R 0 w w'"
proof -
  have "R 0 w w" by (rule R_library) simp
  with assms onmethod_R onnotify_R show ?thesis
    by (auto simp: jrpc_protocol_dispatch_def configured_def Let_def Option.bind_eq_Some_conv
        split: option.splits if_splits)
qed

lemma process_R:
  assumes call: "jrpc_protocol_process E U protocol c input w = Some w'" and conf: "configured good w protocol"
  shows "R 0 w w'"
proof (cases "json_loadb E (clock w) input")
  case None
  with call have "w' = w\<lparr>clock := Suc (clock w)\<rparr>"
    by (auto simp: jrpc_protocol_process_def call_new_def Let_def)
  then show ?thesis
    by (intro R_library) (simp add: library_step_def untouched_def silent_def)
next
  case (Some r)
  let ?w1 = "w\<lparr>clock := Suc (clock w), json_refs := json_refs w + 1\<rparr>"
  from call Some obtain w2 where 2: "jrpc_protocol_dispatch E U protocol c r ?w1 = Some w2"
    and w': "w' = json_decref (Some r) w2"
    by (auto simp: jrpc_protocol_process_def call_new_def Let_def Option.bind_eq_Some_conv)
  have "R (- 1) w ?w1"
    by (rule R_library) (simp add: library_step_def untouched_def silent_def)
  moreover have "R 0 ?w1 w2"
    using 2 by (rule dispatch_R) (use conf in \<open>simp add: configured_def\<close>)
  moreover have "R 1 w2 w'"
    unfolding w' by (rule R_library) (simp add: json_decref_def library_step_def untouched_def silent_def)
  ultimately have "R (- 1 + 0 + 1) w w'" by (blast intro: R_trans)
  then show ?thesis by simp
qed

text \<open>A callback for a connection that does not write.\<close>

lemma callback_R:
  assumes call: "jrpc_protocol_callback E U (Some lp) s reason c input w = Some (r, w')"
    and conf: "configured good w (lp_user lp)" and reason: "reason \<noteq> LWS_CALLBACK_SERVER_WRITEABLE"
  shows "R 0 w w'"
proof -
  obtain p where p: "deref (protos w) (lp_user lp) = Some p" "good p"
    using conf by (auto simp: configured_def)
  have refl: "R 0 w w" by (rule R_library) simp
  have "\<exists>w1. R 0 w w1 \<and> request_writeable s c w1 = Some w'"
  proof (cases reason)
    case LWS_CALLBACK_PROTOCOL_INIT
    with call p(1) obtain fd where "request_writeable s c (w\<lparr>lws_log := lws_log w @ [Adopt fd (lp_name lp)]\<rparr>) = Some w'"
      by (auto simp: jrpc_protocol_callback_def Let_def Option.bind_eq_Some_conv)
    moreover have "R 0 w (w\<lparr>lws_log := lws_log w @ [Adopt fd (lp_name lp)]\<rparr>)"
      by (intro R_library log_library) simp
    ultimately show ?thesis by blast
  next
    case LWS_CALLBACK_ESTABLISHED
    show ?thesis
    proof (cases c)
      case (Some x)
      with call LWS_CALLBACK_ESTABLISHED p(1) obtain w1 w2
        where 1: "jrpc_connection_init c (p_server p) (Some s) w = Some w1" "request_writeable s c w2 = Some w'"
          and 2: "call_onconnected U (p_onconnected p) c w1 = Some w2"
        by (auto simp: jrpc_protocol_callback_def Let_def Option.bind_eq_Some_conv)
      from 1(1) have "R 0 w w1"
        by (auto simp: jrpc_connection_init_def Let_def Option.bind_eq_Some_conv intro: R_library)
      with 1(2) onconnected_R [OF p(2) 2] show ?thesis by (blast intro: R_then)
    qed (use call LWS_CALLBACK_ESTABLISHED refl in \<open>auto simp: jrpc_protocol_callback_def Let_def Option.bind_eq_Some_conv\<close>)
  next
    case LWS_CALLBACK_CLOSED
    show ?thesis
    proof (cases c)
      case (Some x)
      with call LWS_CALLBACK_CLOSED p(1) obtain w1 w2
        where 1: "call_ondisconnected U (p_ondisconnected p) c w = Some w1" "request_writeable s c w2 = Some w'"
          and 2: "jrpc_connection_cleanup c w1 = Some w2"
        by (auto simp: jrpc_protocol_callback_def Let_def Option.bind_eq_Some_conv)
      with ondisconnected_R [OF p(2)] R_library [OF connection_cleanup_library [OF 2]] show ?thesis
        by (blast intro: R_then)
    qed (use call LWS_CALLBACK_CLOSED refl in \<open>auto simp: jrpc_protocol_callback_def Let_def Option.bind_eq_Some_conv\<close>)
  next
    case LWS_CALLBACK_RECEIVE
    with call refl process_R [OF _ conf] show ?thesis
      by (auto simp: jrpc_protocol_callback_def Let_def Option.bind_eq_Some_conv split: if_splits)
  next
    case LWS_CALLBACK_RAW_RX_FILE
    with call R_library read_library show ?thesis
      by (fastforce simp: jrpc_protocol_callback_def Let_def Option.bind_eq_Some_conv)
  next
    case (LWS_CALLBACK_OTHER n)
    with call refl show ?thesis
      by (auto simp: jrpc_protocol_callback_def Let_def Option.bind_eq_Some_conv)
  qed (use reason in simp)
  then show ?thesis
    by (blast intro: R_then R_library request_library)
qed

text \<open>Every event that does not write, and every run.\<close>

lemma event_R:
  assumes call: "perform E U lp e w = Some w'" and conf: "configured good w (lp_user lp)" and "\<not> writes e"
  shows "R (taken e) w w'"
proof -
  have conf': "configured good (w\<lparr>conns := cs\<rparr>) (lp_user lp)" for cs
    using conf by (simp add: configured_def)
  show ?thesis
  proof (cases e)
    case (Established c s)
    with call obtain r where "jrpc_protocol_callback E U (Some lp) s LWS_CALLBACK_ESTABLISHED (Some c) []
        (w\<lparr>conns := (conns w)(c \<mapsto> zero_connection)\<rparr>) = Some (r, w')"
      by (auto simp: callback_for_def Option.bind_eq_Some_conv)
    from R_then [OF R_library [OF library_fields(1)] callback_R [OF this conf']] Established show ?thesis by simp
  next
    case (Received c input)
    with call callback_R [OF _ conf] show ?thesis
      by (auto simp: callback_for_def Option.bind_eq_Some_conv)
  next
    case (Closed c)
    with call obtain s r w1
      where "jrpc_protocol_callback E U (Some lp) s LWS_CALLBACK_CLOSED (Some c) [] w = Some (r, w1)"
        and w': "w' = w1\<lparr>conns := (conns w1)(c := None)\<rparr>"
      by (auto simp: callback_for_def Option.bind_eq_Some_conv)
    from R_then [OF callback_R [OF this(1) conf] R_library [OF library_fields(1)]] Closed w' show ?thesis by simp
  next
    case Wakeup
    with call show ?thesis by (auto intro: R_library wakeup_library)
  next
    case (Notify c name params)
    with call show ?thesis by (auto intro: R_library notify_library)
  next
    case (Respond c result i)
    with call show ?thesis by (auto intro: R_library respond_library)
  next
    case (Respond_error c code s i)
    with call show ?thesis by (auto intro: R_library respond_error_library)
  qed (use call callback_R [OF _ conf] assms(3) in auto)
qed

theorem run_R:
  assumes V_trans: "\<And>d d' w w' w''. V d w w' \<Longrightarrow> V d' w' w'' \<Longrightarrow> V (d + d') w w''"
    and V_R: "\<And>d w w'. R d w w' \<Longrightarrow> V d w w'" and V_write: "\<And>w w'. write_step w w' \<Longrightarrow> V 0 w w'"
  shows "steps E U lp w es w' \<Longrightarrow> sound E good I lp w P \<Longrightarrow> V (sum_list (map taken es)) w w'"
proof (induction arbitrary: P rule: steps.induct)
  case (steps_Nil w)
  then show ?case by (simp add: V_R R_library)
next
  case (steps_Cons e w w1 es w2)
  from event_ok [OF steps_Cons.prems steps_Cons.hyps(1)] steps_Cons.hyps(2)
  obtain P1 where "sound E good I lp w1 P1" by auto
  from steps_Cons.IH [OF this] have rest: "V (sum_list (map taken es)) w1 w2" .
  have "V (taken e) w w1"
  proof (cases "writes e")
    case True
    with can_write_step [OF steps_Cons.hyps(2)] show ?thesis by (simp add: V_write)
  next
    case False
    with steps_Cons.prems event_R [OF steps_Cons.hyps(2)] show ?thesis by (simp add: V_R sound_def)
  qed
  with rest V_trans show ?case by fastforce
qed

end

section \<open>The default handlers\<close>

sublocale jansson \<subseteq> silent_defaults: guarded_handlers E U default_protocol "\<lambda>_ _. True" library_step
  for U :: "('j, 'a pheap_scheme) user_code"
proof unfold_locales
  fix p c name params i and w w' :: "'a pheap_scheme"
  show "library_step 0 w w'" if "default_protocol p" "call_onmethod E U (p_onmethod p) c name params i w = Some w'"
    using that by (auto simp: default_protocol_def jrpc_default_onmethod_def intro: respond_error_library)
  show "library_step 0 w w'" if "default_protocol p" "call_onnotify U (p_onnotify p) c name params w = Some w'"
    using that by (simp add: default_protocol_def jrpc_default_onnotify_def)
  show "library_step 0 w w'" if "default_protocol p" "call_onconnected U (p_onconnected p) c w = Some w'"
    using that by (simp add: default_protocol_def jrpc_default_onconnected_def)
  show "library_step 0 w w'" if "default_protocol p" "call_ondisconnected U (p_ondisconnected p) c w = Some w'"
    using that by (simp add: default_protocol_def jrpc_default_ondisconnected_def)
qed (simp_all add: library_step_trans)

context jansson
begin

lemma default_guarded: "guarded_handlers E U default_protocol (\<lambda>_ _. True) library_step"
  by (rule silent_defaults.guarded_handlers_axioms)

end

section \<open>Property\<close>

definition quiet_run :: "int \<Rightarrow> 'a pheap_scheme \<Rightarrow> 'a pheap_scheme \<Rightarrow> bool" where
  "quiet_run d w w' \<longleftrightarrow> untouched d w w' \<and> pheap.more w' = pheap.more w"

lemma quiet_run_trans: "quiet_run d w w' \<Longrightarrow> quiet_run d' w' w'' \<Longrightarrow> quiet_run (d + d') w w''"
  unfolding quiet_run_def by (auto intro: untouched_trans)

text \<open>C19. The loop leaves alone what is not its own: whatever happens to a server with the default handlers
  (any sessions, any bytes received, any calls of the application, any allocation failures), the
  configuration of its protocol and everything behind it (servers and their strings, the user's state)
  stay as they are, no descriptor is opened or closed, and the references to JSON values are balanced:
  the program ends up with exactly the references fewer that the application has handed over.\<close>

theorem loop_leaves_alone:
  fixes w :: "'a pheap_scheme"
  assumes E: "jansson E" and fresh: "fresh_server default_protocol lp w0" and run: "steps E U lp w0 es w"
  shows "json_refs w = json_refs w0 - sum_list (map taken es) \<and> protos w = protos w0 \<and>
    dom (sockets w) = dom (sockets w0) \<and> pheap.more w = pheap.more w0"
proof -
  note G = jansson.default_guarded [OF E, of U]
  note W = jansson.default_handlers [OF E, of U]
  have "quiet_run (sum_list (map taken es)) w0 w"
    by (rule guarded_handlers.run_R [where V = quiet_run, OF G _ _ _ run wired_handlers.fresh_sound [OF W fresh TrueI]])
       (erule (1) quiet_run_trans, simp_all add: library_step_def write_step_def quiet_run_def)
  then show ?thesis by (simp add: quiet_run_def untouched_def)
qed

theorem loop_leaves_alone_witness:
  "\<exists>w. steps ref_env idle_user example_lws (no_clients {}) [Established 0 5, Respond 0 (Some (JInt 1)) 2] w \<and>
    json_refs w = json_refs (no_clients {}) - 1 \<and> protos w = protos (no_clients {})"
proof -
  obtain w P s ts where run: "steps ref_env idle_user example_lws (no_clients {}) [Established 0 5] w"
    and w: "sound ref_env default_protocol (\<lambda>_ _. True) example_lws w P" and P: "P 0 = Some ts"
    by (rule example_run)
  have "0 \<in> dom P" using P by blast
  from wired_handlers.run_event [OF ref.default_handlers w enabled_session(4) [OF w this]]
  obtain w' where more: "steps ref_env idle_user example_lws w [Respond 0 (Some (JInt 1)) 2] w'" by blast
  have "steps ref_env idle_user example_lws (no_clients {}) ([Established 0 5] @ [Respond 0 (Some (JInt 1)) 2]) w'"
    using run more by (rule steps_append)
  from loop_leaves_alone [OF ref.jansson_axioms no_clients_fresh this] this show ?thesis by auto
qed

end
