(* ===== verification/Jrpc_Chat_Frame.thy ===== *)
theory Jrpc_Chat_Frame
  imports Jrpc_Frame Jrpc_Chat_Rules
begin

text \<open>
  What the chat server leaves alone. Its handlers change the table of the participants, and through
  the library the queues; \<open>chat_step\<close> lists what they do not change: the server object and its
  strings, the flag and the output of the program, and the account of JSON references. They write
  nothing to a websocket.
\<close>

definition chat_keeps :: "int \<Rightarrow> 'a chat_heap_scheme \<Rightarrow> 'a chat_heap_scheme \<Rightarrow> bool" where
  "chat_keeps d w w' \<longleftrightarrow>
     untouched d w w' \<and> servers w' = servers w \<and> cstrs w' = cstrs w \<and>
     is_shutdown_requested w' = is_shutdown_requested w \<and> std_out w' = std_out w \<and> std_err w' = std_err w \<and>
     chat_heap.more w' = chat_heap.more w"

definition chat_step :: "int \<Rightarrow> 'a chat_heap_scheme \<Rightarrow> 'a chat_heap_scheme \<Rightarrow> bool" where
  "chat_step d w w' \<longleftrightarrow> chat_keeps d w w' \<and> silent w w'"

lemma chat_keeps_trans: "chat_keeps d w w' \<Longrightarrow> chat_keeps d' w' w'' \<Longrightarrow> chat_keeps (d + d') w w''"
  unfolding chat_keeps_def using untouched_trans [of d w w' d' w''] by simp

lemma chat_step_trans: "chat_step d w w' \<Longrightarrow> chat_step d' w' w'' \<Longrightarrow> chat_step (d + d') w w''"
  unfolding chat_step_def by (blast intro: chat_keeps_trans silent_trans)

lemma chat_step_then: "chat_step 0 w w' \<Longrightarrow> chat_step d w' w'' \<Longrightarrow> chat_step d w w''"
  using chat_step_trans [of 0 w w' d w''] by simp

lemma more_keeps:
  fixes w :: "'a chat_heap_scheme"
  shows "untouched d w w' \<Longrightarrow> pheap.more w' = pheap.more w \<Longrightarrow> chat_keeps d w w'"
  by (cases w; cases w') (simp add: chat_keeps_def)

lemma library_chat_step: "library_step d w w' \<Longrightarrow> chat_step d w w'"
  by (simp add: library_step_def chat_step_def more_keeps)

lemma write_chat_keeps: "write_step w w' \<Longrightarrow> chat_keeps 0 w w'"
  by (simp add: write_step_def more_keeps)

lemma chat_step_refl [simp]: "chat_step 0 w w" "chat_step 0 w (w\<lparr>chatters := xs\<rparr>)"
  by (simp_all add: chat_step_def chat_keeps_def untouched_def silent_def)

lemma chat_calls:
  "clock w \<le> n \<Longrightarrow> chat_step (json_refs w - r) w (w\<lparr>clock := n, json_refs := r\<rparr>)"
  by (simp add: chat_step_def chat_keeps_def untouched_def silent_def)

lemma for_each_step:
  assumes "\<And>x w w'. f x w = Some w' \<Longrightarrow> chat_step 0 w w'"
  shows "for_each f xs w = Some w' \<Longrightarrow> chat_step 0 w w'"
proof (induction xs arbitrary: w)
  case (Cons x xs)
  then obtain w1 where "f x w = Some w1" "for_each f xs w1 = Some w'"
    by (auto simp: Option.bind_eq_Some_conv)
  with assms Cons.IH show ?case by (blast intro: chat_step_then)
qed simp

context chat_jansson
begin

lemma notify_pair_step:
  assumes "notify_pair E name x y item w = Some w'"
  shows "chat_step 0 w w'"
proof -
  let ?w1 = "w\<lparr>clock := clock w + 5, json_refs := json_refs w + ref_count (json_array E (clock w))\<rparr>"
  have "chat_step (- ref_count (json_array E (clock w))) w ?w1"
    using chat_calls [of w "clock w + 5" "json_refs w + ref_count (json_array E (clock w))"] by simp
  moreover have "chat_step (ref_count (json_array E (clock w))) ?w1 w'"
    using notify_library [OF assms [unfolded notify_pair_eq]] by (simp add: pair_refs library_chat_step)
  ultimately show ?thesis using chat_step_trans by fastforce
qed

lemma broadcast_step: "for_each (notify_pair E name x y) xs w = Some w' \<Longrightarrow> chat_step 0 w w'"
  by (erule for_each_step [rotated]) (rule notify_pair_step)

lemma error_step: "jrpc_respond_error E connection code s i w = Some w' \<Longrightarrow> chat_step 0 w w'"
  by (rule library_chat_step [OF respond_error_library])

lemma set_name_step:
  assumes call: "set_name E k params i w = Some w'"
  shows "chat_step 0 w w'"
proof -
  from call obtain who where who: "map_of (chatters w) k = Some who"
    by (auto simp: set_name_def Option.bind_eq_Some_conv)
  show ?thesis
  proof (cases "\<exists>h. json_array_get E params 0 = Some h \<and> json_is_string E h \<and> \<not> is_name_used (json_string_value E h) w")
    case True
    then obtain h where h: "json_array_get E params 0 = Some h" "json_is_string E h" "\<not> is_name_used (json_string_value E h) w"
      by blast
    let ?name = "json_string_value E h"
    let ?w1 = "w\<lparr>chatters := renamed k who ?name (chatters w)\<rparr>"
    let ?w4 = "?w1\<lparr>clock := clock ?w1 + 3, json_refs := json_refs ?w1 + ref_count (json_object E (clock w))\<rparr>"
    from call set_name_run [OF who h, of i] obtain w5 and who' :: chatter
      where r: "jrpc_respond E (chat_connection who) (name_value E (clock w) ?name) i ?w4 = Some w5"
        and a: "announce E ''arrived'' (chat_name who') w5 = Some w'"
      by (auto simp: Option.bind_eq_Some_conv)
    have "chat_step (- ref_count (json_object E (clock w))) ?w1 ?w4"
      using chat_calls [of ?w1 "clock ?w1 + 3" "json_refs ?w1 + ref_count (json_object E (clock w))"] by simp
    moreover have "chat_step (ref_count (json_object E (clock w))) ?w4 w5"
      using respond_library [OF r] by (simp add: library_chat_step name_value_def)
    ultimately have "chat_step 0 ?w1 w5" using chat_step_trans by fastforce
    moreover have "chat_step 0 w5 w'" using a unfolding announce_def by (rule broadcast_step)
    ultimately show ?thesis using chat_step_refl(2) by (blast intro: chat_step_then)
  next
    case False
    with call set_name_error [OF who] error_step show ?thesis by metis
  qed
qed

lemma onmethod_step: "onmethod E c name params i w = Some w' \<Longrightarrow> chat_step 0 w w'"
  by (auto simp: onmethod_def intro: error_step set_name_step split: option.splits if_splits)

lemma onnotify_step: "onnotify E c name params w = Some w' \<Longrightarrow> chat_step 0 w w'"
  by (auto simp: onnotify_def chat_def Option.bind_eq_Some_conv intro: broadcast_step split: option.splits if_splits)

lemma onconnected_step: "onconnected E c w = Some w' \<Longrightarrow> chat_step 0 w w'"
  by (auto simp: onconnected_def)

lemma ondisconnected_step: "ondisconnected E c w = Some w' \<Longrightarrow> chat_step 0 w w'"
  by (auto simp: ondisconnected_def announce_def Option.bind_eq_Some_conv
      intro: chat_step_then [OF broadcast_step chat_step_refl(2)] split: option.splits)

end

sublocale chat_jansson \<subseteq> silent_chat: guarded_handlers E "chat_user E" chat_protocol chat_inv chat_step
proof unfold_locales
  fix p c name params i and w w' :: "'b chat_heap_scheme"
  show "chat_step 0 w w'" if "chat_protocol p" "call_onmethod E (chat_user E) (p_onmethod p) c name params i w = Some w'"
    using that by (simp add: chat_protocol_def chat_user_def onmethod_step)
  show "chat_step 0 w w'" if "chat_protocol p" "call_onnotify (chat_user E) (p_onnotify p) c name params w = Some w'"
    using that by (simp add: chat_protocol_def chat_user_def onnotify_step)
  show "chat_step 0 w w'" if "chat_protocol p" "call_onconnected (chat_user E) (p_onconnected p) c w = Some w'"
    using that by (simp add: chat_protocol_def chat_user_def onconnected_step)
  show "chat_step 0 w w'" if "chat_protocol p" "call_ondisconnected (chat_user E) (p_ondisconnected p) c w = Some w'"
    using that by (simp add: chat_protocol_def chat_user_def ondisconnected_step)
qed (simp_all add: chat_step_trans library_chat_step)

context chat_jansson
begin

lemma chat_guarded: "guarded_handlers E (chat_user E) chat_protocol chat_inv chat_step"
  by (rule silent_chat.guarded_handlers_axioms)

lemma chat_run_keeps:
  assumes "steps E (chat_user E) lp w es w'" and "sound E chat_protocol chat_inv lp w P"
  shows "chat_keeps (sum_list (map taken es)) w w'"
  by (rule guarded_handlers.run_R [where V = chat_keeps, OF chat_guarded _ _ _ assms])
     (erule (1) chat_keeps_trans, simp_all add: chat_step_def write_chat_keeps)

lemma chat_event_silent:
  assumes "perform E (chat_user E) lp e w = Some w'" and "sound E chat_protocol chat_inv lp w P" and "\<not> writes e"
  shows "silent w w'"
  using guarded_handlers.event_R [OF chat_guarded assms(1) _ assms(3)] assms(2)
  by (simp add: sound_def chat_step_def)

end

end
