(* ===== verification/Jrpc_Chat_Room.thy ===== *)
theory Jrpc_Chat_Room
  imports Jrpc_Room Jrpc_Chat_Service Jrpc_Chat_Frame
begin

text \<open>
  The proof that the chat server implements the room of \<open>Jrpc_Room\<close>. The locale \<open>room_service\<close> has the whole
  simulation, event by event and for runs, for any service \<open>T\<close> that the calls of the library provide; the
  instance of this theory is the service with enough memory, \<open>full_texts\<close>. The refinement covers
  the library and the handlers together.
\<close>

section \<open>The abstraction\<close>

definition members_of :: "table \<Rightarrow> members" where
  "members_of xs c = map_option chat_name (map_of xs (Some c))"

text \<open>The state shows the members \<open>M\<close> and the mailbox \<open>P\<close>; \<open>K\<close> and \<open>S\<close> are the conditions on the memory and on
  the names under which the service sends (\<open>sender\<close>).\<close>

definition room_rel ::
  "('a chat_heap_scheme \<Rightarrow> bool) \<Rightarrow> (string \<Rightarrow> bool) \<Rightarrow> ('j, 'e) chat_env_scheme \<Rightarrow> lws_protocols
     \<Rightarrow> 'a chat_heap_scheme \<Rightarrow> members \<Rightarrow> mailbox \<Rightarrow> bool" where
  "room_rel K S E lp w M P \<longleftrightarrow>
     sound E chat_protocol chat_inv lp w P \<and> K w \<and> M = members_of (chatters w) \<and> (\<forall>x \<in> ran M. S x)"

definition literals :: "string set" where
  "literals = {[], ''message'', ''announce'', ''arrived'', ''gone'', ''name already used'', ''invalid params'',
     ''not implemented''}"

lemma members_at: "map_of xs (Some c) = Some who \<Longrightarrow> members_of xs c = Some (chat_name who)"
  by (simp add: members_of_def)

lemma members_renamed: "map_of xs' = (map_of xs)(Some c \<mapsto> who\<lparr>chat_name := y\<rparr>) \<Longrightarrow>
    members_of xs' = (members_of xs)(c \<mapsto> y)"
  by (simp add: members_of_def fun_eq_iff)

lemma members_deleted: "map_of xs' = (map_of xs)(Some c := None) \<Longrightarrow> members_of xs' = (members_of xs)(c := None)"
  by (simp add: members_of_def fun_eq_iff)

lemma members_names:
  assumes "table_ok (chatters w) C"
  shows "is_name_used y w \<longleftrightarrow> y \<in> ran (members_of (chatters w))"
proof -
  have dist: "distinct (map fst (chatters w))" using assms by (simp add: table_ok_def)
  have "(k, x) \<in> set (chatters w) \<Longrightarrow> \<exists>c. k = Some c" for k x
    using table_entry [OF assms] by blast
  then show ?thesis
    using dist by (force simp: is_name_used_def list_ex_iff ran_def members_of_def map_of_eq_Some_iff [OF dist])
qed

definition texts_of :: "'a chat_heap_scheme \<Rightarrow> wsi \<Rightarrow> string list" where
  "texts_of w s = written s (lws_log w)"

definition room_of :: "'a chat_heap_scheme \<Rightarrow> mailbox \<Rightarrow> room" where
  "room_of w P = (members_of (chatters w), P, wsi_of w, texts_of w)"

text \<open>A state of the program that shows a state of the room.\<close>

definition in_room ::
  "('a chat_heap_scheme \<Rightarrow> bool) \<Rightarrow> (string \<Rightarrow> bool) \<Rightarrow> ('j, 'e) chat_env_scheme \<Rightarrow> lws_protocols
     \<Rightarrow> 'a chat_heap_scheme \<Rightarrow> room \<Rightarrow> bool" where
  "in_room K S E lp w r \<longleftrightarrow> (\<exists>M P. room_rel K S E lp w M P \<and> r = room_of w P)"

section \<open>Calls into the program\<close>

lemma room_rel_facts:
  assumes "room_rel K S E lp w M P"
  shows "inv E w P" and "K w" and "chat_inv w (dom P)" and "table_ok (chatters w) (dom P)" and "dom M = dom P"
    and "dom P = dom (conns w)" and "M = members_of (chatters w)" and "\<forall>x \<in> ran M. S x"
    and "\<exists>p. deref (protos w) (lp_user lp) = Some p \<and> chat_protocol p" and "sound E chat_protocol chat_inv lp w P"
proof -
  show s: "sound E chat_protocol chat_inv lp w P" using assms by (simp add: room_rel_def)
  then show "inv E w P" "K w" "chat_inv w (dom P)" "dom P = dom (conns w)" "M = members_of (chatters w)" "\<forall>x \<in> ran M. S x"
    "\<exists>p. deref (protos w) (lp_user lp) = Some p \<and> chat_protocol p"
    using assms sound_dom [OF s] by (auto simp: sound_def room_rel_def configured_def)
  then show ok: "table_ok (chatters w) (dom P)" by (simp add: chat_inv_def)
  have "M c = None \<longleftrightarrow> c \<notin> dom P" for c
    using table_lookup [OF ok, of c] \<open>M = members_of (chatters w)\<close> by (simp add: members_of_def)
  then show "dom M = dom P" by (intro set_eqI) (metis domIff)
qed

lemma member_entry:
  assumes "room_rel K S E lp w M P" and "c \<in> dom P"
  shows "\<exists>who ts. map_of (chatters w) (Some c) = Some who \<and> M c = Some (chat_name who) \<and> P c = Some ts \<and>
    S (chat_name who)"
proof -
  from table_some [OF room_rel_facts(4) [OF assms(1)] assms(2)] obtain who
    where who: "map_of (chatters w) (Some c) = Some who" by blast
  then have M: "M c = Some (chat_name who)" using room_rel_facts(7) [OF assms(1)] by (simp add: members_at)
  with room_rel_facts(8) [OF assms(1)] who assms(2) show ?thesis by (blast intro: ranI)
qed

lemma request_writeable_clock: "request_writeable s connection w = Some w' \<Longrightarrow> clock w' = clock w"
  by (auto simp: request_writeable_def lws_callback_on_writable_def Option.bind_eq_Some_conv split: option.splits if_splits)

text \<open>\<open>LWS_CALLBACK_RECEIVE\<close>, when it is known what \<open>jrpc_protocol_process\<close> does.\<close>

lemma receive_event:
  assumes "jrpc_protocol_process E U (lp_user lp) (Some c) input w = Some w1" and inv: "inv E w1 P1"
    and c: "c \<in> dom P1" and s: "wsi_of w c = Some s"
  shows "\<exists>w'. perform E U lp (Received c input) w = Some w' \<and> inv E w' P1 \<and> same_sessions w1 w' \<and> clock w' = clock w1"
proof -
  from request_writeable_spec [OF inv c, of s] obtain w'
    where "request_writeable s (Some c) w1 = Some w'" "inv E w' P1" "same_sessions w1 w'"
    by metis
  with assms(1) s request_writeable_clock [of s "Some c" w1 w'] show ?thesis
    by (auto simp: callback_for_def jrpc_protocol_callback_def Let_def)
qed


lemma onnotify_idle:
  assumes "map_of (chatters w) k = Some who" and "name = ''chat'' \<longrightarrow> (\<nexists>m. string_element E params 0 m)"
  shows "onnotify E k name params w = Some w"
  using assms by (auto simp: onnotify_def chat_def string_element_def split: option.split)

lemma process_ignored:
  fixes w :: "'a chat_heap_scheme"
  assumes w: "inv E w P" and who: "map_of (chatters w) (Some c) = Some who"
    and p: "deref (protos w) protocol = Some p" "chat_protocol p"
    and quiet: "\<And>r name params. json_loadb E (clock w) input = Some r \<Longrightarrow> rpc_call E r name params \<Longrightarrow>
      rpc_id E r = None \<and> (name = ''chat'' \<longrightarrow> (\<nexists>m. string_element E params 0 m))"
  shows "\<exists>w'. jrpc_protocol_process E (chat_user E) protocol (Some c) input w = Some w' \<and> inv E w' P \<and>
    chatters w' = chatters w \<and> oom w' = oom w"
proof (cases "json_loadb E (clock w) input")
  case None
  then have "jrpc_protocol_process E (chat_user E) protocol (Some c) input w = Some (w\<lparr>clock := Suc (clock w)\<rparr>)"
    by (simp add: jrpc_protocol_process_def call_new_def Let_def)
  then show ?thesis using w by simp
next
  case (Some r)
  let ?w = "w\<lparr>clock := Suc (clock w), json_refs := json_refs w + 1\<rparr>"
  show ?thesis
  proof (cases "\<exists>name params. rpc_call E r name params")
    case True
    then obtain name params where call: "rpc_call E r name params" by blast
    note idle = quiet [OF Some call]
    have "onnotify E (Some c) name params ?w = Some ?w"
      using idle who by (intro onnotify_idle) simp_all
    with idle processed [OF Some call p, of "Some c" ?w P] w show ?thesis by auto
  next
    case False
    then have "jrpc_protocol_dispatch E (chat_user E) protocol (Some c) r ?w = Some ?w"
      by (intro dispatch_no_call) blast
    then have "jrpc_protocol_process E (chat_user E) protocol (Some c) input w = Some (?w\<lparr>json_refs := json_refs w\<rparr>)"
      using Some by (simp add: jrpc_protocol_process_def call_new_def Let_def json_decref_def)
    then show ?thesis using w by simp
  qed
qed

lemma map_of_mset: "distinct (map fst xs) \<Longrightarrow> mset ys = mset xs \<Longrightarrow> map_of ys = map_of xs"
proof -
  assume "distinct (map fst xs)" and eq: "mset ys = mset xs"
  moreover from eq have "mset (map fst ys) = mset (map fst xs)" by simp
  ultimately have "distinct (map fst ys)" using mset_eq_imp_distinct_iff by blast
  with \<open>distinct (map fst xs)\<close> mset_eq_setD [OF eq] show ?thesis by (simp add: map_of_inject_set)
qed

lemma same_updates: "\<exists>s. w = w\<lparr>sockets := s\<rparr>" "\<exists>l. v = v\<lparr>lws_log := l\<rparr>"
  by (rule exI [of _ "sockets w"], simp) (rule exI [of _ "lws_log v"], simp)

lemma sys_read_sockets: "sys_read fd w = Some w' \<Longrightarrow> \<exists>s. w' = w\<lparr>sockets := s\<rparr>"
  by (auto simp: sys_read_def same_updates split: option.splits list.splits)

lemma sys_write_sockets: "\<exists>s. sys_write fd bs w = w\<lparr>sockets := s\<rparr>"
  by (intro exI [of _ "sockets (sys_write fd bs w)"]) (simp add: sys_write_def split: option.split)

lemma request_writeable_log: "request_writeable s connection w = Some w' \<Longrightarrow> \<exists>l. w' = w\<lparr>lws_log := l\<rparr>"
  by (auto simp: request_writeable_def lws_callback_on_writable_def same_updates Option.bind_eq_Some_conv
      split: option.splits if_splits)

lemma internal_same:
  fixes w :: "'a pheap_scheme"
  assumes "internal e" and "perform E U lp e w = Some w'"
  shows "blocks w' = blocks w \<and> conns w' = conns w \<and> clock w' = clock w \<and> oom w' = oom w \<and>
    pheap.more w' = pheap.more w"
proof -
  have "(\<exists>l. w' = w\<lparr>lws_log := l\<rparr>) \<or> (\<exists>s l. w' = w\<lparr>sockets := s, lws_log := l\<rparr>) \<or> (\<exists>s. w' = w\<lparr>sockets := s\<rparr>) \<or>
      (\<exists>l l'. w' = w\<lparr>lws_log := l, lws_log := l'\<rparr>)"
    using assms sys_write_sockets
    by (cases e)
       (auto simp: jrpc_protocol_callback_def Let_def jrpc_protocol_wakeup_def Option.bind_eq_Some_conv
          dest!: request_writeable_log sys_read_sockets)
  then show ?thesis by auto
qed

lemma event_texts:
  fixes w :: "'a chat_heap_scheme"
  assumes E: "chat_jansson E" and w: "sound E chat_protocol chat_inv lp w P" and e: "enabled lp e w"
    and call: "perform E (chat_user E) lp e w = Some w'"
  shows "texts_of w' = texts_after e (wsi_of w) P (texts_of w)"
proof (cases "writes e")
  case True
  then obtain c where c: "e = Can_write c" by (cases e) auto
  have inv: "inv E w P" using w by (simp add: sound_def)
  have "c \<in> dom P" using e c sound_dom [OF w] by simp
  with inv obtain s ts where s: "wsi_of w c = Some s" and P: "P c = Some ts" by (meson inv_conn domD)
  from wired_handlers.can_write_exact [OF chat_jansson.chat_handlers [OF E] w s P] call c
  have "lws_log w' = lws_log w @ writeable_events s ts" by auto
  with c s P show ?thesis by (simp add: texts_of_def written_writeable_events fun_eq_iff)
next
  case False
  from chat_jansson.chat_event_silent [OF E call w False] have "texts_of w' = texts_of w"
    by (simp add: texts_of_def silent_def fun_eq_iff)
  with False show ?thesis by (cases e) simp_all
qed

section \<open>The simulation\<close>

text \<open>The literals of the program and what jansson has parsed can be sent.\<close>

locale room_service = sender E T K S for E :: "('j, 'e) chat_env_scheme" and T and K :: "'a chat_heap_scheme \<Rightarrow> bool" and S +
  assumes S_literal: "x \<in> literals \<Longrightarrow> S x"
    and S_element: "string_element E a n x \<Longrightarrow> S x"

definition room_simulated ::
  "(nat \<Rightarrow> nat \<Rightarrow> texts) \<Rightarrow> ('a chat_heap_scheme \<Rightarrow> bool) \<Rightarrow> (string \<Rightarrow> bool) \<Rightarrow> ('j, 'e) chat_env_scheme
     \<Rightarrow> lws_protocols \<Rightarrow> 'j event \<Rightarrow> 'a chat_heap_scheme \<Rightarrow> members \<Rightarrow> mailbox \<Rightarrow> bool" where
  "room_simulated T K S E lp e w M P \<longleftrightarrow>
     (\<exists>w' M' P'. perform E (chat_user E) lp e w = Some w' \<and> room_rel K S E lp w' M' P' \<and>
        room_step (T (clock w) (clock w')) E (clock w) e (M, P) (M', P'))"

context room_service
begin

text \<open>A state that is reached by an event, with the mailbox that it is known to have.\<close>

lemma room_next:
  assumes w: "room_rel K S E lp w M P" and e: "enabled lp e w"
    and call: "perform E (chat_user E) lp e w = Some w'" and inv: "inv E w' P'" and oom: "oom w' = oom w"
    and M': "members_of (chatters w') = M'" and S: "\<forall>x \<in> ran M'. S x"
  shows "room_rel K S E lp w' M' P'"
proof -
  from wired_handlers.event_ok [OF chat_handlers room_rel_facts(10) [OF w] e] call obtain P''
    where s: "sound E chat_protocol chat_inv lp w' P''" by auto
  then have "P'' = P'" using models_unique [OF sound_models inv_models [OF inv]] by blast
  moreover have "K w'" using room_rel_facts(2) [OF w] oom by (rule K_same)
  ultimately show ?thesis using s M' S by (simp add: room_rel_def)
qed

lemma room_received:
  assumes w: "room_rel K S E lp w M P" and c: "c \<in> dom P"
    and process: "jrpc_protocol_process E (chat_user E) (lp_user lp) (Some c) input w = Some w1"
    and inv: "inv E w1 P1" and oom: "oom w1 = oom w" and M1: "members_of (chatters w1) = M1" and S: "\<forall>x \<in> ran M1. S x"
    and dom: "dom P1 = dom P"
    and step: "room_step (T (clock w) (clock w1)) E (clock w) (Received c input) (M, P) (M1, P1)"
  shows "room_simulated T K S E lp (Received c input) w M P"
proof -
  have e: "enabled lp (Received c input) w" using c room_rel_facts(6) [OF w] by simp
  from room_rel_facts(1) [OF w] c obtain s where s: "wsi_of w c = Some s" by (rule inv_conn)
  from receive_event [OF process inv _ s] c dom obtain w'
    where w': "perform E (chat_user E) lp (Received c input) w = Some w'" "inv E w' P1" "same_sessions w1 w'" "clock w' = clock w1"
    by auto
  have "oom w' = oom w" using w'(3) oom by (simp add: same_sessions_def)
  moreover have "members_of (chatters w') = M1" using same_sessions_chatters [OF w'(3)] M1 by simp
  ultimately have "room_rel K S E lp w' M1 P1" using room_next [OF w e w'(1,2)] S by blast
  with w'(1) step [folded w'(4)] show ?thesis unfolding room_simulated_def by blast
qed

text \<open>A request or notification that the chat server knows.\<close>

lemma simulate_chat:
  assumes w: "room_rel K S E lp w M P" and c: "c \<in> dom P"
    and load: "json_loadb E (clock w) input = Some r" and call: "rpc_call E r ''chat'' params"
    and id: "rpc_id E r = None" and m: "string_element E params 0 m"
  shows "room_simulated T K S E lp (Received c input) w M P"
proof -
  note facts = room_rel_facts [OF w]
  from facts(9) obtain p where p: "deref (protos w) (lp_user lp) = Some p" "chat_protocol p" by blast
  from member_entry [OF w c] obtain who
    where who: "map_of (chatters w) (Some c) = Some who" and M: "M c = Some (chat_name who)" and S: "S (chat_name who)" by blast
  have message: "S ''message''" by (rule S_literal) (simp add: literals_def)
  from process_chat [OF facts(1-3) load call id p who m message S S_element [OF m]] obtain w1 P1
    where 1: "jrpc_protocol_process E (chat_user E) (lp_user lp) (Some c) input w = Some w1" "inv E w1 P1"
      "posted_to (dom P) (notices (T (clock w) (clock w1)) ''message'' (chat_name who) m) P P1" "chatters w1 = chatters w" "oom w1 = oom w"
    by blast
  have "hears E (clock w) input ''chat'' params None" using load call id unfolding hears_def by blast
  then have "room_step (T (clock w) (clock w1)) E (clock w) (Received c input) (M, P) (M, P1)" using M m 1(3) by (intro room_say)
  moreover have "dom P1 = dom P" using 1(3) by (simp add: posted_to_def)
  ultimately show ?thesis
    using room_received [OF w c 1(1,2,5) _ facts(8)] 1(4) facts(7) by simp
qed

lemma simulate_refusal:
  assumes w: "room_rel K S E lp w M P" and c: "c \<in> dom P"
    and load: "json_loadb E (clock w) input = Some r" and call: "rpc_call E r name params"
    and id: "rpc_id E r = Some i" and refusal: "refusal E M name params code s"
    and run: "\<And>w'. K w' \<Longrightarrow> chatters w' = chatters w \<Longrightarrow>
      onmethod E (Some c) name params i w' = jrpc_respond_error E (Some c) code s i w'"
  shows "room_simulated T K S E lp (Received c input) w M P"
proof -
  note facts = room_rel_facts [OF w]
  from facts(9) obtain p where p: "deref (protos w) (lp_user lp) = Some p" "chat_protocol p" by blast
  from c obtain ts where P: "P c = Some ts" by blast
  have s: "S s" using refusal by (intro S_literal) (auto simp: refusal_def literals_def)
  from process_error [OF facts(1-3) load call id p P s run] obtain w1 us
    where 1: "jrpc_protocol_process E (chat_user E) (lp_user lp) (Some c) input w = Some w1"
      "refusals (T (clock w) (clock w1)) code s i us"
      "inv E w1 (P(c \<mapsto> ts @ us))" "chatters w1 = chatters w" "oom w1 = oom w"
    by blast
  have "hears E (clock w) input name params (Some i)" using load call id unfolding hears_def by blast
  then have "room_step (T (clock w) (clock w1)) E (clock w) (Received c input) (M, P) (M, P(c \<mapsto> ts @ us))"
    using P refusal 1(2) by (intro room_refuse)
  moreover have "dom (P(c \<mapsto> ts @ us)) = dom P" using c by auto
  ultimately show ?thesis
    using room_received [OF w c 1(1,3,5) _ facts(8)] 1(4) facts(7) by simp
qed

lemma simulate_rename:
  assumes w: "room_rel K S E lp w M P" and c: "c \<in> dom P"
    and load: "json_loadb E (clock w) input = Some r" and call: "rpc_call E r ''set_name'' params"
    and id: "rpc_id E r = Some i" and y: "string_element E params 0 y" "y \<notin> ran M"
  shows "room_simulated T K S E lp (Received c input) w M P"
proof -
  note facts = room_rel_facts [OF w]
  from facts(9) obtain p where p: "deref (protos w) (lp_user lp) = Some p" "chat_protocol p" by blast
  from member_entry [OF w c] obtain who ts
    where who: "map_of (chatters w) (Some c) = Some who" and P: "P c = Some ts" by blast
  have "\<not> is_name_used y w" using members_names [OF facts(4), of y] y(2) facts(7) by simp
  then have free: "\<forall>(k, x) \<in> set (chatters w). chat_name x \<noteq> y" by (auto simp: is_name_used_def list_ex_iff)
  have S: "S ''announce''" "S ''arrived''" "S y"
    using S_literal S_element [OF y(1)] by (simp_all add: literals_def)
  from process_name [OF facts(1-3) load call id p P who y(1) free S] obtain w1 P1 us
    where 1: "jrpc_protocol_process E (chat_user E) (lp_user lp) (Some c) input w = Some w1" "inv E w1 P1"
      "confirmations (T (clock w) (clock w1)) y i us"
      "posted_to (dom P) (notices (T (clock w) (clock w1)) ''announce'' ''arrived'' y) (P(c \<mapsto> ts @ us)) P1"
      "map_of (chatters w1) = (map_of (chatters w))(Some c \<mapsto> who\<lparr>chat_name := y\<rparr>)" "oom w1 = oom w"
    by blast
  have "members_of (chatters w1) = M(c \<mapsto> y)" using members_renamed [OF 1(5)] facts(7) by simp
  moreover have "\<forall>x \<in> ran (M(c \<mapsto> y)). S x" using facts(8) S(3) unfolding ran_def by auto
  moreover have "dom P1 = dom P" using 1(4) c by (auto simp: posted_to_def)
  moreover have "hears E (clock w) input ''set_name'' params (Some i)" using load call id unfolding hears_def by blast
  then have "room_step (T (clock w) (clock w1)) E (clock w) (Received c input) (M, P) (M(c \<mapsto> y), P1)"
    using P y 1(3,4) by (intro room_rename)
  ultimately show ?thesis
    using room_received [OF w c 1(1,2,6)] by simp
qed

lemma simulate_request:
  assumes w: "room_rel K S E lp w M P" and c: "c \<in> dom P"
    and load: "json_loadb E (clock w) input = Some r" and call: "rpc_call E r name params" and id: "rpc_id E r = Some i"
  shows "room_simulated T K S E lp (Received c input) w M P"
proof -
  note facts = room_rel_facts [OF w]
  have ok: "table_ok (chatters w') (dom P)" if "chatters w' = chatters w" for w'
    using that facts(4) by simp
  consider (other) "name \<noteq> ''set_name''" | (invalid) "name = ''set_name''" "\<nexists>y. string_element E params 0 y"
    | (used) y where "name = ''set_name''" "string_element E params 0 y" "y \<in> ran M"
    | (new) y where "name = ''set_name''" "string_element E params 0 y" "y \<notin> ran M"
    by blast
  then show ?thesis
  proof cases
    case other
    show ?thesis
      by (rule simulate_refusal [OF w c load call id _ onmethod_errors(1) [OF ok c other]])
         (use other in \<open>simp_all add: refusal_def\<close>)
  next
    case invalid
    show ?thesis
      by (rule simulate_refusal [OF w c load call id _ onmethod_errors(2) [OF ok c invalid(2), folded invalid(1)]])
         (use invalid in \<open>simp_all add: refusal_def\<close>)
  next
    case used
    have taken: "is_name_used y w'" if "chatters w' = chatters w" for w'
      using members_names [OF ok [OF that], of y] that used(3) facts(7) by simp
    show ?thesis
      by (rule simulate_refusal [OF w c load call id _ onmethod_errors(3) [OF ok c used(2) taken, folded used(1)]])
         (use used in \<open>auto simp: refusal_def\<close>)
  next
    case new
    show ?thesis by (rule simulate_rename [OF w c load call [unfolded new(1)] id new(2,3)])
  qed
qed

lemma simulate_received:
  assumes w: "room_rel K S E lp w M P" and c: "c \<in> dom P"
  shows "room_simulated T K S E lp (Received c input) w M P"
proof (cases "\<exists>r name params. json_loadb E (clock w) input = Some r \<and> rpc_call E r name params \<and>
    (rpc_id E r = None \<longrightarrow> name = ''chat'' \<and> (\<exists>m. string_element E params 0 m))")
  case True
  then obtain r name params where r: "json_loadb E (clock w) input = Some r" "rpc_call E r name params"
    "rpc_id E r = None \<longrightarrow> name = ''chat'' \<and> (\<exists>m. string_element E params 0 m)" by (elim exE conjE)
  then show ?thesis
    using simulate_request [OF w c r(1,2)] simulate_chat [OF w c r(1)] by (cases "rpc_id E r") auto
next
  case False
  then have quiet: "rpc_id E r = None \<and> (name = ''chat'' \<longrightarrow> (\<nexists>m. string_element E params 0 m))"
    if "json_loadb E (clock w) input = Some r" "rpc_call E r name params" for r name params
    using that by blast
  note facts = room_rel_facts [OF w]
  from facts(9) obtain p where p: "deref (protos w) (lp_user lp) = Some p" "chat_protocol p" by blast
  from member_entry [OF w c] obtain who where who: "map_of (chatters w) (Some c) = Some who" by blast
  from process_ignored [OF facts(1) who p quiet] obtain w1
    where 1: "jrpc_protocol_process E (chat_user E) (lp_user lp) (Some c) input w = Some w1" "inv E w1 P"
      "chatters w1 = chatters w" "oom w1 = oom w"
    by blast
  have "ignored E (clock w) input" unfolding ignored_def using quiet by blast
  then have "room_step (T (clock w) (clock w1)) E (clock w) (Received c input) (M, P) (M, P)" by (rule room_ignore)
  with room_received [OF w c 1(1,2,4) _ facts(8) refl] 1(3) facts(7) show ?thesis by simp
qed

lemma simulate_established:
  assumes w: "room_rel K S E lp w M P" and e: "enabled lp (Established c s :: 'j event) w"
  shows "room_simulated T K S E lp (Established c s) w M P"
proof -
  note facts = room_rel_facts [OF w]
  from facts(9) obtain p where p: "deref (protos w) (lp_user lp) = Some p" "chat_protocol p" by blast
  let ?x = "\<lparr>chat_connection = Some c, chat_name = []\<rparr>"
  let ?w1 = "open_session (p_server p) c s w"
  have chatters1: "chatters ?w1 = chatters w" by (simp add: open_session_def)
  let ?xs = "rehash E ((Some c, ?x) # chatters w)"
  let ?w2 = "?w1\<lparr>chatters := ?xs\<rparr>"
  have c: "c \<notin> dom P" using e facts(6) by auto
  then have key: "Some c \<notin> set (map fst (chatters w))" using facts(4) unfolding table_ok_def by blast
  then have insert: "table_insert E (Some c) ?x (chatters ?w1) = ?xs" by (simp add: table_insert_def chatters1)
  have inv1: "inv E ?w1 (P(c \<mapsto> []))" using facts(1) e by (intro inv_open_session) simp_all
  then have inv2: "inv E ?w2 (P(c \<mapsto> []))" by (rule inv_frame) simp_all
  have "request_writeable s (Some c) ?w2 = Some ?w2"
    using request_writeable_eq [OF inv_models [OF inv2]] by simp
  then have call: "perform E (chat_user E) lp (Established c s) w = Some ?w2"
    using p insert
    by (simp add: callback_for_def jrpc_protocol_callback_def Let_def connection_init_eq chat_protocol_def chat_user_def
        onconnected_def)
  have "distinct (map fst ((Some c, ?x) # chatters w))" using key facts(4) by (simp add: table_ok_def)
  then have "map_of ?xs = map_of ((Some c, ?x) # chatters w)"
    using rehash_perm by (rule map_of_mset)
  then have members: "members_of (chatters ?w2) = M(c \<mapsto> [])"
    using facts(7) by (simp add: members_of_def fun_eq_iff)
  have "S []" by (rule S_literal) (simp add: literals_def)
  then have S: "\<forall>x \<in> ran (M(c \<mapsto> [])). S x" using facts(8) unfolding ran_def by auto
  have oom: "oom ?w2 = oom w" by (simp add: open_session_def)
  have "c \<notin> dom M" using c facts(5) by simp
  then have "room_step (T (clock w) (clock ?w2)) E (clock w) (Established c s) (M, P) (M(c \<mapsto> []), P(c \<mapsto> []))" by (intro room_join) blast
  with call room_next [OF w e call inv2 oom members S] show ?thesis
    unfolding room_simulated_def by blast
qed

lemma simulate_can_write:
  assumes w: "room_rel K S E lp w M P" and c: "c \<in> dom P"
  shows "room_simulated T K S E lp (Can_write c) w M P"
proof -
  note facts = room_rel_facts [OF w]
  from facts(1) c obtain wsi where wsi: "wsi_of w c = Some wsi" by (rule inv_conn)
  from c obtain ts where P: "P c = Some ts" by blast
  from wired_handlers.can_write_exact [OF chat_handlers facts(10) wsi P] obtain w'
    where w': "perform E (chat_user E) lp (Can_write c) w = Some w'" "sound E chat_protocol chat_inv lp w' (P(c \<mapsto> tl ts))"
      "pheap.more w' = pheap.more w" "oom w' = oom w"
    by blast
  have "chatters w' = chatters w" using w'(3) by (cases w; cases w') simp
  then have "room_rel K S E lp w' M (P(c \<mapsto> tl ts))"
    using w'(2) K_same [OF facts(2) w'(4)] facts(7,8) by (simp add: room_rel_def)
  with w'(1) room_deliver [of P c ts "T (clock w) (clock w')" E "clock w" M] P show ?thesis unfolding room_simulated_def by blast
qed

lemma simulate_closed:
  assumes w: "room_rel K S E lp w M P" and c: "c \<in> dom P"
  shows "room_simulated T K S E lp (Closed c) w M P"
proof -
  note facts = room_rel_facts [OF w]
  from facts(9) obtain p where p: "deref (protos w) (lp_user lp) = Some p" "chat_protocol p" by blast
  from member_entry [OF w c] obtain who
    where who: "map_of (chatters w) (Some c) = Some who" and M: "M c = Some (chat_name who)" and name: "S (chat_name who)"
    by blast
  from facts(1) c obtain s where s: "wsi_of w c = Some s" by (rule inv_conn)
  have e: "enabled lp (Closed c :: 'j event) w" using c facts(6) by simp
  have S: "S ''announce''" "S ''gone''" using S_literal by (simp_all add: literals_def)
  from departure_callback [OF facts(1-3) p who S name, of s "[]"] obtain w1 P''
    where 1: "jrpc_protocol_callback E (chat_user E) (Some lp) s LWS_CALLBACK_CLOSED (Some c) [] w = Some (0, w1)"
      "inv E w1 (P''(c \<mapsto> []))" "posted_to (dom P) (notices (T (clock w) (clock w1)) ''announce'' ''gone'' (chat_name who)) P P''"
      "map_of (chatters w1) = (map_of (chatters w))(Some c := None)" "oom w1 = oom w"
    by blast
  let ?w = "w1\<lparr>conns := (conns w1)(c := None)\<rparr>"
  have call: "perform E (chat_user E) lp (Closed c) w = Some ?w"
    using 1(1) s by (simp add: callback_for_def)
  have inv: "inv E ?w (P''(c := None))"
    using inv_end_session [OF 1(2), of c] by simp
  have members: "members_of (chatters ?w) = M(c := None)"
    using members_deleted [OF 1(4)] facts(7) by simp
  have "\<forall>x \<in> ran (M(c := None)). S x" using facts(8) unfolding ran_def by auto
  moreover have "oom ?w = oom w" using 1(5) by simp
  ultimately have "room_rel K S E lp ?w (M(c := None)) (P''(c := None))"
    using room_next [OF w e call inv _ members] by blast
  moreover have "room_step (T (clock w) (clock ?w)) E (clock w) (Closed c) (M, P) (M(c := None), P''(c := None))"
    by (rule room_leave [of M c _ P _ P'', OF M]) (use 1(3) in simp)
  ultimately show ?thesis using call unfolding room_simulated_def by blast
qed

lemma simulate_internal:
  assumes w: "room_rel K S E lp w M P" and e: "enabled lp (e :: 'j event) w" and "internal e"
  shows "room_simulated T K S E lp e w M P"
proof -
  note facts = room_rel_facts [OF w]
  from wired_handlers.event_ok [OF chat_handlers facts(10) e] obtain w' P'
    where call: "perform E (chat_user E) lp e w = Some w'" and s': "sound E chat_protocol chat_inv lp w' P'"
    by blast
  from internal_same [OF assms(3) call]
  have same: "blocks w' = blocks w" "conns w' = conns w" "clock w' = clock w" "oom w' = oom w" "pheap.more w' = pheap.more w"
    by blast+
  have "models E w' P"
    by (rule models_frame [OF sound_models [OF facts(10)]]) (simp_all add: same queues_def)
  then have "P' = P" using models_unique [OF sound_models [OF s']] by blast
  moreover have "chatters w' = chatters w" using same(5) by (cases w; cases w') simp
  ultimately have "room_rel K S E lp w' M P"
    using s' K_same [OF facts(2) same(4)] facts(7,8) by (simp add: room_rel_def)
  with call room_inside [OF assms(3)] show ?thesis unfolding room_simulated_def by blast
qed

theorem room_simulation:
  assumes w: "room_rel K S E lp w M P" and e: "enabled lp (e :: 'j event) w" "loop_event e"
  shows "room_simulated T K S E lp e w M P"
proof -
  have dom: "dom P = dom (conns w)" using room_rel_facts(6) [OF w] .
  show ?thesis
    using e simulate_established [OF w] simulate_received [OF w] simulate_can_write [OF w]
      simulate_closed [OF w] simulate_internal [OF w e(1)]
    by (cases e) (simp_all add: dom)
qed

text \<open>Every run.\<close>

lemma room_refines:
  "steps E (chat_user E) lp w es w' \<Longrightarrow> in_room K S E lp w r \<Longrightarrow> list_all loop_event es \<Longrightarrow>
    \<exists>r'. room_story T E (history E (chat_user E) lp es w) r r' \<and> in_room K S E lp w' r'"
proof (induction arbitrary: r rule: steps.induct)
  case (steps_Cons e w w1 es w2)
  from steps_Cons.prems(1) obtain M P where w: "room_rel K S E lp w M P" and r: "r = room_of w P"
    by (auto simp: in_room_def)
  note facts = room_rel_facts [OF w]
  from steps_Cons w have "room_simulated T K S E lp e w M P" by (intro room_simulation) simp_all
  with steps_Cons.hyps(2) obtain M1 P1 where 1: "room_rel K S E lp w1 M1 P1"
    "room_step (T (clock w) (clock w1)) E (clock w) e (M, P) (M1, P1)"
    by (auto simp: room_simulated_def)
  have "M1 = members_of (chatters w1)" using 1(1) by (simp add: room_rel_def)
  with 1(2) have "room_event (T (clock w) (clock w1)) E (clock w) e r (room_of w1 P1)"
    using wired_handlers.event_sessions [OF chat_handlers facts(10) steps_Cons.hyps(1,2)]
      event_texts [OF chat_jansson_axioms facts(10) steps_Cons.hyps(1,2)]
    by (simp add: room_event_def r room_of_def facts(7))
  moreover from 1(1) have "in_room K S E lp w1 (room_of w1 P1)" by (auto simp: in_room_def)
  from steps_Cons.IH [OF this] steps_Cons.prems(2)
  obtain r' where "room_story T E (history E (chat_user E) lp es w1) (room_of w1 P1) r'" "in_room K S E lp w2 r'" by auto
  moreover have "history E (chat_user E) lp (e # es) w = (e, clock w, clock w1) # history E (chat_user E) lp es w1"
    using steps_Cons.hyps(1,2) by simp
  ultimately show ?case by (intro exI [of _ r']) (simp only: room_story.simps, blast)
qed auto

lemma in_empty_room:
  assumes fresh: "fresh_server chat_protocol lp w" and empty: "chatters w = []" "lws_log w = []" and K: "K w"
  shows "in_room K S E lp w empty_room_state"
proof -
  have "chat_inv w {}" using empty by (simp add: chat_inv_def table_ok_def names_unique_def)
  with wired_handlers.fresh_sound [OF chat_handlers fresh] empty K
  have "room_rel K S E lp w Map.empty Map.empty"
    by (simp add: room_rel_def members_of_def fun_eq_iff)
  moreover have "wsi_of w = Map.empty" using fresh by (simp add: fresh_server_def wsi_of_def fun_eq_iff)
  then have "empty_room_state = room_of w Map.empty"
    using empty by (simp add: room_of_def empty_room_state_def members_of_def texts_of_def fun_eq_iff)
  ultimately show ?thesis by (auto simp: in_room_def)
qed

theorem room_refinement:
  assumes fresh: "fresh_server chat_protocol lp w0" and empty: "chatters w0 = []" "lws_log w0 = []" and K: "K w0"
    and run: "steps E (chat_user E) lp w0 es w" and es: "list_all loop_event es"
  shows "\<exists>P. models E w P \<and>
    room_story T E (history E (chat_user E) lp es w0) empty_room_state
      (members_of (chatters w), P, wsi_of w, \<lambda>s. written s (lws_log w))"
proof -
  from room_refines [OF run in_empty_room [OF fresh empty K] es] obtain P M
    where "room_story T E (history E (chat_user E) lp es w0) empty_room_state (room_of w P)" and w: "room_rel K S E lp w M P"
    by (auto simp: in_room_def)
  with inv_models [OF room_rel_facts(1) [OF w]] show ?thesis
    by (auto simp: room_of_def texts_of_def [abs_def])
qed

end

section \<open>The service with enough memory\<close>

text \<open>jansson's strings are valid UTF-8, so what it has parsed it can also send; and so are the
  literals of the program.\<close>

definition good_strings :: "('j, 'e) chat_env_scheme \<Rightarrow> bool" where
  "good_strings E \<longleftrightarrow> utf8 E literals \<and> (\<forall>x. json_is_string E x \<longrightarrow> utf8 E {json_string_value E x})"

locale chat_room = chat_jansson_total E for E :: "('j, 'e) chat_env_scheme" +
  assumes strings: "good_strings E"

sublocale chat_room \<subseteq> full_room: room_service E "\<lambda>lo hi. full_texts E" no_oom "\<lambda>s. utf8 E {s}"
proof unfold_locales
  fix x a n
  show "utf8 E {x}" if "x \<in> literals"
    using strings that unfolding good_strings_def by (blast intro: utf8_subset)
  show "utf8 E {x}" if "string_element E a n x"
    using strings that unfolding good_strings_def string_element_def by blast
qed

context chat_room
begin

lemma full_service: "room_service E (\<lambda>lo hi. full_texts E) no_oom (\<lambda>s. utf8 E {s})"
  by (rule full_room.room_service_axioms)

end

interpretation ref_room: chat_room ref_chat_env
  by unfold_locales (use ref_utf8 in \<open>simp add: good_strings_def\<close>)

section \<open>Property\<close>

text \<open>C12. The chat server implements the chat room: as long as memory lasts, every run of the program,
  starting without participants, with any sessions, any bytes received and any order of callbacks and
  wakeups, is a run of the abstract room, whose members are the table, whose mailbox is what
  the queues of the connections hold, and whose texts are exactly those that have been written to each
  websocket.\<close>

theorem chat_room_refinement:
  fixes E :: "('j, 'e) chat_env_scheme" and w :: "'a chat_heap_scheme"
  assumes E: "chat_jansson_total E" and good: "good_strings E" and fresh: "fresh_server chat_protocol lp w0"
    and empty: "chatters w0 = []" "lws_log w0 = []" and oom: "no_oom w0"
    and run: "steps E (chat_user E) lp w0 es w" and es: "list_all loop_event es"
  shows "\<exists>P. models E w P \<and>
    room_run (full_texts E) E es empty_room_state (members_of (chatters w), P, wsi_of w, \<lambda>s. written s (lws_log w))"
proof -
  have "chat_room E" using E good by (simp add: chat_room_def chat_room_axioms_def)
  from room_service.room_refinement [OF chat_room.full_service [OF this] fresh empty oom run es] show ?thesis
    using room_story_run history_events [OF run] by metis
qed

theorem chat_room_refinement_witness:
  "\<exists>w P. steps ref_chat_env (chat_user ref_chat_env) example_lws (empty_room {})
      [Established 0 5, Received 0 (print_json (name_request ''ann''))] w \<and> models ref_chat_env w P \<and>
    room_run (full_texts ref_chat_env) ref_chat_env [Established 0 5, Received 0 (print_json (name_request ''ann''))] empty_room_state
      (members_of (chatters w), P, wsi_of w, \<lambda>s. written s (lws_log w))"
proof -
  have empty: "chatters (empty_room {}) = []" "lws_log (empty_room {}) = []" "no_oom (empty_room {})"
    by (simp_all add: empty_room_def no_oom_def)
  have es: "list_all loop_event [Established 0 5, Received 0 (print_json (name_request ''ann'')) :: json event]" by simp
  from chat_run_exists [of "print_json (name_request ''ann'')"] obtain w
    where run: "steps ref_chat_env (chat_user ref_chat_env) example_lws (empty_room {})
      [Established 0 5, Received 0 (print_json (name_request ''ann''))] w" by blast
  from chat_room_refinement [OF chat_ref.chat_jansson_total_axioms ref_room.strings empty_room_fresh empty run es] run
  show ?thesis by blast
qed

end
