(* ===== verification/Jrpc_Partial.thy ===== *)
theory Jrpc_Partial
  imports Jrpc_Session
begin

text \<open>
  The content of what is sent when allocations fail. The sources use the results of jansson's
  constructors and setters without a check, so a failure inside jansson does not stop a message; it is
  sent with a part missing. The lemmas say that this is all that can happen: whatever fails, what
  is sent contains nothing but members that were meant to be sent.
\<close>

section \<open>Partial objects\<close>

text \<open>NULL, or an object all of whose members are allowed.\<close>

definition partial_object :: "('j, 'e) env_scheme \<Rightarrow> (string \<Rightarrow> 'j \<Rightarrow> bool) \<Rightarrow> 'j option \<Rightarrow> bool" where
  "partial_object E F v \<longleftrightarrow>
     (\<forall>obj. v = Some obj \<longrightarrow> json_is_object E obj \<and> (\<forall>k x. json_object_get E obj k = Some x \<longrightarrow> F k x))"

definition integer_is :: "('j, 'e) env_scheme \<Rightarrow> c_int \<Rightarrow> 'j \<Rightarrow> bool" where
  "integer_is E i x \<longleftrightarrow> json_is_integer E x \<and> json_integer_value E x = int_to_json i"

definition string_is :: "('j, 'e) env_scheme \<Rightarrow> string \<Rightarrow> 'j \<Rightarrow> bool" where
  "string_is E s x \<longleftrightarrow> json_is_string E x \<and> json_string_value E x = s"

text \<open>The members of a response with a result that satisfies \<open>R\<close>, of an error and of a notification.\<close>

definition response_part :: "('j, 'e) env_scheme \<Rightarrow> ('j \<Rightarrow> bool) \<Rightarrow> c_int \<Rightarrow> string \<Rightarrow> 'j \<Rightarrow> bool" where
  "response_part E R i k x \<longleftrightarrow> k = ''result'' \<and> R x \<or> k = ''id'' \<and> integer_is E i x"

definition holder_part :: "('j, 'e) env_scheme \<Rightarrow> c_int \<Rightarrow> string \<Rightarrow> string \<Rightarrow> 'j \<Rightarrow> bool" where
  "holder_part E code s k x \<longleftrightarrow> k = ''code'' \<and> integer_is E code x \<or> k = ''message'' \<and> string_is E s x"

definition error_part :: "('j, 'e) env_scheme \<Rightarrow> c_int \<Rightarrow> string \<Rightarrow> c_int \<Rightarrow> string \<Rightarrow> 'j \<Rightarrow> bool" where
  "error_part E code s i k x \<longleftrightarrow>
     k = ''error'' \<and> partial_object E (holder_part E code s) (Some x) \<or> k = ''id'' \<and> integer_is E i x"

definition notification_part :: "('j, 'e) env_scheme \<Rightarrow> string \<Rightarrow> ('j \<Rightarrow> bool) \<Rightarrow> string \<Rightarrow> 'j \<Rightarrow> bool" where
  "notification_part E name A k x \<longleftrightarrow> k = ''method'' \<and> string_is E name x \<or> k = ''params'' \<and> A x"

text \<open>At most one text is sent, that of a partial object.\<close>

definition at_most_one :: "('j, 'e) env_scheme \<Rightarrow> (string \<Rightarrow> 'j \<Rightarrow> bool) \<Rightarrow> string list \<Rightarrow> bool" where
  "at_most_one E F us \<longleftrightarrow> us = [] \<or> (\<exists>v. us = [json_text E v] \<and> partial_object E F v)"

context jansson
begin

lemma partial_new [simp]: "partial_object E F (json_object E t)"
  using object_new by (auto simp: partial_object_def)

lemma partial_set:
  assumes obj: "partial_object E F obj" and v: "\<And>x. v = Some x \<Longrightarrow> F k x"
  shows "partial_object E F (json_object_set_new E t obj k v)"
proof (cases obj)
  case None
  then show ?thesis by (simp add: set_new_NULL partial_object_def)
next
  case (Some o1)
  with obj have o1: "json_is_object E o1" and F: "\<And>k x. json_object_get E o1 k = Some x \<Longrightarrow> F k x"
    by (auto simp: partial_object_def)
  show ?thesis
  proof (cases v)
    case None
    with obj show ?thesis by (simp add: set_new_no_value)
  next
    case x: (Some x)
    from set_new_object [OF o1, of t k x] obtain o2
      where "json_object_set_new E t (Some o1) k (Some x) = Some o2" "json_is_object E o2"
        "o2 = o1 \<or> json_object_get E o2 = (json_object_get E o1)(k \<mapsto> x)" by blast
    with F v [OF x] x Some show ?thesis by (auto simp: partial_object_def split: if_splits)
  qed
qed

lemma new_is [simp]:
  "json_integer E t (int_to_json i) = Some x \<Longrightarrow> integer_is E i x"
  "json_string E t s = Some x \<Longrightarrow> string_is E s x"
  using integer_new string_new by (auto simp: integer_is_def string_is_def)

lemma partial_values:
  shows "(\<And>x. result = Some x \<Longrightarrow> R x) \<Longrightarrow> partial_object E (response_part E R i) (respond_value E t result i)"
    and "partial_object E (holder_part E code s) (holder_value E t code s)"
    and "partial_object E (error_part E code s i) (error_value E t code s i)"
    and "(\<And>x. params = Some x \<Longrightarrow> A x) \<Longrightarrow> partial_object E (notification_part E name A) (notify_value E t name params)"
proof -
  show holder: "partial_object E (holder_part E code s) (holder_value E t code s)"
    unfolding holder_value_def by (intro partial_set partial_new) (auto simp: holder_part_def)
  show "partial_object E (response_part E R i) (respond_value E t result i)" if "\<And>x. result = Some x \<Longrightarrow> R x"
    unfolding respond_value_def using that by (intro partial_set partial_new) (auto simp: response_part_def)
  show "partial_object E (notification_part E name A) (notify_value E t name params)" if "\<And>x. params = Some x \<Longrightarrow> A x"
    unfolding notify_value_def using that by (intro partial_set partial_new) (auto simp: notification_part_def)
  show "partial_object E (error_part E code s i) (error_value E t code s i)"
    unfolding error_value_def using holder by (intro partial_set partial_new) (auto simp: error_part_def)
qed

lemma sends_partial:
  assumes "sends E c v n d w P w' P'" and P: "P c = Some ts" and "partial_object E F v"
  shows "\<exists>us. at_most_one E F us \<and> quiet E w P w' (P(c \<mapsto> ts @ us)) \<and> json_refs w' = json_refs w - d \<and>
    clock w' = Suc (clock w + n)"
proof -
  have "P' = P(c \<mapsto> ts @ (if oom w (clock w + n) then [] else [json_text E v]))"
    using assms by (auto simp: sends_def post_def)
  with assms sends_quiet [OF assms(1)] show ?thesis
    by (intro exI [of _ "if oom w (clock w + n) then [] else [json_text E v]"])
       (auto simp: at_most_one_def sends_def)
qed

lemma respond_partial:
  assumes w: "inv E w P" and P: "P c = Some ts" and R: "\<And>x. result = Some x \<Longrightarrow> R x"
  shows "\<exists>w' us. jrpc_respond E (Some c) result i w = Some w' \<and> at_most_one E (response_part E R i) us \<and>
    quiet E w P w' (P(c \<mapsto> ts @ us)) \<and> json_refs w' = json_refs w - ref_count result \<and> clock w' = clock w + 5"
proof -
  have "c \<in> dom P" using P by blast
  from respond_spec [OF w this, of result i] obtain w' P'
    where 1: "jrpc_respond E (Some c) result i w = Some w'"
      "sends E c (respond_value E (clock w) result i) 4 (ref_count result) w P w' P'" by blast
  from sends_partial [OF 1(2) P partial_values(1) [where R = R]] R 1(1) show ?thesis by (fastforce simp: numeral_eq_Suc)
qed

lemma respond_error_partial:
  assumes w: "inv E w P" and P: "P c = Some ts"
  shows "\<exists>w' us. jrpc_respond_error E (Some c) code s i w = Some w' \<and> at_most_one E (error_part E code s i) us \<and>
    quiet E w P w' (P(c \<mapsto> ts @ us)) \<and> json_refs w' = json_refs w \<and> clock w' = clock w + 10"
proof -
  have "c \<in> dom P" using P by blast
  from respond_error_spec [OF w this, of code s i] obtain w' P'
    where 1: "jrpc_respond_error E (Some c) code s i w = Some w'"
      "sends E c (error_value E (clock w) code s i) 9 0 w P w' P'" by blast
  from sends_partial [OF 1(2) P partial_values(3)] 1(1) show ?thesis by (simp add: numeral_eq_Suc)
qed

lemma notify_partial:
  assumes w: "inv E w P" and P: "P c = Some ts" and A: "\<And>x. params = Some x \<Longrightarrow> A x"
  shows "\<exists>w' us. jrpc_notify E (Some c) name params w = Some w' \<and> at_most_one E (notification_part E name A) us \<and>
    quiet E w P w' (P(c \<mapsto> ts @ us)) \<and> json_refs w' = json_refs w - ref_count params \<and> clock w' = clock w + 5"
proof -
  have "c \<in> dom P" using P by blast
  from notify_spec [OF w this, of name params] obtain w' P'
    where 1: "jrpc_notify E (Some c) name params w = Some w'"
      "sends E c (notify_value E (clock w) name params) 4 (ref_count params) w P w' P'" by blast
  from sends_partial [OF 1(2) P partial_values(4) [where A = A]] A 1(1) show ?thesis by (fastforce simp: numeral_eq_Suc)
qed

end

section \<open>An instance that fails\<close>

text \<open>jansson with requests that fail: those with a number in \<open>bad\<close>.\<close>

definition failing :: "nat set \<Rightarrow> ('j, 'e) env_scheme \<Rightarrow> ('j, 'e) env_scheme" where
  "failing bad E = E\<lparr>
     json_object := (\<lambda>t. if t \<in> bad then NULL else json_object E t),
     json_integer := (\<lambda>t i. if t \<in> bad then NULL else json_integer E t i),
     json_string := (\<lambda>t s. if t \<in> bad then NULL else json_string E t s),
     json_object_set_new := (\<lambda>t obj k v. if t \<in> bad then obj else json_object_set_new E t obj k v),
     json_loadb := (\<lambda>t s. if t \<in> bad then NULL else json_loadb E t s)\<rparr>"

lemma failing_simps [simp]:
  "json_object (failing bad E) = (\<lambda>t. if t \<in> bad then NULL else json_object E t)"
  "json_integer (failing bad E) = (\<lambda>t i. if t \<in> bad then NULL else json_integer E t i)"
  "json_string (failing bad E) = (\<lambda>t s. if t \<in> bad then NULL else json_string E t s)"
  "json_object_set_new (failing bad E) = (\<lambda>t obj k v. if t \<in> bad then obj else json_object_set_new E t obj k v)"
  "json_loadb (failing bad E) = (\<lambda>t s. if t \<in> bad then NULL else json_loadb E t s)"
  "json_dumpb (failing bad E) = json_dumpb E" "json_object_get (failing bad E) = json_object_get E"
  "json_is_object (failing bad E) = json_is_object E" "json_is_array (failing bad E) = json_is_array E"
  "json_is_string (failing bad E) = json_is_string E" "json_is_integer (failing bad E) = json_is_integer E"
  "json_string_value (failing bad E) = json_string_value E" "json_integer_value (failing bad E) = json_integer_value E"
  "lws_pre (failing bad E) = lws_pre E" "json_text (failing bad E) = json_text E"
  by (simp_all add: failing_def json_text_def fun_eq_iff)

context jansson
begin

lemma failing_jansson: "jansson (failing bad E)"
proof
  fix n r t k and x y :: 'j
  show "fst (json_dumpb (failing bad E) r n) = fst (json_dumpb (failing bad E) r 0)"
    unfolding failing_simps by (rule dump_size)
  show "unat (fst (json_dumpb (failing bad E) r 0)) + unat (lws_pre (failing bad E)) + 24 < 2 ^ 64"
    unfolding failing_simps by (rule dump_fits)
  show "\<exists>v'. json_object_set_new (failing bad E) t (Some x) k (Some y) = Some v' \<and> json_is_object (failing bad E) v' \<and>
      (v' = x \<or> json_object_get (failing bad E) v' = (json_object_get (failing bad E) x)(k \<mapsto> y))"
    if "json_is_object (failing bad E) x"
    using that set_new_object [of x t k y] by auto
qed (auto simp: set_new_NULL set_new_no_value get_no_object dump_bound dump_full
    split: if_splits dest: object_new integer_new string_new)

end

section \<open>Properties\<close>

text \<open>C28. What is sent under failing allocations: whatever fails, in the library or in jansson,
  \<open>jrpc_respond\<close>, \<open>jrpc_respond_error\<close> and \<open>jrpc_notify\<close> return and post at most one text; it is the dump of
  NULL or of an object that has no members but those asked for, with the values asked for, in an error
  also inside of its \<open>error\<close> member; other connections get nothing, and the references are balanced.\<close>

theorem content_under_failure:
  assumes E: "jansson E" and w: "inv E w P" and P: "P c = Some ts"
  shows "(\<exists>w' us. jrpc_respond E (Some c) result i w = Some w' \<and> inv E w' (P(c \<mapsto> ts @ us)) \<and>
      at_most_one E (response_part E (\<lambda>x. result = Some x) i) us \<and> json_refs w' = json_refs w - ref_count result) \<and>
    (\<exists>w' us. jrpc_respond_error E (Some c) code s i w = Some w' \<and> inv E w' (P(c \<mapsto> ts @ us)) \<and>
      at_most_one E (error_part E code s i) us \<and> json_refs w' = json_refs w) \<and>
    (\<exists>w' us. jrpc_notify E (Some c) name params w = Some w' \<and> inv E w' (P(c \<mapsto> ts @ us)) \<and>
      at_most_one E (notification_part E name (\<lambda>x. params = Some x)) us \<and> json_refs w' = json_refs w - ref_count params)"
  using jansson.respond_partial [OF E w P, where R = "\<lambda>x. result = Some x"] jansson.respond_error_partial [OF E w P]
    jansson.notify_partial [OF E w P, where A = "\<lambda>x. params = Some x"] quiet_inv by blast

text \<open>The third and the ninth call of jansson fail: the code and the id are missing.\<close>

theorem content_under_failure_witness:
  "\<exists>w' us. jrpc_respond_error (failing {4, 10} ref_env) (Some 1) 1 ''name already used'' 3 (two_sessions {}) = Some w' \<and>
    inv (failing {4, 10} ref_env) w' [0 \<mapsto> [], 1 \<mapsto> us] \<and> json_refs w' = 0 \<and>
    at_most_one (failing {4, 10} ref_env) (error_part (failing {4, 10} ref_env) 1 ''name already used'' 3) us"
proof -
  have P: "([0 \<mapsto> [], 1 \<mapsto> []] :: mailbox) 1 = Some []" by simp
  from content_under_failure [OF ref.failing_jansson [of "{4, 10}"] inv_two_sessions [of _ "{}"] P,
      where i = 3 and code = 1 and s = "''name already used''"]
  obtain w' us where "jrpc_respond_error (failing {4, 10} ref_env) (Some 1) 1 ''name already used'' 3 (two_sessions {}) = Some w'"
    "inv (failing {4, 10} ref_env) w' ([0 \<mapsto> [], 1 \<mapsto> []](1 \<mapsto> [] @ us))" "json_refs w' = json_refs (two_sessions {})"
    "at_most_one (failing {4, 10} ref_env) (error_part (failing {4, 10} ref_env) 1 ''name already used'' 3) us" by blast
  then show ?thesis by auto
qed

text \<open>C29. A response can lose its \<open>id\<close>: when \<open>json_integer\<close> fails, which is not checked, \<open>jrpc_respond\<close> sends the
  response all the same, an object without \<open>id\<close>, which its receiver cannot relate to any request.\<close>

theorem response_loses_id:
  assumes E: "jansson E" and w: "inv E w P" and P: "P c = Some ts" and oom: "\<not> oom w (clock w + 4)"
    and obj: "json_object E (clock w) \<noteq> NULL" and id: "json_integer E (clock w + 2) (int_to_json i) = NULL"
  shows "\<exists>w' v. jrpc_respond E (Some c) result i w = Some w' \<and> inv E w' (P(c \<mapsto> ts @ [json_text E (Some v)])) \<and>
    json_is_object E v \<and> json_object_get E v ''id'' = NULL"
proof -
  have c: "c \<in> dom P" using P by blast
  have v: "respond_value E (clock w) result i = json_object_set_new E (clock w + 1) (json_object E (clock w)) ''result'' result"
    using id jansson.set_new_no_value [OF E] by (simp add: respond_value_def)
  have part: "partial_object E (\<lambda>k x. k = ''result'') (respond_value E (clock w) result i)"
    unfolding v by (rule jansson.partial_set [OF E jansson.partial_new [OF E]]) simp
  moreover have "respond_value E (clock w) result i \<noteq> NULL"
    using obj jansson.value_refs(1) [OF E, of "clock w" result i] by (auto simp: ref_count_def split: option.splits)
  ultimately obtain o1 where o1: "respond_value E (clock w) result i = Some o1" "json_is_object E o1"
    "json_object_get E o1 ''id'' = NULL"
    by (cases "respond_value E (clock w) result i"; cases "json_object_get E (the (respond_value E (clock w) result i)) ''id''")
       (fastforce simp: partial_object_def)+
  from jansson.respond_spec [OF E w c, of result i] obtain w' P'
    where 1: "jrpc_respond E (Some c) result i w = Some w'"
      "sends E c (Some o1) 4 (ref_count result) w P w' P'" unfolding o1 by blast
  from sends_posted [OF 1(2) oom P] 1(1) o1 show ?thesis by blast
qed

text \<open>The answer \<open>{"result":42}\<close> to the request with \<open>id\<close> 7.\<close>

theorem response_loses_id_witness:
  "\<exists>w' v. jrpc_respond (failing {4} ref_env) (Some 0) (Some (JInt 42)) 7 (two_sessions {}) = Some w' \<and>
    inv (failing {4} ref_env) w' [0 \<mapsto> [json_text ref_env (Some v)], 1 \<mapsto> []] \<and>
    json_object_get ref_env v ''id'' = NULL \<and>
    respond_value (failing {4} ref_env) 2 (Some (JInt 42)) 7 = Some (JObject [(''result'', JInt 42)])"
proof -
  have P: "([0 \<mapsto> [], 1 \<mapsto> []] :: mailbox) 0 = Some []" by simp
  have "respond_value (failing {4} ref_env) 2 (Some (JInt 42)) 7 = Some (JObject [(''result'', JInt 42)])"
    by (simp add: respond_value_def ref_env_def ref_set_new_def)
  moreover have "\<not> oom (two_sessions {}) (clock (two_sessions {}) + 4)"
    and "json_object (failing {4} ref_env) (clock (two_sessions {})) \<noteq> NULL"
    and "json_integer (failing {4} ref_env) (clock (two_sessions {}) + 2) (int_to_json 7) = NULL"
    by (simp_all add: ref_env_def)
  from response_loses_id [OF ref.failing_jansson inv_two_sessions P this, of "Some (JInt 42)"]
  obtain w' v where "jrpc_respond (failing {4} ref_env) (Some 0) (Some (JInt 42)) 7 (two_sessions {}) = Some w'"
    "inv (failing {4} ref_env) w' ([0 \<mapsto> [], 1 \<mapsto> []](0 \<mapsto> [] @ [json_text ref_env (Some v)]))"
    "json_object_get ref_env v ''id'' = NULL" unfolding failing_simps by blast
  moreover have "([0 \<mapsto> [], 1 \<mapsto> []] :: mailbox)(0 \<mapsto> [] @ [t]) = [0 \<mapsto> [t], 1 \<mapsto> []]" for t
    by (simp add: fun_eq_iff)
  ultimately show ?thesis by metis
qed

end
