(* ===== verification/Jrpc_Chat_Lossy.thy ===== *)
theory Jrpc_Chat_Lossy
  imports Jrpc_Chat_Room Jrpc_Partial
begin

text \<open>
  The chat server when memory runs out. \<open>service\<close> is what is left of the service: when an allocation request fails
  while an event is handled, each text of this event may be missing, and parts of it may be missing, but
  nothing else is ever sent; when none fails, every text is sent completely. The locale
  \<open>chat_jansson_failing\<close> is what jansson documents when some of its calls fail, those with the numbers \<open>B\<close>, and
  with it the server implements the room with this service, for every pattern of failures. Who is in the room
  under which name does not depend on memory, once a request has been read.
\<close>

section \<open>Arrays under failure\<close>

text \<open>The array holds exactly these strings.\<close>

definition strings_are :: "('j, 'e) chat_env_scheme \<Rightarrow> string list \<Rightarrow> 'j \<Rightarrow> bool" where
  "strings_are E xs a \<longleftrightarrow>
     json_is_array E a \<and> (\<forall>n < length xs. string_element E a n (xs ! n)) \<and>
     (\<forall>n. length xs \<le> n \<longrightarrow> json_array_get E a n = NULL)"

definition partial_pair :: "('j, 'e) chat_env_scheme \<Rightarrow> string \<Rightarrow> string \<Rightarrow> 'j \<Rightarrow> bool" where
  "partial_pair E x y a \<longleftrightarrow> (\<exists>xs. subseq xs [x, y] \<and> strings_are E xs a)"

text \<open>What can be sent: the literals of the program, and strings that jansson has parsed.\<close>

definition sendable :: "('j, 'e) chat_env_scheme \<Rightarrow> string \<Rightarrow> bool" where
  "sendable E x \<longleftrightarrow> x \<in> literals \<or> (\<exists>v. json_is_string E v \<and> json_string_value E v = x)"

text \<open>\<open>json_array_append_new\<close> adds a last element or leaves the array as it was; NULL is never added. A call
  that is not one of those that fail does what it is asked to do.\<close>

locale chat_jansson_failing = chat_jansson E for E :: "('j, 'e) chat_env_scheme" +
  fixes B :: "nat \<Rightarrow> bool"
  assumes works_or_fails: "\<not> B t \<Longrightarrow> works E {t}"
    and arrays_work_or_fail: "\<not> B t \<Longrightarrow> arrays_work E {t}"
    and string_or_fails: "\<not> B t \<Longrightarrow> sendable E x \<Longrightarrow> json_string E t x \<noteq> NULL"
    and append_or_not: "json_is_array E a \<Longrightarrow> (\<And>m. json_array_get E a m = NULL \<longleftrightarrow> n \<le> m) \<Longrightarrow>
      \<exists>a'. json_array_append_new E t (Some a) v = Some a' \<and> json_is_array E a' \<and>
        (json_array_get E a' = json_array_get E a \<or> (\<exists>x. v = Some x \<and> json_array_get E a' = (json_array_get E a)(n \<mapsto> x)))"
begin

lemma lasts_or_fails:
  assumes "\<And>t. t \<in> N \<Longrightarrow> \<not> (bad t \<or> B t)" and "\<And>s. s \<in> S \<Longrightarrow> sendable E s"
  shows "lasts E bad S N"
proof -
  have "works E {t}" "arrays_work E {t}" "\<not> bad t" "s \<in> S \<Longrightarrow> json_string E t s \<noteq> NULL" if "t \<in> N" for t s
    using assms(1) [OF that] assms(2) works_or_fails arrays_work_or_fail string_or_fails by blast+
  then show ?thesis unfolding lasts_def works_def arrays_work_def by blast
qed

lemma append_string:
  assumes "strings_are E xs a"
  shows "\<exists>a'. json_array_append_new E t (Some a) (json_string E t' x) = Some a' \<and>
    (strings_are E xs a' \<or> strings_are E (xs @ [x]) a')"
proof -
  have "json_array_get E a m = NULL \<longleftrightarrow> length xs \<le> m" for m
    using assms by (cases "m < length xs") (auto simp: strings_are_def string_element_def)
  moreover have "json_is_array E a" using assms by (simp add: strings_are_def)
  ultimately obtain a' where a': "json_array_append_new E t (Some a) (json_string E t' x) = Some a'" "json_is_array E a'"
    "json_array_get E a' = json_array_get E a \<or>
      (\<exists>u. json_string E t' x = Some u \<and> json_array_get E a' = (json_array_get E a)(length xs \<mapsto> u))"
    using append_or_not by blast
  have "strings_are E xs a'" if "json_array_get E a' = json_array_get E a"
    using assms a'(2) that by (simp add: strings_are_def string_element_def)
  moreover have "strings_are E (xs @ [x]) a'"
    if "json_string E t' x = Some u" "json_array_get E a' = (json_array_get E a)(length xs \<mapsto> u)" for u
    using assms a'(2) that string_new [OF that(1)]
    by (auto simp: strings_are_def string_element_def nth_append less_Suc_eq)
  ultimately show ?thesis using a'(1,3) by blast
qed

lemma pair_value_partial:
  assumes "pair_value E t x y = Some a"
  shows "partial_pair E x y a"
proof -
  obtain a0 where a0: "json_array E t = Some a0"
    using assms append_NULL by (cases "json_array E t") (auto simp: pair_value_def)
  then have "strings_are E [] a0" using array_new by (auto simp: strings_are_def)
  from append_string [OF this] obtain a1 xs
    where 1: "json_array_append_new E (t + 2) (Some a0) (json_string E (t + 1) x) = Some a1" "strings_are E xs a1"
      and xs: "xs = [] \<or> xs = [x]" by fastforce
  have last: "json_array_append_new E (t + 4) (Some a1) (json_string E (t + 3) y) = Some a"
    using assms unfolding pair_value_def a0 1(1) .
  from append_string [OF 1(2), of "t + 4" "t + 3" y] obtain ys where "strings_are E ys a" "ys = xs \<or> ys = xs @ [y]"
    unfolding last by blast
  with xs show ?thesis unfolding partial_pair_def by (intro exI [of _ ys]) auto
qed

end

section \<open>The service\<close>

text \<open>What may be sent when allocations fail.\<close>

definition lossy_texts :: "('j, 'e) chat_env_scheme \<Rightarrow> texts" where
  "lossy_texts E =
     \<lparr>notices = (\<lambda>name x y. at_most_one E (notification_part E name (partial_pair E x y))),
      refusals = (\<lambda>code s i. at_most_one E (error_part E code s i)),
      confirmations = (\<lambda>name i. at_most_one E
        (response_part E (\<lambda>r. partial_object E (\<lambda>k u. k = ''name'' \<and> string_is E name u) (Some r)) i))\<rparr>"

text \<open>What one service and the other allow. When none of the requests from \<open>lo\<close> to below \<open>hi\<close> fails, a text is
  complete, and has nothing in it but its parts.\<close>

definition both :: "texts \<Rightarrow> texts \<Rightarrow> texts" where
  "both T T' =
     \<lparr>notices = (\<lambda>name x y us. notices T name x y us \<and> notices T' name x y us),
      refusals = (\<lambda>code s i us. refusals T code s i us \<and> refusals T' code s i us),
      confirmations = (\<lambda>name i us. confirmations T name i us \<and> confirmations T' name i us)\<rparr>"

definition service :: "('j, 'e) chat_env_scheme \<Rightarrow> (nat \<Rightarrow> bool) \<Rightarrow> nat \<Rightarrow> nat \<Rightarrow> texts" where
  "service E bad lo hi =
     (if \<exists>n. lo \<le> n \<and> n < hi \<and> bad n then lossy_texts E else both (full_texts E) (lossy_texts E))"

lemma service_mono: "lo' \<le> lo \<Longrightarrow> hi \<le> hi' \<Longrightarrow> allows (service E bad lo' hi') (service E bad lo hi)"
proof -
  assume "lo' \<le> lo" "hi \<le> hi'"
  then have "\<exists>n. lo' \<le> n \<and> n < hi' \<and> bad n" if "lo \<le> n" "n < hi" "bad n" for n
    using that by (intro exI [of _ n]) simp
  then show ?thesis by (auto simp: service_def allows_def both_def)
qed

lemma quiet_unique:
  assumes "quiet E w P w' (P(c \<mapsto> ts @ us))" and "quiet E w P w' (P(c \<mapsto> ts @ us'))"
  shows "us = us'"
proof -
  have "P(c \<mapsto> ts @ us) = P(c \<mapsto> ts @ us')"
    using models_unique inv_models quiet_inv assms by metis
  from fun_cong [OF this, of c] show ?thesis by simp
qed

context chat_jansson
begin

lemma name_value_partial: "partial_object E (\<lambda>k u. k = ''name'' \<and> string_is E name u) (name_value E t name)"
  unfolding name_value_def by (intro partial_set partial_new) auto

lemma notify_pair_partial:
  assumes "inv E w P" and P: "P c = Some ts" and conn: "chat_connection (snd item) = Some c"
    and A: "\<And>a. pair_value E (clock w) x y = Some a \<Longrightarrow> A a"
  shows "\<exists>w' us. notify_pair E name x y item w = Some w' \<and> at_most_one E (notification_part E name A) us \<and>
    quiet E w P w' (P(c \<mapsto> ts @ us)) \<and> json_refs w' = json_refs w \<and> clock w' = clock w + 10"
proof -
  let ?w = "w\<lparr>clock := clock w + 5, json_refs := json_refs w + ref_count (json_array E (clock w))\<rparr>"
  have q: "quiet E w P ?w P" using assms(1) by (rule quiet_calls)
  from notify_partial [OF quiet_inv [OF q] P, where A = A and name = name and params = "pair_value E (clock w) x y"] A obtain w' us
    where "jrpc_notify E (Some c) name (pair_value E (clock w) x y) ?w = Some w'"
      and us: "at_most_one E (notification_part E name A) us" and q': "quiet E ?w P w' (P(c \<mapsto> ts @ us))"
      and "json_refs w' = json_refs ?w - ref_count (pair_value E (clock w) x y)" "clock w' = clock ?w + 5" by blast
  then have "notify_pair E name x y item w = Some w'" "json_refs w' = json_refs w" "clock w' = clock w + 10"
    by (simp_all add: notify_pair_eq conn pair_refs)
  with us quiet_trans [OF q q'] show ?thesis by blast
qed

lemma confirm_partial:
  assumes "inv E w P" and P: "P c = Some ts"
  shows "\<exists>w' us. jrpc_respond E (Some c) (name_value E (clock w) name) i
      (w\<lparr>clock := clock w + 3, json_refs := json_refs w + ref_count (json_object E (clock w))\<rparr>) = Some w' \<and>
    confirmations (lossy_texts E) name i us \<and> quiet E w P w' (P(c \<mapsto> ts @ us)) \<and> json_refs w' = json_refs w \<and>
    clock w' = clock w + 8"
proof -
  let ?w = "w\<lparr>clock := clock w + 3, json_refs := json_refs w + ref_count (json_object E (clock w))\<rparr>"
  have q: "quiet E w P ?w P" using assms(1) by (rule quiet_calls)
  let ?R = "\<lambda>r. partial_object E (\<lambda>k u. k = ''name'' \<and> string_is E name u) (Some r)"
  have R: "?R r" if "name_value E (clock w) name = Some r" for r
    using name_value_partial [of name "clock w"] that by simp
  from respond_partial [OF quiet_inv [OF q] P, where R = ?R and i = i and result = "name_value E (clock w) name"] R obtain w' us
    where 1: "jrpc_respond E (Some c) (name_value E (clock w) name) i ?w = Some w'"
      and us: "at_most_one E (response_part E ?R i) us" and q': "quiet E ?w P w' (P(c \<mapsto> ts @ us))"
      and "json_refs w' = json_refs ?w - ref_count (name_value E (clock w) name)" "clock w' = clock ?w + 5" by blast
  then have "json_refs w' = json_refs w" "clock w' = clock w + 8" by (simp_all add: name_value_refs)
  moreover have "confirmations (lossy_texts E) name i us" using us by (simp add: lossy_texts_def)
  ultimately show ?thesis using 1 quiet_trans [OF q q'] by blast
qed

end

lemma service_simps:
  "notices (service E bad lo hi) name x y us \<longleftrightarrow>
     notices (lossy_texts E) name x y us \<and>
     ((\<forall>n. lo \<le> n \<longrightarrow> n < hi \<longrightarrow> \<not> bad n) \<longrightarrow> (\<exists>t. us = [t] \<and> pair_text E name x y t))"
  "refusals (service E bad lo hi) code s i us \<longleftrightarrow>
     refusals (lossy_texts E) code s i us \<and>
     ((\<forall>n. lo \<le> n \<longrightarrow> n < hi \<longrightarrow> \<not> bad n) \<longrightarrow> (\<exists>t. us = [t] \<and> error_text E code s i t))"
  "confirmations (service E bad lo hi) name i us \<longleftrightarrow>
     confirmations (lossy_texts E) name i us \<and>
     ((\<forall>n. lo \<le> n \<longrightarrow> n < hi \<longrightarrow> \<not> bad n) \<longrightarrow> (\<exists>t. us = [t] \<and> name_text E name i t))"
  by (auto simp: service_def both_def full_texts_def)

context chat_jansson_failing
begin

lemma lasts_when:
  assumes "\<forall>n. lo \<le> n \<longrightarrow> n < hi \<longrightarrow> \<not> (bad n \<or> B n)" and "\<And>s. s \<in> S \<Longrightarrow> sendable E s"
  shows "lasts E bad S {lo..<hi}"
  using assms by (intro lasts_or_fails) auto

lemma notice_served:
  assumes w: "inv E w P" "P c = Some ts" and S: "sendable E name" "sendable E x" "sendable E y"
    and conn: "chat_connection (snd item) = Some c"
  shows "\<exists>w' us. notify_pair E name x y item w = Some w' \<and>
    notices (service E (\<lambda>n. oom w n \<or> B n) (clock w) (clock w')) name x y us \<and>
    quiet E w P w' (P(c \<mapsto> ts @ us)) \<and> json_refs w' = json_refs w"
proof -
  from notify_pair_partial [OF w conn, of x y "partial_pair E x y" name] pair_value_partial obtain w' us
    where 1: "notify_pair E name x y item w = Some w'" "notices (lossy_texts E) name x y us"
      "quiet E w P w' (P(c \<mapsto> ts @ us))" "json_refs w' = json_refs w" and clock: "clock w' = clock w + 10"
    by (auto simp: lossy_texts_def)
  have "\<exists>t. us = [t] \<and> pair_text E name x y t" if "lasts E (oom w) {name, x, y} {clock w..<clock w + 10}"
    using notify_pair_posts [OF w that conn] 1(1) quiet_unique [OF 1(3)] by fastforce
  with 1(2) S lasts_when [of "clock w" "clock w + 10" "oom w" "{name, x, y}"]
  have "notices (service E (\<lambda>n. oom w n \<or> B n) (clock w) (clock w')) name x y us"
    unfolding service_simps clock by blast
  with 1(1,3,4) show ?thesis by blast
qed

lemma refusal_served:
  assumes w: "inv E w P" "P c = Some ts" and S: "sendable E s"
  shows "\<exists>w' us. jrpc_respond_error E (Some c) code s i w = Some w' \<and>
    refusals (service E (\<lambda>n. oom w n \<or> B n) (clock w) (clock w')) code s i us \<and>
    quiet E w P w' (P(c \<mapsto> ts @ us)) \<and> json_refs w' = json_refs w"
proof -
  from respond_error_partial [OF w, of code s i] obtain w' us
    where 1: "jrpc_respond_error E (Some c) code s i w = Some w'" "refusals (lossy_texts E) code s i us"
      "quiet E w P w' (P(c \<mapsto> ts @ us))" "json_refs w' = json_refs w" and clock: "clock w' = clock w + 10"
    unfolding lossy_texts_def by (auto simp del: fun_upd_apply)
  have "\<exists>t. us = [t] \<and> error_text E code s i t" if "lasts E (oom w) {s} {clock w..<clock w + 10}"
    using error_posts [OF w that, of code i] 1(1) quiet_unique [OF 1(3)] by fastforce
  with 1(2) S lasts_when [of "clock w" "clock w + 10" "oom w" "{s}"]
  have "refusals (service E (\<lambda>n. oom w n \<or> B n) (clock w) (clock w')) code s i us"
    unfolding service_simps clock by blast
  with 1(1,3,4) show ?thesis by blast
qed

lemma confirmation_served:
  assumes w: "inv E w P" "P c = Some ts" and S: "sendable E name"
  shows "\<exists>w' us. jrpc_respond E (Some c) (name_value E (clock w) name) i
      (w\<lparr>clock := clock w + 3, json_refs := json_refs w + ref_count (json_object E (clock w))\<rparr>) = Some w' \<and>
    confirmations (service E (\<lambda>n. oom w n \<or> B n) (clock w) (clock w')) name i us \<and>
    quiet E w P w' (P(c \<mapsto> ts @ us)) \<and> json_refs w' = json_refs w"
proof -
  from confirm_partial [OF w, of name i] obtain w' us
    where 1: "jrpc_respond E (Some c) (name_value E (clock w) name) i
        (w\<lparr>clock := clock w + 3, json_refs := json_refs w + ref_count (json_object E (clock w))\<rparr>) = Some w'"
      "confirmations (lossy_texts E) name i us"
      "quiet E w P w' (P(c \<mapsto> ts @ us))" "json_refs w' = json_refs w" and clock: "clock w' = clock w + 8"
    by blast
  have "\<exists>t. us = [t] \<and> name_text E name i t" if "lasts E (oom w) {name} {clock w..<clock w + 8}"
    using name_posts [OF w that, of i] 1(1) quiet_unique [OF 1(3)] by fastforce
  with 1(2) S lasts_when [of "clock w" "clock w + 8" "oom w" "{name}"]
  have "confirmations (service E (\<lambda>n. oom w n \<or> B n) (clock w) (clock w')) name i us"
    unfolding service_simps clock by blast
  with 1(1,3,4) show ?thesis by blast
qed

end

sublocale chat_jansson_failing \<subseteq> lossy: room_service E "service E (\<lambda>n. fails n \<or> B n)" "\<lambda>w. oom w = fails" "sendable E"
  for fails
proof unfold_locales
  fix w :: "'b chat_heap_scheme" and P c ts name x y s code i and item :: "ptr \<times> chatter"
  assume w: "inv E w P" "P c = Some ts" and fails: "oom w = fails"
  show "\<exists>w' us. notify_pair E name x y item w = Some w' \<and>
      notices (service E (\<lambda>n. fails n \<or> B n) (clock w) (clock w')) name x y us \<and>
      quiet E w P w' (P(c \<mapsto> ts @ us)) \<and> json_refs w' = json_refs w"
    if "sendable E name" "sendable E x" "sendable E y" "chat_connection (snd item) = Some c"
    using notice_served [OF w that] unfolding fails .
  show "\<exists>w' us. jrpc_respond_error E (Some c) code s i w = Some w' \<and>
      refusals (service E (\<lambda>n. fails n \<or> B n) (clock w) (clock w')) code s i us \<and>
      quiet E w P w' (P(c \<mapsto> ts @ us)) \<and> json_refs w' = json_refs w" if "sendable E s"
    using refusal_served [OF w that, of code i] unfolding fails .
  show "\<exists>w' us. jrpc_respond E (Some c) (name_value E (clock w) name) i
        (w\<lparr>clock := clock w + 3, json_refs := json_refs w + ref_count (json_object E (clock w))\<rparr>) = Some w' \<and>
      confirmations (service E (\<lambda>n. fails n \<or> B n) (clock w) (clock w')) name i us \<and>
      quiet E w P w' (P(c \<mapsto> ts @ us)) \<and> json_refs w' = json_refs w" if "sendable E name"
    using confirmation_served [OF w that, of i] unfolding fails .
qed (auto simp: sendable_def string_element_def intro: service_mono)

context chat_jansson_failing
begin

lemma lossy_service: "room_service E (service E (\<lambda>n. fails n \<or> B n)) (\<lambda>w. oom w = fails) (sendable E)"
  by (rule lossy.room_service_axioms)

end

section \<open>An instance that fails\<close>

definition failing_chat :: "nat set \<Rightarrow> ('j, 'e) chat_env_scheme \<Rightarrow> ('j, 'e) chat_env_scheme" where
  "failing_chat bad E = (failing bad E)\<lparr>
     json_array := (\<lambda>t. if t \<in> bad then NULL else json_array E t),
     json_array_append_new := (\<lambda>t a v. if t \<in> bad then a else json_array_append_new E t a v)\<rparr>"

lemma failing_chat_simps [simp]:
  "json_array (failing_chat bad E) = (\<lambda>t. if t \<in> bad then NULL else json_array E t)"
  "json_array_append_new (failing_chat bad E) = (\<lambda>t a v. if t \<in> bad then a else json_array_append_new E t a v)"
  "json_array_get (failing_chat bad E) = json_array_get E" "rehash (failing_chat bad E) = rehash E"
  "json_is_array (failing_chat bad E) = json_is_array E"
  "env.truncate (failing_chat bad E) = failing bad (env.truncate E)"
  by (simp_all add: failing_chat_def failing_def env.defs fun_eq_iff)

lemma jansson_truncate: "jansson (env.truncate E) \<Longrightarrow> jansson E"
  by (simp add: jansson_def env.truncate_def json_text_def)

text \<open>A call that does not fail is one of the reference instance, in which none does.\<close>

lemma failing_works:
  assumes "t \<notin> bad" and "lasts E o' S UNIV"
  shows "works (failing_chat bad E) {t}" and "arrays_work (failing_chat bad E) {t}"
    and "x \<in> S \<Longrightarrow> json_string (failing_chat bad E) t x \<noteq> NULL"
  using assms by (simp_all add: lasts_def works_def arrays_work_def failing_chat_def failing_def)

interpretation failing_room: chat_jansson_failing "failing_chat bad ref_chat_env" "\<lambda>n. n \<in> bad" for bad
proof -
  have "jansson (failing_chat bad ref_chat_env)"
    by (rule jansson_truncate) (simp add: truncate_ref_chat_env ref.failing_jansson)
  moreover have "chat_jansson_axioms (failing_chat bad ref_chat_env)"
    by unfold_locales
       (auto simp: instance_defs ref_array_get_def ref_array_append_def split: json.splits option.splits if_splits)
  moreover have "chat_jansson_failing_axioms (failing_chat bad ref_chat_env) (\<lambda>n. n \<in> bad)"
  proof
    fix t x
    assume "t \<notin> bad"
    then show "works (failing_chat bad ref_chat_env) {t}" "arrays_work (failing_chat bad ref_chat_env) {t}"
      "json_string (failing_chat bad ref_chat_env) t x \<noteq> NULL"
      using failing_works [OF _ chat_ref.memory_lasts [OF room_no_oom ref_utf8, of UNIV UNIV]] by simp_all
  next
    fix a n t v
    assume "json_is_array (failing_chat bad ref_chat_env) a"
      and get: "\<And>m. json_array_get (failing_chat bad ref_chat_env) a m = NULL \<longleftrightarrow> n \<le> m"
    then obtain vs where a: "a = JArray vs"
      by (auto simp: instance_defs split: json.splits)
    have "n = length vs"
      using get by (intro ref_array_length) (simp add: a instance_defs)
    with a show "\<exists>a'. json_array_append_new (failing_chat bad ref_chat_env) t (Some a) v = Some a' \<and>
        json_is_array (failing_chat bad ref_chat_env) a' \<and>
        (json_array_get (failing_chat bad ref_chat_env) a' = json_array_get (failing_chat bad ref_chat_env) a \<or>
         (\<exists>x. v = Some x \<and> json_array_get (failing_chat bad ref_chat_env) a' =
           (json_array_get (failing_chat bad ref_chat_env) a)(n \<mapsto> x)))"
      by (cases v) (simp_all add: instance_defs ref_array_append_def ref_array_get_append)
  qed
  ultimately show "chat_jansson_failing (failing_chat bad ref_chat_env) (\<lambda>n. n \<in> bad)"
    by (simp add: chat_jansson_failing_def chat_jansson_def)
qed

section \<open>Property\<close>

text \<open>C14. The chat server under every pattern of failures of its allocation requests, in the library (\<open>oom\<close>) and in the
  calls of jansson that make and fill values or read texts (\<open>B\<close>): every run, with its history of events and of the requests
  made in each of them, is a run of the room with the service that is left. Members come, are renamed and go as in any run of the
  room; a text that arrives is passed over only if \<open>json_loadb\<close> gives no request and no chat message for it in this very
  call. In an event in which no request fails, everybody is sent what the room says, as the dump of a value with all its
  parts and nothing else in it. In the others a text may be missing or lack parts, but nobody is sent anything else, and
  what waits is written in order.\<close>

theorem chat_room_under_failure:
  fixes E :: "('j, 'e) chat_env_scheme" and w :: "'a chat_heap_scheme"
  assumes E: "chat_jansson_failing E B" and fresh: "fresh_server chat_protocol lp w0"
    and empty: "chatters w0 = []" "lws_log w0 = []"
    and run: "steps E (chat_user E) lp w0 es w" and es: "list_all loop_event es"
  shows "\<exists>P. models E w P \<and>
    map fst (history E (chat_user E) lp es w0) = es \<and>
    room_story (service E (\<lambda>n. oom w0 n \<or> B n)) E (history E (chat_user E) lp es w0) empty_room_state
      (members_of (chatters w), P, wsi_of w, \<lambda>s. written s (lws_log w))"
  using room_service.room_refinement [OF chat_jansson_failing.lossy_service [OF E] fresh empty refl run es]
    history_events [OF run] by blast

text \<open>The response that confirms the name loses its result, and the block of the announcement is not allocated.\<close>

theorem chat_room_under_failure_witness:
  "\<exists>w P. steps (failing_chat {7} ref_chat_env) (chat_user (failing_chat {7} ref_chat_env)) example_lws (empty_room {20})
      [Established 0 5, Received 0 (print_json (name_request ''ann''))] w \<and> models (failing_chat {7} ref_chat_env) w P \<and>
    room_story (service (failing_chat {7} ref_chat_env) (\<lambda>n. n = 20 \<or> n = 7)) (failing_chat {7} ref_chat_env)
      (history (failing_chat {7} ref_chat_env) (chat_user (failing_chat {7} ref_chat_env)) example_lws
        [Established 0 5, Received 0 (print_json (name_request ''ann''))] (empty_room {20}))
      empty_room_state (members_of (chatters w), P, wsi_of w, \<lambda>s. written s (lws_log w))"
proof -
  have empty: "chatters (empty_room {20}) = []" "lws_log (empty_room {20}) = []" by (simp_all add: empty_room_def)
  have es: "list_all loop_event [Established 0 5, Received 0 (print_json (name_request ''ann'')) :: json event]" by simp
  have bad: "(\<lambda>n. oom (empty_room {20}) n \<or> n \<in> {7}) = (\<lambda>n. n = 20 \<or> n = 7)" by (simp add: empty_room_def fun_eq_iff)
  from chat_run_possible [OF failing_room.chat_jansson_axioms, of "{7}" "{20}" "print_json (name_request ''ann'')"] obtain w
    where run: "steps (failing_chat {7} ref_chat_env) (chat_user (failing_chat {7} ref_chat_env)) example_lws (empty_room {20})
      [Established 0 5, Received 0 (print_json (name_request ''ann''))] w" by blast
  from chat_room_under_failure [OF failing_room.chat_jansson_failing_axioms empty_room_fresh empty run es] run
  show ?thesis unfolding bad by blast
qed

end
