(* ===== verification/Jrpc_Chat_World.thy ===== *)
theory Jrpc_Chat_World
  imports Jrpc_Chat_Main Jrpc_Chat_Lossy
begin

text \<open>
  The whole program: \<open>main\<close> of the chat server, the library behind it and libwebsockets, from the first
  allocation to the exit code. What is assumed of libwebsockets is only what it may play (\<open>plays_events\<close>): each of its
  functions delivers some events of the event loop, in whatever order, to the JSON-RPC protocol that it was given,
  and destroying the context closes the sessions that are open. That the program
  returns, that no call is undefined and that everything is released are then theorems.
  To say what the program has done with the events, libwebsockets may also note in an auxiliary part of the state
  what it has delivered (\<open>plays_noted\<close>); the program never looks at this trace.
\<close>

section \<open>Events played by libwebsockets\<close>

text \<open>A list of events that libwebsockets wants to deliver; one that is not enabled does not take place.\<close>

fun play ::
  "('j, 'e) env_scheme \<Rightarrow> ('j, 'a pheap_scheme) user_code \<Rightarrow> lws_protocols \<Rightarrow> 'j event list
     \<Rightarrow> 'a pheap_scheme \<Rightarrow> 'a pheap_scheme option" where
  "play E U lp [] w = Some w"
| "play E U lp (e # es) w =
     (if enabled lp e w then do {
        w' \<leftarrow> perform E U lp e w;
        play E U lp es w'
      }
      else play E U lp es w)"

text \<open>The protocol that libwebsockets serves: of those offered, the one with the library's callback.\<close>

definition served_protocol :: "addr \<Rightarrow> 'a sheap_scheme \<Rightarrow> lws_protocols option" where
  "served_protocol a w = do {
     s \<leftarrow> servers w a;
     info \<leftarrow> s_info s;
     ps \<leftarrow> s_ws_protocols s;
     find (\<lambda>p. lp_callback p = Some Jrpc_protocol_callback) (offered info ps)
   }"

definition serve ::
  "('j, 'e) chat_env_scheme \<Rightarrow> addr \<Rightarrow> 'j event list \<Rightarrow> 'a chat_heap_scheme \<Rightarrow> 'a chat_heap_scheme option" where
  "serve E a es w =
     (case served_protocol a w of None \<Rightarrow> Some w | Some lp \<Rightarrow> play E (chat_user E) lp es w)"

fun opens :: "'j event \<Rightarrow> bool" where
  "opens (Established c s) = True"
| "opens _ = False"

text \<open>While the context is created there is no session yet. Before the context is destroyed every session
  that is open is closed, and none is opened any more; libwebsockets may then also close the descriptor that the
  library has given to it with \<open>lws_adopt_descriptor_vhost\<close>.\<close>

definition close_adopted :: "bool \<Rightarrow> addr \<Rightarrow> 'a pheap_scheme \<Rightarrow> 'a pheap_scheme" where
  "close_adopted adopted a w =
     (case Option.bind (protos w a) (\<lambda>p. fst (p_fd p)) of
        None \<Rightarrow> w
      | Some fd \<Rightarrow> if adopted then sys_close fd w else w)"

definition plays_events :: "('j, 'e) chat_env_scheme \<Rightarrow> addr \<Rightarrow> ('a chat_heap_scheme) lws_api \<Rightarrow> bool" where
  "plays_events E a L \<longleftrightarrow>
     (\<forall>w. \<exists>ctx es. list_all internal es \<and>
        lws_create_context L a w = map_option (Pair ctx) (serve E a es w)) \<and>
     (\<forall>ctx t w. \<exists>es. list_all loop_event es \<and> lws_service L ctx t w = serve E a es w) \<and>
     (\<forall>ctx w. \<exists>es cs adopted. list_all (\<lambda>e. loop_event e \<and> \<not> opens e) es \<and>
        (finite (dom (conns w)) \<longrightarrow> set cs = dom (conns w)) \<and>
        lws_context_destroy L ctx w = map_option (close_adopted adopted a) (serve E a (es @ map Closed cs) w))"

section \<open>What has been delivered\<close>

text \<open>The events of a list that libwebsockets really delivers in the state \<open>w\<close>, each with the numbers of the allocation requests
  made in it, and a delivery that is also noted in the auxiliary part of the state, which is nothing to the program.\<close>

definition served_history ::
  "('j, 'e) chat_env_scheme \<Rightarrow> addr \<Rightarrow> 'j event list \<Rightarrow> 'a chat_heap_scheme \<Rightarrow> 'j history" where
  "served_history E a es w =
     (case served_protocol a w of None \<Rightarrow> [] | Some lp \<Rightarrow> history E (chat_user E) lp es w)"

abbreviation noting :: "('a \<Rightarrow> 'a) \<Rightarrow> 'a chat_heap_scheme \<Rightarrow> 'a chat_heap_scheme" where
  "noting \<equiv> chat_heap.more_update"

definition serve_noted ::
  "('j history \<Rightarrow> 'a \<Rightarrow> 'a) \<Rightarrow> ('j, 'e) chat_env_scheme \<Rightarrow> addr \<Rightarrow> 'j event list \<Rightarrow> 'a chat_heap_scheme
     \<Rightarrow> 'a chat_heap_scheme option" where
  "serve_noted n E a es w = map_option (noting (n (served_history E a es w))) (serve E a es w)"

definition plays_noted ::
  "('j history \<Rightarrow> 'a \<Rightarrow> 'a) \<Rightarrow> ('j, 'e) chat_env_scheme \<Rightarrow> addr \<Rightarrow> ('a chat_heap_scheme) lws_api \<Rightarrow> bool" where
  "plays_noted n E a L \<longleftrightarrow>
     (\<forall>w. \<exists>ctx es. list_all internal es \<and>
        lws_create_context L a w = map_option (Pair ctx) (serve_noted n E a es w)) \<and>
     (\<forall>ctx t w. \<exists>es. list_all loop_event es \<and> lws_service L ctx t w = serve_noted n E a es w) \<and>
     (\<forall>ctx w. \<exists>es cs adopted. list_all (\<lambda>e. loop_event e \<and> \<not> opens e) es \<and>
        (finite (dom (conns w)) \<longrightarrow> set cs = dom (conns w)) \<and>
        lws_context_destroy L ctx w = map_option (close_adopted adopted a) (serve_noted n E a (es @ map Closed cs) w))"

text \<open>Nothing is noted, or the trace of all that was delivered since the start.\<close>

definition forget :: "'j history \<Rightarrow> 'a \<Rightarrow> 'a" where
  "forget h m = m"

definition remember :: "'j history \<Rightarrow> 'j history \<Rightarrow> 'j history" where
  "remember h t = t @ h"

abbreviation trace :: "('j history) chat_heap_scheme \<Rightarrow> 'j history" where
  "trace \<equiv> chat_heap.more"

lemma note_forget: "noting (forget h) w = w"
  by (cases w) (simp add: forget_def)

lemma serve_forget: "serve_noted forget E a es w = serve E a es w"
  by (cases "serve E a es w") (simp_all add: serve_noted_def note_forget)

lemma plays_forget: "plays_noted forget E a L = plays_events E a L"
  by (simp add: plays_noted_def plays_events_def serve_forget)

context wired_handlers
begin

text \<open>What is played is a run of the loop.\<close>

lemma play_run:
  assumes "sound E good I lp w P" and "finite (dom P)"
  shows "\<exists>w' es' P'. play E U lp es w = Some w' \<and> steps E U lp w es' w' \<and> set es' \<subseteq> set es \<and>
    history E U lp es w = history E U lp es' w \<and> sound E good I lp w' P' \<and> finite (dom P') \<and>
    (list_all (\<lambda>e. \<not> opens e) es \<longrightarrow> dom P' \<subseteq> dom P - {c. Closed c \<in> set es})"
  using assms
proof (induction es arbitrary: w P)
  case Nil
  then show ?case by (auto intro: exI [of _ "[]"])
next
  case (Cons e es)
  show ?case
  proof (cases "enabled lp e w")
    case True
    from event_ok [OF Cons.prems(1) True] obtain w1 P1
      where 1: "perform E U lp e w = Some w1" "sound E good I lp w1 P1" and dom: "dom P1 = open_after e (dom P)"
      by blast
    have "finite (dom P1)" using Cons.prems(2) unfolding dom by (cases e) auto
    from Cons.IH [OF 1(2) this] obtain w' es' P'
      where 2: "play E U lp es w1 = Some w'" "steps E U lp w1 es' w'" "set es' \<subseteq> set es"
        "history E U lp es w1 = history E U lp es' w1" "sound E good I lp w' P'" "finite (dom P')"
        "list_all (\<lambda>e. \<not> opens e) es \<longrightarrow> dom P' \<subseteq> dom P1 - {c. Closed c \<in> set es}" by blast
    have "dom P' \<subseteq> dom P - {c. Closed c \<in> set (e # es)}" if "list_all (\<lambda>e. \<not> opens e) (e # es)"
      using 2(7) that dom by (cases e) auto
    with True 1(1) 2 steps_Cons [OF True 1(1) 2(2)] show ?thesis
      by (intro exI [of _ w'] exI [of _ "e # es'"] exI [of _ P']) auto
  next
    case False
    from Cons.IH [OF Cons.prems] obtain w' es' P'
      where 2: "play E U lp es w = Some w'" "steps E U lp w es' w'" "set es' \<subseteq> set es"
        "history E U lp es w = history E U lp es' w" "sound E good I lp w' P'" "finite (dom P')"
        "list_all (\<lambda>e. \<not> opens e) es \<longrightarrow> dom P' \<subseteq> dom P - {c. Closed c \<in> set es}" by blast
    have "dom P' \<subseteq> dom P - {c. Closed c \<in> set (e # es)}" if "list_all (\<lambda>e. \<not> opens e) (e # es)"
    proof -
      have "dom P' \<subseteq> dom P - {c. Closed c \<in> set es}" using 2(7) that by simp
      moreover have "e = Closed c \<Longrightarrow> c \<notin> dom P" for c using False sound_dom [OF Cons.prems(1)] by simp
      ultimately show ?thesis by auto
    qed
    with False 2 show ?thesis
      by (intro exI [of _ w'] exI [of _ es'] exI [of _ P']) auto
  qed
qed

end

lemma sound_user: "lp_user lp' = lp_user lp \<Longrightarrow> sound E good I lp' w P = sound E good I lp w P"
  by (simp add: sound_def)

definition own_protocols :: "addr \<Rightarrow> jrpc_server \<Rightarrow> bool" where
  "own_protocols a s \<longleftrightarrow> (\<forall>ps. s_ws_protocols s = Some ps \<longrightarrow> (\<exists>s'. ps = server_protocols a s'))"

lemma served_user:
  assumes "served_protocol a w = Some lp" and "servers w a = Some s" and "own_protocols a s"
  shows "lp_user lp = Some a"
proof -
  from assms obtain info s' where "find (\<lambda>p. lp_callback p = Some Jrpc_protocol_callback)
      (offered info (server_protocols a s')) = Some lp"
    by (auto simp: served_protocol_def own_protocols_def Option.bind_eq_Some_conv)
  then have lp: "lp \<in> set (offered info (server_protocols a s'))" "lp_callback lp = Some Jrpc_protocol_callback"
    by (auto simp: find_Some_iff)
  from lp(1) have "lp \<in> set (server_protocols a s')"
    unfolding offered_def by (meson in_set_dropD set_takeWhileD)
  with lp(2) show ?thesis
    by (auto simp: server_protocols_eq http_protocol_def zero_lws_protocols_def)
qed

section \<open>The server while it is served\<close>

text \<open>\<open>X\<close> is what an observer says of the states of the program: a predicate that runs of the loop keep when what was
  delivered is noted with \<open>n\<close>, and that has nothing to do with the server object and the shutdown flag.\<close>

locale observer = chat_jansson E for E :: "('j, 'e) chat_env_scheme" +
  fixes a :: addr and n :: "'j history \<Rightarrow> 'a \<Rightarrow> 'a" and X :: "'a chat_heap_scheme \<Rightarrow> bool"
  assumes X_run: "steps E (chat_user E) lp w es w' \<Longrightarrow> sound E chat_protocol chat_inv lp w P \<Longrightarrow>
      lp_user lp = Some a \<Longrightarrow> list_all loop_event es \<Longrightarrow> X w \<Longrightarrow>
      X (noting (n (history E (chat_user E) lp es w)) w')"
    and X_servers: "X w \<Longrightarrow> X (w\<lparr>servers := ss\<rparr>)"
    and X_flag: "X w \<Longrightarrow> X (w\<lparr>is_shutdown_requested := b\<rparr>)"

definition user_protocol :: "addr \<Rightarrow> lws_protocols" where
  "user_protocol a = zero_lws_protocols\<lparr>lp_user := Some a\<rparr>"

text \<open>The state \<open>w\<close> of a program whose server at \<open>a\<close> was \<open>w0\<close> after its creation: the sessions are in order, the
  server is still its own, no reference or descriptor has been lost, and without a protocol
  served there are no sessions.\<close>

definition serving ::
  "('j, 'e) chat_env_scheme \<Rightarrow> addr \<Rightarrow> ('a chat_heap_scheme \<Rightarrow> bool) \<Rightarrow> 'a chat_heap_scheme
     \<Rightarrow> 'a chat_heap_scheme \<Rightarrow> jrpc_server \<Rightarrow> mailbox \<Rightarrow> bool" where
  "serving E a X w0 w s P \<longleftrightarrow>
     sound E chat_protocol chat_inv (user_protocol a) w P \<and> finite (dom P) \<and> servers w a = Some s \<and>
     (served_protocol a w = None \<longrightarrow> P = Map.empty) \<and> keeps_server w0 a w \<and>
     json_refs w = json_refs w0 \<and> dom (sockets w) = dom (sockets w0) \<and> X w"

text \<open>Before the context exists there are no sessions either.\<close>

definition hosted ::
  "('j, 'e) chat_env_scheme \<Rightarrow> addr \<Rightarrow> ('a chat_heap_scheme \<Rightarrow> bool) \<Rightarrow> 'a chat_heap_scheme
     \<Rightarrow> 'a chat_heap_scheme \<Rightarrow> bool" where
  "hosted E a X w0 w \<longleftrightarrow>
     (\<exists>s P. serving E a X w0 w s P \<and> (s_context s = NULL \<longrightarrow> P = Map.empty) \<and>
        (s_context s \<noteq> NULL \<longrightarrow> own_protocols a s))"

lemma loop_event_taken: "list_all loop_event es \<Longrightarrow> sum_list (map taken es) = 0"
proof (induction es)
  case (Cons e es)
  then show ?case by (cases e) auto
qed simp

lemma internal_facts: "internal e \<Longrightarrow> loop_event e \<and> \<not> opens e"
  by (cases e) auto

lemma keeps_run:
  assumes "keeps_server w0 a w" and "chat_keeps d w w'"
  shows "keeps_server w0 a w'"
proof -
  have ok: "server_ok w' a"
    using assms unfolding keeps_server_def chat_keeps_def untouched_def server_ok_def strings_ok_def
    by (metis (no_types, lifting) less_le_trans)
  have "servers w' = servers w" "protos w' = protos w" "cstrs w' = cstrs w"
    using assms(2) by (simp_all add: chat_keeps_def untouched_def)
  with assms(1) ok show ?thesis by (simp add: keeps_server_def foreign_def)
qed

lemma served_servers: "servers w' = servers w \<Longrightarrow> served_protocol a w' = served_protocol a w"
  by (simp add: served_protocol_def)

lemma sound_other:
  fixes w :: "'a chat_heap_scheme"
  assumes "sound E chat_protocol chat_inv lp w P"
  shows "sound E chat_protocol chat_inv lp (w\<lparr>servers := ss\<rparr>) P"
    and "sound E chat_protocol chat_inv lp (w\<lparr>is_shutdown_requested := b\<rparr>) P"
    and "sound E chat_protocol chat_inv lp (noting f w) P"
proof -
  have "inv E (w\<lparr>servers := ss\<rparr>) P" "inv E (w\<lparr>is_shutdown_requested := b\<rparr>) P" "inv E (noting f w) P"
    using assms by (auto simp: sound_def elim: inv_frame)
  with assms show "sound E chat_protocol chat_inv lp (w\<lparr>servers := ss\<rparr>) P"
    and "sound E chat_protocol chat_inv lp (w\<lparr>is_shutdown_requested := b\<rparr>) P"
    and "sound E chat_protocol chat_inv lp (noting f w) P"
    by (simp_all add: sound_def configured_def chat_inv_def)
qed

lemma served_noted:
  assumes "serving E a Y w0 w s P" and "X (noting f w)"
  shows "serving E a X w0 (noting f w) s P"
proof -
  have "keeps_server w0 a (noting f w)"
    using assms(1) by (auto simp: serving_def intro: keeps_server_eq)
  with assms sound_other(3) [of E "user_protocol a" w P f] show ?thesis
    by (simp add: serving_def served_servers [of "noting f w" w])
qed

context observer
begin

lemma serve_ok:
  assumes w: "serving E a X w0 w s P" and own: "own_protocols a s" and es: "list_all loop_event es"
  shows "\<exists>w' P'. serve_noted n E a es w = Some w' \<and> serving E a X w0 w' s P' \<and>
    is_shutdown_requested w' = is_shutdown_requested w \<and>
    (list_all (\<lambda>e. \<not> opens e) es \<longrightarrow> dom P' \<subseteq> dom P - {c. Closed c \<in> set es})"
proof (cases "served_protocol a w")
  case None
  from w have s: "sound E chat_protocol chat_inv (user_protocol a) w P" and X: "X w" and P: "P = Map.empty"
    using None by (auto simp: serving_def)
  have "X (noting (n []) w)"
    using X_run [OF steps_Nil s _ _ X] by (simp add: user_protocol_def)
  with w have "serving E a X w0 (noting (n []) w) s P" by (rule served_noted)
  with None P show ?thesis by (auto simp: serve_noted_def serve_def served_history_def)
next
  case (Some lp)
  with w have user: "lp_user lp = Some a" using own by (auto simp: serving_def intro: served_user)
  have same: "sound E chat_protocol chat_inv (user_protocol a) x Q = sound E chat_protocol chat_inv lp x Q"
    for x :: "'c chat_heap_scheme" and Q
    by (rule sound_user) (simp add: user_protocol_def user)
  from w have s: "sound E chat_protocol chat_inv lp w P" and fin: "finite (dom P)" and X: "X w"
    by (simp_all add: serving_def same)
  from wired_handlers.play_run [OF chat_handlers s fin, of es] obtain w' es' P'
    where 1: "play E (chat_user E) lp es w = Some w'" "steps E (chat_user E) lp w es' w'" "set es' \<subseteq> set es"
      "history E (chat_user E) lp es w = history E (chat_user E) lp es' w"
      "sound E chat_protocol chat_inv lp w' P'" "finite (dom P')"
      "list_all (\<lambda>e. \<not> opens e) es \<longrightarrow> dom P' \<subseteq> dom P - {c. Closed c \<in> set es}"
    by blast
  let ?f = "n (served_history E a es w)"
  have es': "list_all loop_event es'" using 1(3) es by (auto simp: list_all_iff)
  from chat_run_keeps [OF 1(2) s] have keeps: "chat_keeps 0 w w'" by (simp add: loop_event_taken [OF es'])
  have noted: "X (noting ?f w')"
    using X_run [OF 1(2) s user es' X] Some 1(4) by (simp add: served_history_def)
  have "serving E a (\<lambda>_. True) w0 w' s P'"
    using w 1(5,6) keeps keeps_run [OF _ keeps, of w0 a] Some served_servers [of w' w a]
    by (simp add: serving_def same chat_keeps_def untouched_def)
  from served_noted [of _ a _ _ _ _ _ X, OF this noted] have "serving E a X w0 (noting ?f w') s P'" .
  with 1(1,7) Some keeps show ?thesis by (auto simp: serve_noted_def serve_def chat_keeps_def)
qed

lemma serving_fields:
  assumes w: "serving E a X w0 w s P" and "strs s' = strs s" and "P = Map.empty"
  shows "serving E a X w0 (w\<lparr>servers := (servers w)(a \<mapsto> s')\<rparr>) s' P"
proof -
  let ?w = "w\<lparr>servers := (servers w)(a \<mapsto> s')\<rparr>"
  have s: "servers w a = Some s" "keeps_server w0 a w" using w by (simp_all add: serving_def)
  then have "leaves w a ?w" using assms(2) by (intro leaves_fields) (auto simp: keeps_server_def)
  with s(2) have "keeps_server w0 a ?w" unfolding leaves_def by (blast intro: keeps_server_trans)
  then show ?thesis
    using w assms(3) sound_other(1) [of E "user_protocol a" w P "(servers w)(a \<mapsto> s')"] X_servers [of w]
    by (simp add: serving_def)
qed

lemma run_hosted:
  assumes L: "plays_noted n E a L" and w: "hosted E a X w0 w" and flag: "\<not> is_shutdown_requested w"
  shows "\<exists>w'. jrpc_server_run L (Some a) t w = Some w' \<and> hosted E a X w0 w' \<and> \<not> is_shutdown_requested w'"
proof -
  from w obtain s P where s: "serving E a X w0 w s P" and none: "s_context s = NULL \<longrightarrow> P = Map.empty"
    by (auto simp: hosted_def)
  then have s_at: "servers w a = Some s" by (simp add: serving_def)
  show ?thesis
  proof (rule run_invariant [OF s_at])
    assume "s_context s = NULL"
    with none have P: "P = Map.empty" by blast
    let ?s = "s\<lparr>s_ws_protocols := Some (server_protocols a s), s_mount := Some (server_mount s), s_info := Some (server_info s)\<rparr>"
    have 1: "serving E a X w0 (prepared a s w) ?s P"
      unfolding prepared_def by (rule serving_fields [OF s]) (simp_all add: strs_def P)
    from L obtain ctx es where es: "list_all internal es"
      and create: "lws_create_context L a (prepared a s w) = map_option (Pair ctx) (serve_noted n E a es (prepared a s w))"
      unfolding plays_noted_def by blast
    have es': "list_all loop_event es" "list_all (\<lambda>e. \<not> opens e) es"
      using es internal_facts by (auto simp: list_all_iff)
    have own: "own_protocols a ?s" by (auto simp: own_protocols_def)
    from serve_ok [OF 1 own es'(1)] es'(2) P obtain w1 P1
      where w1: "serve_noted n E a es (prepared a s w) = Some w1" "serving E a X w0 w1 ?s P1" "dom P1 = {}"
        "is_shutdown_requested w1 = is_shutdown_requested (prepared a s w)"
      by auto
    have P1: "P1 = Map.empty" using w1(3) by simp
    have "serving E a X w0 (with_context a ?s ctx w1) (?s\<lparr>s_context := ctx\<rparr>) P1"
      unfolding with_context_def by (rule serving_fields [OF w1(2)]) (simp_all add: strs_def P1)
    moreover have "own_protocols a (?s\<lparr>s_context := ctx\<rparr>)" using own by (simp add: own_protocols_def)
    ultimately have "hosted E a X w0 (with_context a ?s ctx w1)" using P1 unfolding hosted_def by blast
    moreover have "servers w1 a = Some ?s" using w1(2) by (simp add: serving_def)
    moreover have "\<not> is_shutdown_requested (with_context a ?s ctx w1)"
      using flag w1(4) by (simp add: with_context_def prepared_def)
    ultimately show "\<exists>ctx w1 s1. lws_create_context L a (prepared a s w) = Some (ctx, w1) \<and> servers w1 a = Some s1 \<and>
        hosted E a X w0 (with_context a s1 ctx w1) \<and> \<not> is_shutdown_requested (with_context a s1 ctx w1)"
      using create w1(1) by auto
  next
    show "hosted E a X w0 w \<and> \<not> is_shutdown_requested w" using w flag by blast
  next
    fix x sx ctx
    assume x: "hosted E a X w0 x \<and> \<not> is_shutdown_requested x" and sx: "servers x a = Some sx" "s_context sx = Some ctx"
    then obtain P where P: "serving E a X w0 x sx P" and own: "own_protocols a sx"
      by (auto simp: hosted_def serving_def)
    from L obtain es where "list_all loop_event es" and service: "lws_service L ctx t x = serve_noted n E a es x"
      unfolding plays_noted_def by blast
    with serve_ok [OF P own] obtain w' P' where "serve_noted n E a es x = Some w'" "serving E a X w0 w' sx P'"
      "is_shutdown_requested w' = is_shutdown_requested x" by blast
    moreover from this(2) sx(2) own have "hosted E a X w0 w'" unfolding hosted_def by force
    ultimately show "\<exists>w'. lws_service L ctx t x = Some w' \<and> hosted E a X w0 w' \<and> \<not> is_shutdown_requested w'"
      using x service by simp
  qed
qed

text \<open>\<open>lws_context_destroy\<close> closes all sessions.\<close>

lemma destroy_hosted:
  assumes L: "plays_noted n E a L" and w: "hosted E a X w0 w" and s: "servers w a = Some s"
  shows "\<exists>w' s' b. serving E a X w0 w' s' Map.empty \<and>
    (case s_context s of NULL \<Rightarrow> close_adopted b a w' = w
     | Some ctx \<Rightarrow> lws_context_destroy L ctx w = Some (close_adopted b a w'))"
proof -
  from w s obtain P where P: "serving E a X w0 w s P" and none: "s_context s = NULL \<longrightarrow> P = Map.empty"
    and own: "s_context s \<noteq> NULL \<longrightarrow> own_protocols a s"
    by (auto simp: hosted_def serving_def)
  show ?thesis
  proof (cases "s_context s")
    case None
    moreover have "close_adopted False a w = w" by (simp add: close_adopted_def split: option.split)
    ultimately show ?thesis using P none by (intro exI [of _ w] exI [of _ s] exI [of _ False]) auto
  next
    case (Some ctx)
    from P have fin: "finite (dom P)" and s': "sound E chat_protocol chat_inv (user_protocol a) w P"
      by (simp_all add: serving_def)
    note dom = sound_dom [OF s']
    from L obtain es cs b where es: "list_all (\<lambda>e. loop_event e \<and> \<not> opens e) es"
      and cs: "finite (dom (conns w)) \<longrightarrow> set cs = dom (conns w)"
      and destroy: "lws_context_destroy L ctx w = map_option (close_adopted b a) (serve_noted n E a (es @ map Closed cs) w)"
      unfolding plays_noted_def by blast
    have all: "list_all loop_event (es @ map Closed cs)" "list_all (\<lambda>e. \<not> opens e) (es @ map Closed cs)"
      using es by (auto simp: list_all_iff)
    have "own_protocols a s" using own Some by simp
    from serve_ok [OF P this all(1)] all(2) obtain w' P' where 1: "serve_noted n E a (es @ map Closed cs) w = Some w'"
      "serving E a X w0 w' s P'" "dom P' \<subseteq> dom P - {c. Closed c \<in> set (es @ map Closed cs)}" by blast
    have "dom P' = {}" using 1(3) cs fin unfolding dom by auto
    then have "P' = Map.empty" by simp
    with 1(1,2) Some destroy show ?thesis by auto
  qed
qed

lemma hosted_shutdown:
  assumes "hosted E a X w0 w"
  shows "hosted E a X w0 (on_shutdown_requested signal_id w)"
proof -
  from assms obtain s P where s: "serving E a X w0 w s P" and rest: "s_context s = NULL \<longrightarrow> P = Map.empty"
    "s_context s \<noteq> NULL \<longrightarrow> own_protocols a s" unfolding hosted_def by (elim exE conjE)
  from s have "keeps_server w0 a (on_shutdown_requested signal_id w)"
    by (auto simp: serving_def on_shutdown_requested_def intro: keeps_server_eq)
  with s sound_other(2) [of E "user_protocol a" w P True] X_flag [of w True] have "serving E a X w0 (on_shutdown_requested signal_id w) s P"
    by (simp add: serving_def on_shutdown_requested_def served_protocol_def)
  with rest show ?thesis unfolding hosted_def by (intro exI [of _ s] exI [of _ P] conjI)
qed

text \<open>The program from its first allocation to its end.\<close>

lemma program_spec:
  fixes w :: "'a chat_heap_scheme"
  assumes w: "fresh_store w" and oom: "\<not> oom w (clock w)" "\<not> oom w (Suc (clock w))" and a: "a = clock w"
    and empty: "conns w = Map.empty" "blocks w = Map.empty" "chatters w = []"
    and os: "yields G g os" "settings os = Some es" "list_all is_setting os"
    and L: "plays_noted n E a L" and sigint: "sigint k" "\<forall>j < k. \<not> sigint j"
    and X: "\<forall>x. fresh_server chat_protocol (user_protocol a) x \<and> chatters x = [] \<and> lws_log x = lws_log w \<and>
      oom x = oom w \<and> chat_heap.more x = chat_heap.more w \<longrightarrow> X x"
  shows "\<exists>w1 w2 w' x. main_setup G g w = Some (Some a, EXIT_SUCCESS, w1) \<and>
    repeat_call k (jrpc_server_run L (Some a) 1000) (w1\<lparr>is_shutdown_requested := False\<rparr>) = Some w2 \<and>
    jrpc_server_dispose L (Some a) (on_shutdown_requested SIGINT w2) = Some w' \<and>
    chat_main L G sigint g w = Some (EXIT_SUCCESS, w') \<and> servers w' = servers w \<and> protos w' = protos w \<and>
    cstrs w' = cstrs w \<and> dom (sockets w') = dom (sockets w) \<and> json_refs w' = json_refs w \<and>
    conns w' = Map.empty \<and> blocks w' = Map.empty \<and> chatters w' = [] \<and>
    X x \<and> conns x = Map.empty \<and> chatters x = [] \<and> lws_log x = lws_log w' \<and> chat_heap.more x = chat_heap.more w'"
proof -
  from setup_spec [OF w oom os(1,2), folded a] obtain w1 w2 s2
    where create: "jrpc_server_create w = Some (Some a, w1)" and call: "main_setup G g w = Some (Some a, outcome os w2)"
      and more: "sheap.more w2 = sheap.more w" and keeps: "keeps_server w1 a (snd (outcome os w2))"
      and s2: "servers w2 a = Some s2" "s_context s2 = NULL"
      and p2: "protos w2 a = Some (fold apply_proto (chat_calls @ es) (created_protocol a (next_fd w)))"
      and rest: "conns w2 = conns w" "blocks w2 = blocks w" "json_refs w2 = json_refs w" "lws_log w2 = lws_log w"
        "oom w2 = oom w" "dom (sockets w2) = {next_fd w, Suc (next_fd w)} \<union> dom (sockets w)"
    by blast
  from server_create_spec [OF w oom, folded a] create
  have w1: "json_refs w1 = json_refs w" "dom (sockets w1) = {next_fd w, Suc (next_fd w)} \<union> dom (sockets w)"
    and p1: "protos w1 a = Some (created_protocol a (next_fd w))" by auto
  let ?w2 = "snd (outcome os w2)"
  let ?w3 = "?w2\<lparr>is_shutdown_requested := False\<rparr>"
  have ok: "outcome os w2 = (EXIT_SUCCESS, ?w2)"
    using outcome_code [of os w2] os(3) by (cases "outcome os w2") simp
  have fresh: "fresh_server chat_protocol (user_protocol a) ?w2"
    by (rule setup_fresh [OF os(2) p2]) (simp_all add: rest empty user_protocol_def)
  have table: "chatters ?w2 = []" and more2: "chat_heap.more ?w2 = chat_heap.more w"
    using more empty(3) by (cases w; cases w2; simp)+
  have inv: "chat_inv ?w2 {}" by (simp only: chat_inv_def table table_ok_def names_unique_def) simp
  from wired_handlers.fresh_sound [OF chat_handlers fresh inv] sound_other(2)
  have "sound E chat_protocol chat_inv (user_protocol a) ?w3 Map.empty" by blast
  moreover have "X ?w3" using X fresh table more2 rest by (intro X_flag) simp
  moreover have "keeps_server w1 a ?w3" using keeps by (rule keeps_server_eq) simp_all
  ultimately have "hosted E a X w1 ?w3"
    using s2 rest w1 by (auto simp: hosted_def serving_def)
  then have "hosted E a X w1 ?w3 \<and> \<not> is_shutdown_requested ?w3" by simp
  from serve_loop_invariant [where J = "\<lambda>x. hosted E a X w1 x \<and> \<not> is_shutdown_requested x", OF _ _ this, of L "Some a" k sigint 0]
    run_hosted [OF L] sigint
  obtain w4 where runs: "repeat_call k (jrpc_server_run L (Some a) 1000) ?w3 = Some w4" and w4: "hosted E a X w1 w4"
      and serve: "serve_loop L sigint (Some a) 0 ?w3 = Some (on_shutdown_requested SIGINT w4)"
    by auto
  let ?w5 = "on_shutdown_requested SIGINT w4"
  have w5: "hosted E a X w1 ?w5" using w4 by (rule hosted_shutdown)
  then obtain s5 where s5: "servers ?w5 a = Some s5" by (auto simp: hosted_def serving_def)
  from destroy_hosted [OF L w5 s5] obtain w6 s6 b
    where destroy: "case s_context s5 of NULL \<Rightarrow> close_adopted b a w6 = ?w5
        | Some ctx \<Rightarrow> lws_context_destroy L ctx ?w5 = Some (close_adopted b a w6)"
      and w6: "serving E a X w1 w6 s6 Map.empty" by blast
  let ?w7 = "close_adopted b a w6"
  from w6 have keeps6: "keeps_server w1 a w6" and sound6: "sound E chat_protocol chat_inv (user_protocol a) w6 Map.empty"
    by (simp_all add: serving_def)
  from sound_dom [OF sound6] have conns6: "conns w6 = Map.empty" by auto
  have blocks6: "blocks w6 = Map.empty" using sound6 conns6 by (rule sound_no_leak)
  have chatters6: "chatters w6 = []" using sound6 by (simp add: sound_def chat_inv_def table_ok_def)
  have w7: "servers ?w7 = servers w6" "protos ?w7 = protos w6" "cstrs ?w7 = cstrs w6" "clock ?w7 = clock w6"
    "conns ?w7 = conns w6" "blocks ?w7 = blocks w6" "lws_log ?w7 = lws_log w6" "json_refs ?w7 = json_refs w6"
    "sheap.more ?w7 = sheap.more w6"
    by (simp_all add: close_adopted_def sys_close_def split: option.split)
  have keeps7: "keeps_server w1 a ?w7" using keeps6 by (rule keeps_server_eq) (simp_all add: w7)
  from created_dispose [OF w oom create keeps7 s5, of L] destroy obtain w'
    where dispose: "jrpc_server_dispose L (Some a) ?w5 = Some w'"
      and w': "servers w' = servers w" "protos w' = protos w" "cstrs w' = cstrs w"
        "sockets w' = (sockets ?w7)(next_fd w := None, Suc (next_fd w) := None)" "conns w' = conns ?w7"
        "blocks w' = blocks ?w7" "lws_log w' = lws_log ?w7" "json_refs w' = json_refs ?w7" "sheap.more w' = sheap.more ?w7"
    by (auto split: option.splits)
  have "Option.bind (protos w6 a) (\<lambda>p. fst (p_fd p)) = Some (next_fd w)"
    using keeps6 p1 by (auto simp: keeps_server_def server_ok_def created_protocol_def)
  then have sockets7: "(sockets ?w7)(next_fd w := None, Suc (next_fd w) := None) = (sockets w6)(next_fd w := None, Suc (next_fd w) := None)"
    by (simp add: close_adopted_def sys_close_def)
  have "dom (sockets w') = dom (sockets w)"
    using w w6 w1(2) unfolding w'(4) sockets7 by (auto simp: serving_def fresh_store_def)
  moreover have "chatters w' = []" "chat_heap.more w6 = chat_heap.more w'"
    using w'(9) w7(9) chatters6 by (cases w'; cases w6; cases ?w7; simp)+
  moreover have call': "main_setup G g w = Some (Some a, EXIT_SUCCESS, ?w2)" using call ok by simp
  with serve dispose have "chat_main L G sigint g w = Some (EXIT_SUCCESS, w')"
    by (simp add: chat_main_def)
  ultimately show ?thesis
    using w' w7 w6 w1(1) conns6 blocks6 chatters6 call' runs dispose
    by (intro exI [of _ ?w2] exI [of _ w4] exI [of _ w'] exI [of _ w6]) (simp add: serving_def)
qed

end

section \<open>Two observers\<close>

text \<open>One that sees nothing, and one that sees how what has been delivered since the start has made the room,
  with the service that the memory has allowed.\<close>

sublocale chat_jansson \<subseteq> blind: observer E a n "\<lambda>_. True"
  for a n
  by unfold_locales

context chat_jansson
begin

lemma blind_observer: "observer E a n (\<lambda>_. True)"
  by (rule blind.observer_axioms)

end

definition room_seen ::
  "(nat \<Rightarrow> nat \<Rightarrow> texts) \<Rightarrow> (('j history) chat_heap_scheme \<Rightarrow> bool) \<Rightarrow> (string \<Rightarrow> bool) \<Rightarrow> ('j, 'e) chat_env_scheme
     \<Rightarrow> addr \<Rightarrow> ('j history) chat_heap_scheme \<Rightarrow> bool" where
  "room_seen T K S E a w \<longleftrightarrow>
     (\<exists>r. list_all loop_event (map fst (trace w)) \<and> room_story T E (trace w) empty_room_state r \<and>
        in_room K S E (user_protocol a) w r)"

lemma in_room_user: "lp_user lp' = lp_user lp \<Longrightarrow> in_room K S E lp' w r = in_room K S E lp w r"
  by (simp add: in_room_def room_rel_def sound_user [of lp' lp])

context room_service
begin

lemma in_room_other:
  assumes "in_room K S E lp w r"
  shows "in_room K S E lp (w\<lparr>servers := ss\<rparr>) r" and "in_room K S E lp (w\<lparr>is_shutdown_requested := b\<rparr>) r"
    and "in_room K S E lp (noting f w) r"
proof -
  from assms obtain M P where w: "room_rel K S E lp w M P" and r: "r = room_of w P"
    unfolding in_room_def by (elim exE conjE)
  have "K (w\<lparr>servers := ss\<rparr>)" "K (w\<lparr>is_shutdown_requested := b\<rparr>)" "K (noting f w)"
    using room_rel_facts(2) [OF w] by (auto elim: K_same)
  with w have "room_rel K S E lp (w\<lparr>servers := ss\<rparr>) M P" "room_rel K S E lp (w\<lparr>is_shutdown_requested := b\<rparr>) M P"
    "room_rel K S E lp (noting f w) M P"
    using sound_other [of E lp w P] by (auto simp: room_rel_def)
  moreover have "r = room_of (w\<lparr>servers := ss\<rparr>) P" "r = room_of (w\<lparr>is_shutdown_requested := b\<rparr>) P"
    "r = room_of (noting f w) P"
    by (simp_all add: r room_of_def wsi_of_def texts_of_def fun_eq_iff)
  ultimately show "in_room K S E lp (w\<lparr>servers := ss\<rparr>) r" and "in_room K S E lp (w\<lparr>is_shutdown_requested := b\<rparr>) r"
    and "in_room K S E lp (noting f w) r"
    unfolding in_room_def by blast+
qed

end

lemma run_trace:
  assumes "chat_jansson E" and "steps E (chat_user E) lp w es w'" and "sound E chat_protocol chat_inv lp w P"
  shows "trace w' = trace w"
  using chat_jansson.chat_run_keeps [OF assms] by (simp add: chat_keeps_def)

text \<open>A service for states that carry the trace.\<close>

locale traced_service = room_service E T K S
  for E :: "('j, 'e) chat_env_scheme" and T and K :: "('j history) chat_heap_scheme \<Rightarrow> bool" and S

sublocale traced_service \<subseteq> watching: observer E a remember "room_seen T K S E a"
  for a
proof unfold_locales
  fix lp es P and w w' :: "('j history) chat_heap_scheme"
  let ?h = "history E (chat_user E) lp es w"
  assume run: "steps E (chat_user E) lp w es w'" and sound: "sound E chat_protocol chat_inv lp w P"
    and lp: "lp_user lp = Some a" and es: "list_all loop_event es" and "room_seen T K S E a w"
  then obtain r where seen: "list_all loop_event (map fst (trace w))" "room_story T E (trace w) empty_room_state r"
    and r: "in_room K S E (user_protocol a) w r" unfolding room_seen_def by blast
  have user: "lp_user (user_protocol a) = lp_user lp" using lp by (simp add: user_protocol_def)
  from room_refines [OF run _ es] r obtain r'
    where story: "room_story T E ?h r r'" and r': "in_room K S E lp w' r'" unfolding in_room_user [OF user] by blast
  have "trace (noting (remember ?h) w') = trace w @ ?h"
    by (simp add: remember_def run_trace [OF chat_jansson_axioms run sound])
  moreover have "list_all loop_event (map fst (trace w @ ?h))"
    using seen(1) es by (simp add: history_events [OF run])
  ultimately show "room_seen T K S E a (noting (remember ?h) w')"
    using room_story_append [OF seen(2) story] in_room_other(3) [OF r']
    unfolding room_seen_def in_room_user [OF user] by (intro exI [of _ r']) simp
next
  fix ss b and w :: "('j history) chat_heap_scheme"
  show "room_seen T K S E a (w\<lparr>servers := ss\<rparr>)" "room_seen T K S E a (w\<lparr>is_shutdown_requested := b\<rparr>)"
    if "room_seen T K S E a w"
    using that in_room_other unfolding room_seen_def by fastforce+
qed

context traced_service
begin

lemma program_room:
  assumes w: "fresh_store w" and oom: "\<not> oom w (clock w)" "\<not> oom w (Suc (clock w))" and K: "K w"
    and empty: "conns w = Map.empty" "blocks w = Map.empty" "chatters w = []" "lws_log w = []" "trace w = []"
    and os: "yields G g os" "settings os = Some es" "list_all is_setting os"
    and L: "plays_noted remember E (clock w) L" and sigint: "sigint k" "\<forall>j < k. \<not> sigint j"
  shows "\<exists>w'. chat_main L G sigint g w = Some (EXIT_SUCCESS, w') \<and> list_all loop_event (map fst (trace w')) \<and>
    room_story T E (trace w') empty_room_state (Map.empty, Map.empty, Map.empty, \<lambda>s. written s (lws_log w'))"
proof -
  have init: "\<forall>x. fresh_server chat_protocol (user_protocol (clock w)) x \<and> chatters x = [] \<and> lws_log x = lws_log w \<and>
      oom x = oom w \<and> trace x = trace w \<longrightarrow> room_seen T K S E (clock w) x"
  proof (intro allI impI, elim conjE)
    fix x :: "('j history) chat_heap_scheme"
    assume that: "fresh_server chat_protocol (user_protocol (clock w)) x" "chatters x = []" "lws_log x = lws_log w"
      "oom x = oom w" "trace x = trace w"
    have "in_room K S E (user_protocol (clock w)) x empty_room_state"
      using in_empty_room [OF that(1,2)] that(3) empty(4) K_same [OF K that(4)] by simp
    then show "room_seen T K S E (clock w) x"
      unfolding room_seen_def that(5) empty(5) by (intro exI [of _ empty_room_state]) simp
  qed
  from watching.program_spec [OF w oom refl empty(1-3) os L sigint init]
  obtain w' x where main: "chat_main L G sigint g w = Some (EXIT_SUCCESS, w')" and seen: "room_seen T K S E (clock w) x"
    and x: "conns x = Map.empty" "chatters x = []" "lws_log x = lws_log w'" "trace x = trace w'" by blast
  from seen obtain M P where story: "list_all loop_event (map fst (trace x))" "room_story T E (trace x) empty_room_state (room_of x P)"
    and "room_rel K S E (user_protocol (clock w)) x M P" unfolding room_seen_def in_room_def by blast
  then have "dom P = {}" using x(1) room_rel_facts(6) by fastforce
  then have "room_of x P = (Map.empty, Map.empty, Map.empty, \<lambda>s. written s (lws_log w'))"
    by (simp add: room_of_def x members_of_def wsi_of_def texts_of_def fun_eq_iff)
  with main story x(4) show ?thesis by auto
qed

end

text \<open>Both services of the chat server, with enough memory and without, are such services.\<close>

sublocale chat_room \<subseteq> traced: traced_service E "\<lambda>lo hi. full_texts E" no_oom "\<lambda>s. utf8 E {s}"
  by (rule traced_service.intro [OF full_service])

sublocale chat_jansson_failing \<subseteq> traced: traced_service E "service E (\<lambda>n. fails n \<or> B n)" "\<lambda>w. oom w = fails" "sendable E"
  for fails
  by (rule traced_service.intro [OF lossy_service])

context chat_room
begin

lemma full_traced: "traced_service E (\<lambda>lo hi. full_texts E) no_oom (\<lambda>s. utf8 E {s})"
  by (rule traced.traced_service_axioms)

end

context chat_jansson_failing
begin

lemma lossy_traced: "traced_service E (service E (\<lambda>n. fails n \<or> B n)) (\<lambda>w. oom w = fails) (sendable E)"
  by (rule traced.traced_service_axioms)

end

section \<open>An instance of libwebsockets\<close>

text \<open>In every run a client connects, if it has not yet, takes a name and is served once; in the end all
  sessions are closed in the order of their addresses, and the adopted descriptor with them. What is delivered is noted
  with \<open>n\<close>.\<close>

definition world_api ::
  "(json history \<Rightarrow> 'a \<Rightarrow> 'a) \<Rightarrow> json chat_env \<Rightarrow> ('a chat_heap_scheme) lws_api" where
  "world_api n E =
     \<lparr>lws_create_context = (\<lambda>a w. map_option (Pair (Some 99)) (serve_noted n E a [Protocol_init 1] w)),
      lws_service = (\<lambda>ctx t. serve_noted n E 0
        [Established 0 5, Received 0 (print_json (name_request ''ann'')), Can_write 0]),
      lws_context_destroy = (\<lambda>ctx w. map_option (close_adopted True 0)
        (serve_noted n E 0 (map Closed (sorted_list_of_set (dom (conns w)))) w))\<rparr>"

lemma world_api_plays: "plays_noted n E 0 (world_api n E)"
  unfolding plays_noted_def
proof (intro conjI allI)
  fix w :: "'a chat_heap_scheme" and ctx t
  show "\<exists>ctx es. list_all internal es \<and>
      lws_create_context (world_api n E) 0 w = map_option (Pair ctx) (serve_noted n E 0 es w)"
    by (intro exI [of _ "Some 99"] exI [of _ "[Protocol_init 1]"]) (simp add: world_api_def)
  show "\<exists>es. list_all loop_event es \<and> lws_service (world_api n E) ctx t w = serve_noted n E 0 es w"
    by (intro exI [of _ "[Established 0 5, Received 0 (print_json (name_request ''ann'')), Can_write 0]"])
       (simp add: world_api_def)
  show "\<exists>es cs adopted. list_all (\<lambda>e. loop_event e \<and> \<not> opens e) es \<and>
      (finite (dom (conns w)) \<longrightarrow> set cs = dom (conns w)) \<and>
      lws_context_destroy (world_api n E) ctx w =
        map_option (close_adopted adopted 0) (serve_noted n E 0 (es @ map Closed cs) w)"
    by (intro exI [of _ "[]"] exI [of _ "sorted_list_of_set (dom (conns w))"] exI [of _ True])
       (simp add: world_api_def)
qed

text \<open>The example state with an empty trace.\<close>

definition traced_chat :: "nat set \<Rightarrow> (json history) chat_heap_scheme" where
  "traced_chat bad = chat_heap.extend (example_chat bad) []"

lemma traced_chat_simps [simp]:
  "clock (traced_chat bad) = 0" "oom (traced_chat bad) = (\<lambda>i. i \<in> bad)" "fresh_store (traced_chat bad)"
  "conns (traced_chat bad) = Map.empty" "blocks (traced_chat bad) = Map.empty" "chatters (traced_chat bad) = []"
  "lws_log (traced_chat bad) = []" "trace (traced_chat bad) = []"
  by (simp_all add: traced_chat_def example_chat_def fresh_store_def chat_heap.extend_def)

section \<open>Properties\<close>

text \<open>C2. The program as a whole always ends well and leaves nothing behind: with valid options, whatever
  libwebsockets plays (any sessions, bytes, callbacks and wakeups in any order, contexts that cannot be
  created) and whatever allocations fail after the first two, when SIGINT arrives \<open>main\<close> returns
  \<open>EXIT_SUCCESS\<close> without undefined behaviour; all sessions are closed, and every message block, string,
  server, protocol structure, descriptor and reference to a JSON value that was acquired has been released.\<close>

theorem chat_program_releases:
  fixes w :: "'a chat_heap_scheme"
  assumes E: "chat_jansson E" and w: "fresh_store w" and oom: "\<not> oom w (clock w)" "\<not> oom w (Suc (clock w))"
    and empty: "conns w = Map.empty" "blocks w = Map.empty" "chatters w = []"
    and os: "yields G g os" "settings os = Some es" "list_all is_setting os"
    and L: "plays_events E (clock w) L" and sigint: "sigint k" "\<forall>j < k. \<not> sigint j"
  shows "\<exists>w'. chat_main L G sigint g w = Some (EXIT_SUCCESS, w') \<and> conns w' = Map.empty \<and> chatters w' = [] \<and>
    blocks w' = Map.empty \<and> cstrs w' = cstrs w \<and> servers w' = servers w \<and> protos w' = protos w \<and>
    dom (sockets w') = dom (sockets w) \<and> json_refs w' = json_refs w"
  using observer.program_spec [OF chat_jansson.blind_observer [OF E] w oom refl empty os _ sigint,
      where n = forget and L = L] L unfolding plays_forget by blast

theorem chat_program_releases_witness:
  "\<exists>w'. chat_main (world_api forget ref_chat_env) gnu_getopt (\<lambda>n. 3 \<le> n) (example_args, []) (example_chat {2, 17, 30}) = Some (EXIT_SUCCESS, w') \<and>
    blocks w' = Map.empty \<and> json_refs w' = json_refs (example_chat {2, 17, 30})"
proof -
  let ?w = "example_chat {2, 17, 30}"
  have oom: "\<not> oom ?w (clock ?w)" "\<not> oom ?w (Suc (clock ?w))" by simp_all
  have os: "list_all is_setting example_opts" by (simp add: example_opts_def is_setting_def)
  have L: "plays_events ref_chat_env (clock ?w) (world_api forget ref_chat_env)" using world_api_plays [of forget] by (simp add: plays_forget)
  have sigint: "(3 :: nat) \<le> 3" "\<forall>j < 3. \<not> 3 \<le> (j :: nat)" by simp_all
  from chat_program_releases [OF chat_ref.chat_jansson_axioms example_chat_simps(3) oom example_chat_simps(8,9,10)
      example_yields example_settings(1) os L sigint]
  show ?thesis by blast
qed

text \<open>C3. The program as a whole is a chat room: as long as memory lasts, what it writes on the websockets
  from its start to its end is what the abstract room writes when it is taken, from the empty room, along exactly the events that
  libwebsockets has delivered in that time, in their order; and in the end nobody is left in the room. The trace starts
  empty, and libwebsockets, which may play anything, notes in it every event when it delivers it.\<close>

theorem chat_program_is_room:
  fixes E :: "('j, 'e) chat_env_scheme" and w :: "('j history) chat_heap_scheme"
  assumes E: "chat_jansson_total E" and good: "good_strings E" and w: "fresh_store w" and oom: "no_oom w"
    and empty: "conns w = Map.empty" "blocks w = Map.empty" "chatters w = []" "lws_log w = []" "trace w = []"
    and os: "yields G g os" "settings os = Some es" "list_all is_setting os"
    and L: "plays_noted remember E (clock w) L" and sigint: "sigint k" "\<forall>j < k. \<not> sigint j"
  shows "\<exists>w'. chat_main L G sigint g w = Some (EXIT_SUCCESS, w') \<and> list_all loop_event (map fst (trace w')) \<and>
    room_story (\<lambda>lo hi. full_texts E) E (trace w') empty_room_state
      (Map.empty, Map.empty, Map.empty, \<lambda>s. written s (lws_log w'))"
proof -
  have "chat_room E" using E good by (simp add: chat_room_def chat_room_axioms_def)
  moreover have oom': "\<not> oom w n" for n using oom by (simp add: no_oom_def)
  ultimately show ?thesis
    using traced_service.program_room [OF chat_room.full_traced w oom' oom' oom empty os L sigint]
    by blast
qed

theorem chat_program_is_room_witness:
  "\<exists>w'. chat_main (world_api remember ref_chat_env) gnu_getopt (\<lambda>n. 3 \<le> n) (example_args, []) (traced_chat {}) = Some (EXIT_SUCCESS, w') \<and>
    list_all loop_event (map fst (trace w')) \<and>
    room_story (\<lambda>lo hi. full_texts ref_chat_env) ref_chat_env (trace w') empty_room_state
      (Map.empty, Map.empty, Map.empty, \<lambda>s. written s (lws_log w'))"
proof -
  let ?w = "traced_chat {}"
  have oom: "no_oom ?w" by (simp add: no_oom_def)
  have os: "list_all is_setting example_opts" by (simp add: example_opts_def is_setting_def)
  have L: "plays_noted remember ref_chat_env (clock ?w) (world_api remember ref_chat_env)" using world_api_plays by simp
  have sigint: "(3 :: nat) \<le> 3" "\<forall>j < 3. \<not> 3 \<le> (j :: nat)" by simp_all
  from chat_program_is_room [OF chat_ref.chat_jansson_total_axioms ref_room.strings traced_chat_simps(3) oom
      traced_chat_simps(4-8) example_yields example_settings(1) os L sigint]
  show ?thesis by blast
qed

text \<open>C13. The program as a whole under failing allocations: whatever fails after the first two requests, in the library
  (\<open>oom\<close>) or in the calls of jansson (\<open>B\<close>), what the program writes on the websockets from its start to its end is what the
  room writes along exactly the events that libwebsockets has delivered, and in the end nobody is left in the room. Texts are
  missing or incomplete only in events in which a request has failed, nobody is sent anything else, and a text that has arrived is passed over only if
  \<open>json_loadb\<close> gives no request and no chat message for it in that very call.\<close>

theorem chat_program_under_failure:
  fixes E :: "('j, 'e) chat_env_scheme" and w :: "('j history) chat_heap_scheme"
  assumes E: "chat_jansson_failing E B" and w: "fresh_store w" and oom: "\<not> oom w (clock w)" "\<not> oom w (Suc (clock w))"
    and empty: "conns w = Map.empty" "blocks w = Map.empty" "chatters w = []" "lws_log w = []" "trace w = []"
    and os: "yields G g os" "settings os = Some es" "list_all is_setting os"
    and L: "plays_noted remember E (clock w) L" and sigint: "sigint k" "\<forall>j < k. \<not> sigint j"
  shows "\<exists>w'. chat_main L G sigint g w = Some (EXIT_SUCCESS, w') \<and> list_all loop_event (map fst (trace w')) \<and>
    room_story (service E (\<lambda>n. oom w n \<or> B n)) E (trace w') empty_room_state
      (Map.empty, Map.empty, Map.empty, \<lambda>s. written s (lws_log w'))"
  using traced_service.program_room [OF chat_jansson_failing.lossy_traced [OF E] w oom refl empty os L sigint] .

theorem chat_program_under_failure_witness:
  "\<exists>w'. chat_main (world_api remember (failing_chat {40} ref_chat_env)) gnu_getopt (\<lambda>n. 3 \<le> n) (example_args, [])
      (traced_chat {2, 17, 30}) = Some (EXIT_SUCCESS, w') \<and> list_all loop_event (map fst (trace w')) \<and>
    room_story (service (failing_chat {40} ref_chat_env) (\<lambda>n. n \<in> {2, 17, 30} \<or> n \<in> {40})) (failing_chat {40} ref_chat_env)
      (trace w') empty_room_state (Map.empty, Map.empty, Map.empty, \<lambda>s. written s (lws_log w'))"
proof -
  let ?w = "traced_chat {2, 17, 30}" and ?E = "failing_chat {40} ref_chat_env"
  have oom: "\<not> oom ?w (clock ?w)" "\<not> oom ?w (Suc (clock ?w))" by simp_all
  have os: "list_all is_setting example_opts" by (simp add: example_opts_def is_setting_def)
  have L: "plays_noted remember ?E (clock ?w) (world_api remember ?E)" using world_api_plays by simp
  have sigint: "(3 :: nat) \<le> 3" "\<forall>j < 3. \<not> 3 \<le> (j :: nat)" by simp_all
  from chat_program_under_failure [OF failing_room.chat_jansson_failing_axioms traced_chat_simps(3) oom
      traced_chat_simps(4-8) example_yields example_settings(1) os L sigint]
  show ?thesis unfolding traced_chat_simps(2) by blast
qed

text \<open>C17. The program serves until it is told to stop: with valid options, whatever libwebsockets plays and whatever
  allocations fail after the first two, when SIGINT arrives after \<open>k\<close> runs, \<open>main\<close> has called
  \<open>jrpc_server_run\<close> exactly \<open>k\<close> times on the server that it has set up, every one of these calls has returned, then the server is disposed of,
  and the program ends with \<open>EXIT_SUCCESS\<close> and the server object, its protocol structure and its strings freed.\<close>

theorem main_serves_until_signal:
  fixes w :: "'a chat_heap_scheme"
  assumes E: "chat_jansson E" and w: "fresh_store w" and oom: "\<not> oom w (clock w)" "\<not> oom w (Suc (clock w))"
    and empty: "conns w = Map.empty" "blocks w = Map.empty" "chatters w = []"
    and os: "yields G g os" "settings os = Some es" "list_all is_setting os"
    and L: "plays_events E (clock w) L" and sigint: "sigint k" "\<forall>j < k. \<not> sigint j"
  shows "\<exists>w1 w2 w'. main_setup G g w = Some (Some (clock w), EXIT_SUCCESS, w1) \<and>
    repeat_call k (jrpc_server_run L (Some (clock w)) 1000) (w1\<lparr>is_shutdown_requested := False\<rparr>) = Some w2 \<and>
    jrpc_server_dispose L (Some (clock w)) (on_shutdown_requested SIGINT w2) = Some w' \<and>
    chat_main L G sigint g w = Some (EXIT_SUCCESS, w') \<and>
    servers w' = servers w \<and> protos w' = protos w \<and> cstrs w' = cstrs w"
  using observer.program_spec [OF chat_jansson.blind_observer [OF E] w oom refl empty os _ sigint,
      where n = forget and L = L] L unfolding plays_forget by blast

theorem main_serves_until_signal_witness:
  "\<exists>w1 w2 w'. main_setup gnu_getopt (example_args, []) (example_chat {17}) = Some (Some 0, EXIT_SUCCESS, w1) \<and>
    repeat_call 3 (jrpc_server_run (world_api forget ref_chat_env) (Some 0) 1000) (w1\<lparr>is_shutdown_requested := False\<rparr>) = Some w2 \<and>
    jrpc_server_dispose (world_api forget ref_chat_env) (Some 0) (on_shutdown_requested SIGINT w2) = Some w' \<and>
    chat_main (world_api forget ref_chat_env) gnu_getopt (\<lambda>n. 3 \<le> n) (example_args, []) (example_chat {17}) = Some (EXIT_SUCCESS, w') \<and>
    servers w' = Map.empty"
proof -
  let ?w = "example_chat {17}"
  have oom: "\<not> oom ?w (clock ?w)" "\<not> oom ?w (Suc (clock ?w))" by simp_all
  have os: "list_all is_setting example_opts" by (simp add: example_opts_def is_setting_def)
  have L: "plays_events ref_chat_env (clock ?w) (world_api forget ref_chat_env)"
    using world_api_plays [of forget] by (simp add: plays_forget)
  have sigint: "(3 :: nat) \<le> 3" "\<forall>j < 3. \<not> 3 \<le> (j :: nat)" by simp_all
  from main_serves_until_signal [OF chat_ref.chat_jansson_axioms example_chat_simps(3) oom example_chat_simps(8,9,10)
      example_yields example_settings(1) os L sigint]
  show ?thesis unfolding example_chat_simps by blast
qed

end
