(* ===== verification/Jrpc_Delivery.thy ===== *)
theory Jrpc_Delivery
  imports Jrpc_Loop
begin

text \<open>
  Progress of the event loop. \<open>Jrpc_Loop\<close> shows what cannot happen to a message; here, what does happen.
  Nothing is assumed of the order of the events: while a connection is open,
  each of its writeable callbacks writes the text that has waited longest, whatever happens on this and
  on the other connections in between. So a text is written at the latest with as many writeable callbacks
  as there are texts in front of it, and one more.
\<close>

section \<open>Writeable callbacks in a run\<close>

definition writeables :: "addr \<Rightarrow> 'j event list \<Rightarrow> nat" where
  "writeables c es = count_list es (Can_write c)"

lemma writeables_simps [simp]:
  "writeables c [] = 0"
  "writeables c (e # es) = (if e = Can_write c then Suc (writeables c es) else writeables c es)"
  by (auto simp: writeables_def)

lemma writeables_replicate [simp]: "writeables c (replicate n (Can_write c)) = n"
  by (induction n) auto

lemma written_at_least:
  assumes "prefix (xs @ ts) (ys @ us)" and "length xs + length ts \<le> length ys"
  shows "prefix (xs @ ts) ys"
  using assms by (auto intro: prefix_length_prefix)

context wired_handlers
begin

text \<open>The number of texts written grows with every writeable callback, until none waits.\<close>

lemma writeables_write:
  "steps E U lp w es w' \<Longrightarrow> sound E good I lp w P \<Longrightarrow> P c = Some ts \<Longrightarrow> wsi_of w c = Some s \<Longrightarrow>
   Closed c \<notin> set es \<Longrightarrow>
   length (written s (lws_log w)) + min (writeables c es) (length ts) \<le> length (written s (lws_log w'))"
proof (induction arbitrary: P ts rule: steps.induct)
  case (steps_Cons e w w1 es w2)
  from event_ok [OF steps_Cons.prems(1) steps_Cons.hyps(1)] steps_Cons.hyps(2)
  obtain P1 where P1: "sound E good I lp w1 P1" "dom P1 = open_after e (dom P)" "grows w P w1 P1"
    by auto
  have "c \<in> dom P1"
    using steps_Cons.prems(2,4) P1(2) by (cases e) auto
  then obtain ts1 where ts1: "P1 c = Some ts1" by blast
  with P1(3) steps_Cons.prems(2,3) have 1: "wsi_of w1 c = Some s" "prefix (sent_to s ts w) (sent_to s ts1 w1)"
    unfolding grows_def by blast+
  have IH: "length (written s (lws_log w1)) + min (writeables c es) (length ts1) \<le> length (written s (lws_log w2))"
    using steps_Cons.IH [OF P1(1) ts1 1(1)] steps_Cons.prems(4) by simp
  show ?case
  proof (cases "e = Can_write c")
    case True
    from can_write_exact [OF steps_Cons.prems(1,3,2)] True steps_Cons.hyps(2)
    have "sound E good I lp w1 (P(c \<mapsto> tl ts))" and log: "lws_log w1 = lws_log w @ writeable_events s ts" by auto
    then have "P1 = P(c \<mapsto> tl ts)"
      using models_unique [OF sound_models sound_models] P1(1) by blast
    then have "ts1 = tl ts" using ts1 by simp
    moreover have "length (written s (lws_log w1)) = length (written s (lws_log w)) + min 1 (length ts)"
      by (simp add: log written_writeable_events)
    ultimately show ?thesis using IH True by (cases ts) auto
  next
    case False
    have "length (written s (lws_log w)) \<le> length (written s (lws_log w1))"
      using grows_written [OF P1(3)] by (rule prefix_length_le)
    moreover have "length (written s (lws_log w)) + length ts \<le> length (written s (lws_log w1)) + length ts1"
      using prefix_length_le [OF 1(2)] by (simp add: sent_to_def)
    ultimately show ?thesis using IH False by simp
  qed
qed simp

lemma writeables_run:
  "sound E good I lp w P \<Longrightarrow> c \<in> dom P \<Longrightarrow> \<exists>w'. steps E U lp w (replicate n (Can_write c)) w'"
proof (induction n arbitrary: w P)
  case (Suc n)
  from run_event [OF Suc.prems(1) enabled_session(1) [OF Suc.prems]] obtain w1 P1
    where 1: "steps E U lp w [Can_write c] w1" "sound E good I lp w1 P1" "dom P1 = open_after (Can_write c :: 'j event) (dom P)"
    by blast
  have "c \<in> dom P1" using 1(3) Suc.prems(2) by simp
  from Suc.IH [OF 1(2) this] steps_append [OF 1(1)] show ?case by fastforce
qed (auto intro: steps_Nil)

lemma waiting_written:
  assumes run: "steps E U lp w es w'" and w: "sound E good I lp w P" and P: "P c = Some ts" "wsi_of w c = Some s"
    and es: "Closed c \<notin> set es" "length ts \<le> writeables c es"
  shows "prefix (written s (lws_log w) @ ts) (written s (lws_log w'))"
proof -
  from steps_sound [OF run w] obtain P' where w': "sound E good I lp w' P'" by blast
  from steps_grow [OF run w P es(1) w'] obtain ts'
    where "prefix (written s (lws_log w) @ ts) (written s (lws_log w') @ ts')"
    by (auto simp: sent_to_def)
  moreover have "length (written s (lws_log w)) + length ts \<le> length (written s (lws_log w'))"
    using writeables_write [OF run w P es(1)] es(2) by simp
  ultimately show ?thesis by (rule written_at_least)
qed

end

section \<open>Property\<close>

text \<open>C5. Bounded response: a text that waits in a reachable state is written, in its place behind those in
  front of it, in every run that gives its connection as many writeable callbacks as texts are
  waiting, whatever else happens in this run (sessions that come and go, messages received, texts added by
  handlers, wakeups, failing allocations, any interleaving with other connections), unless the
  connection is closed; and as long as texts wait, such a callback has been requested.\<close>

theorem loop_bounded_response:
  assumes W: "wired_handlers E U good I" and fresh: "fresh_server good lp w0" and I: "I w0 {}"
    and run: "steps E U lp w0 es0 w" and P: "models E w P" "P c = Some ts" "wsi_of w c = Some s"
    and more: "steps E U lp w es w'" and es: "Closed c \<notin> set es" "length ts \<le> writeables c es"
  shows "prefix (written s (lws_log w) @ ts) (written s (lws_log w')) \<and> (ts \<noteq> [] \<longrightarrow> wants s (lws_log w))"
proof -
  from wired_handlers.steps_sound [OF W run wired_handlers.fresh_sound [OF W fresh I]] obtain Q
    where Q: "sound E good I lp w Q" by blast
  then have "Q = P" using models_unique [OF sound_models P(1)] by blast
  with Q have w: "sound E good I lp w P" by simp
  then have "wants s (lws_log w)" if "ts \<noteq> []"
    using that P(2,3) inv_wants by (cases ts) (auto simp: sound_def)
  with wired_handlers.waiting_written [OF W more w P(2,3) es] show ?thesis by simp
qed

text \<open>The state with one session, in which nothing waits, and after a response to it.\<close>

lemma first_session:
  "steps ref_env idle_user example_lws (no_clients {}) [Established 0 5] (open_session (Some 0) 0 5 (no_clients {}))"
  "inv ref_env (open_session (Some 0) 0 5 (no_clients {})) [0 \<mapsto> []]"
proof -
  let ?w = "open_session (Some 0) 0 5 (no_clients {})"
  obtain p where p: "protos (two_clients {}) 0 = Some p" "default_protocol p" "p_server p = Some 0"
    using two_clients_proto [of "{}"] by blast
  then have proto: "protos (no_clients {}) 0 = Some p" by (simp add: no_clients_def)
  have none: "conns (no_clients {}) 0 = None" "wsi_of (no_clients {}) d \<noteq> Some 5" for d
    by (simp_all add: no_clients_def wsi_of_def)
  have "inv ref_env (no_clients {}) Map.empty"
    by (rule inv_empty) (use no_clients_fresh [of "{}"] in \<open>simp_all add: fresh_server_def\<close>)
  from inv_open_session [OF this none] show inv: "inv ref_env ?w [0 \<mapsto> []]" .
  have "request_writeable 5 (Some 0) ?w = Some ?w"
    using request_writeable_eq [OF inv_models [OF inv]] by simp
  then have "perform ref_env idle_user example_lws (Established 0 5) (no_clients {}) = Some ?w"
    using p proto by (simp add: callback_for_def jrpc_protocol_callback_def Let_def connection_init_eq example_lws_def
        default_protocol_def jrpc_default_onconnected_def)
  then show "steps ref_env idle_user example_lws (no_clients {}) [Established 0 5] ?w"
    using none by (intro steps_Cons steps_Nil) simp_all
qed

text \<open>A response is sent; before it is written somebody wakes the server up.\<close>

theorem loop_bounded_response_witness:
  "\<exists>w w' t. steps ref_env idle_user example_lws (no_clients {}) [Established 0 5, Respond 0 (Some (JInt 1)) 2] w \<and>
    models ref_env w [0 \<mapsto> [t]] \<and> steps ref_env idle_user example_lws w [Wakeup, Can_write 0] w' \<and>
    prefix (written 5 (lws_log w) @ [t]) (written 5 (lws_log w'))"
proof -
  let ?w0 = "open_session (Some 0) 0 5 (no_clients {})"
  have "\<not> oom ?w0 (clock ?w0 + 4)" by (simp add: open_session_def no_clients_def)
  from respond_posts [OF ref.jansson_total_axioms first_session(2) _ this, of 0 "[]" "Some (JInt 1)" 2]
  obtain w t where call: "jrpc_respond ref_env (Some 0) (Some (JInt 1)) 2 ?w0 = Some w" and inv: "inv ref_env w [0 \<mapsto> [t]]"
    and q: "quiet ref_env ?w0 [0 \<mapsto> []] w [0 \<mapsto> [t]]"
    by auto
  have e: "enabled example_lws (Respond 0 (Some (JInt 1)) 2) ?w0" by (simp add: open_session_def)
  have "steps ref_env idle_user example_lws ?w0 [Respond 0 (Some (JInt 1)) 2] w"
    using e call by (intro steps_Cons steps_Nil) simp_all
  with first_session(1) have run: "steps ref_env idle_user example_lws (no_clients {})
      ([Established 0 5] @ [Respond 0 (Some (JInt 1)) 2]) w" by (rule steps_append)
  note W = ref.default_handlers [of idle_user]
  from wired_handlers.steps_sound [OF W run wired_handlers.fresh_sound [OF W no_clients_fresh TrueI]] obtain P
    where "sound ref_env default_protocol (\<lambda>_ _. True) example_lws w P" by blast
  moreover have P: "models ref_env w [0 \<mapsto> [t]]" using inv by (rule inv_models)
  ultimately have w: "sound ref_env default_protocol (\<lambda>_ _. True) example_lws w [0 \<mapsto> [t]]"
    using models_unique [OF sound_models] by blast
  have s: "wsi_of w 0 = Some 5" using q by (simp add: quiet_def extends_def open_session_wsi)
  have "enabled example_lws (Wakeup :: json event) w" by simp
  from wired_handlers.run_event [OF W w this] obtain w1 P1
    where 1: "steps ref_env idle_user example_lws w [Wakeup] w1" "sound ref_env default_protocol (\<lambda>_ _. True) example_lws w1 P1"
      "0 \<in> dom P1" by auto
  from wired_handlers.run_event [OF W 1(2) enabled_session(1) [OF 1(2,3)]] obtain w2
    where 2: "steps ref_env idle_user example_lws w1 [Can_write 0] w2" by blast
  have more: "steps ref_env idle_user example_lws w [Wakeup, Can_write 0] w2"
    using steps_append [OF 1(1) 2] by simp
  have t: "[0 \<mapsto> [t]] 0 = Some [t]" by simp
  have "prefix (written 5 (lws_log w) @ [t]) (written 5 (lws_log w2))"
    using loop_bounded_response [OF W no_clients_fresh TrueI run P t s more] by simp
  with run P more show ?thesis by auto
qed

end
