(* ===== verification/Jrpc_Chat_Delivery.thy ===== *)
theory Jrpc_Chat_Delivery
  imports Jrpc_Chat_Room Jrpc_Delivery
begin

text \<open>
  Progress of the chat server: from the bytes of a chat message to the websockets of all participants, in
  every run of the event loop. \<open>Jrpc_Chat_Room\<close> has what the message puts into the mailboxes, and
  \<open>Jrpc_Delivery\<close> that what waits is written.
\<close>

context room_service
begin

lemma said:
  assumes w: "room_rel K S E lp w M P" and load: "json_loadb E (clock w) input = Some r"
    and call: "rpc_call E r ''chat'' params" and id: "rpc_id E r = None" and m: "string_element E params 0 m"
    and who: "map_of (chatters w) (Some c) = Some who"
    and step: "perform E (chat_user E) lp (Received c input) w = Some w'" and e: "enabled lp (Received c input :: 'j event) w"
  shows "\<exists>P'. sound E chat_protocol chat_inv lp w' P' \<and> wsi_of w' = wsi_of w \<and>
    (\<forall>s. written s (lws_log w') = written s (lws_log w)) \<and>
    (\<exists>lo hi. posted_to (dom P) (notices (T lo hi) ''message'' (chat_name who) m) P P')"
proof -
  note facts = room_rel_facts [OF w]
  have c: "c \<in> dom P" using e facts(6) by simp
  from facts(9) obtain p where p: "deref (protos w) (lp_user lp) = Some p" "chat_protocol p" by blast
  from member_entry [OF w c] who have S: "S (chat_name who)" by auto
  have message: "S ''message''" by (rule S_literal) (simp add: literals_def)
  from process_chat [OF facts(1-3) load call id p who m message S S_element [OF m]] obtain w1 P1
    where 1: "jrpc_protocol_process E (chat_user E) (lp_user lp) (Some c) input w = Some w1" "inv E w1 P1"
      "posted_to (dom P) (notices (T (clock w) (clock w1)) ''message'' (chat_name who) m) P P1"
    by blast
  from facts(1) c obtain s where s: "wsi_of w c = Some s" by (rule inv_conn)
  have "c \<in> dom P1" using c 1(3) by (simp add: posted_to_def)
  from receive_event [OF 1(1,2) this s] step have "inv E w' P1" by auto
  moreover from wired_handlers.event_ok [OF chat_handlers facts(10) e] step obtain P'
    where "sound E chat_protocol chat_inv lp w' P'" by auto
  ultimately have "sound E chat_protocol chat_inv lp w' P1"
    using models_unique [OF sound_models inv_models] by blast
  moreover have "wsi_of w' = wsi_of w"
    using wired_handlers.event_sessions [OF chat_handlers facts(10) e step] by simp
  moreover have "texts_of w' = texts_of w"
    using event_texts [OF chat_jansson_axioms facts(10) e step] by simp
  then have "\<forall>s. written s (lws_log w') = written s (lws_log w)"
    by (simp add: texts_of_def [abs_def] fun_eq_iff)
  ultimately show ?thesis using 1(3) by blast
qed

text \<open>What is said is written behind what waited, when there have been writeable callbacks enough.\<close>

lemma said_and_written:
  assumes w: "room_rel K S E lp w M P" and load: "json_loadb E (clock w) input = Some r"
    and call: "rpc_call E r ''chat'' params" and id: "rpc_id E r = None" and m: "string_element E params 0 m"
    and who: "map_of (chatters w) (Some c) = Some who" and P: "P d = Some ts" "wsi_of w d = Some s"
    and run: "steps E (chat_user E) lp w (Received c input # es) w'" and es: "Closed d \<notin> set es"
  shows "\<exists>us lo hi. notices (T lo hi) ''message'' (chat_name who) m us \<and>
    (length (ts @ us) \<le> writeables d es \<longrightarrow> prefix (written s (lws_log w) @ ts @ us) (written s (lws_log w')))"
proof -
  from run obtain w1 where e: "enabled lp (Received c input :: 'j event) w"
    and step: "perform E (chat_user E) lp (Received c input) w = Some w1" and rest: "steps E (chat_user E) lp w1 es w'"
    by (rule steps_ConsE)
  from said [OF w load call id m who step e] obtain P1 lo hi
    where 1: "sound E chat_protocol chat_inv lp w1 P1" "wsi_of w1 = wsi_of w"
      "\<forall>s. written s (lws_log w1) = written s (lws_log w)"
      "posted_to (dom P) (notices (T lo hi) ''message'' (chat_name who) m) P P1" by blast
  from 1(4) P(1) obtain us where us: "notices (T lo hi) ''message'' (chat_name who) m us" "P1 d = Some (ts @ us)"
    unfolding posted_to_def by (metis domI)
  have "wsi_of w1 d = Some s" using P(2) 1(2) by simp
  from wired_handlers.waiting_written [OF chat_handlers rest 1(1) us(2) this es] us(1) 1(3) show ?thesis by auto
qed

end

section \<open>Property\<close>

text \<open>C7. A chat message is written to everybody: in every reachable state, when the bytes of a notification \<open>chat\<close> with
  the string \<open>m\<close> arrive, then in every run that follows each open connection \<open>d\<close> that stays open has been
  written all that waited for it and then the notification \<open>message\<close> with the sender's name and \<open>m\<close>, as soon as it has
  had one writeable callback more than texts waited, whatever else happens meanwhile, as long as memory lasts.\<close>

theorem chat_message_delivered:
  fixes E :: "('j, 'e) chat_env_scheme" and w :: "'a chat_heap_scheme"
  assumes E: "chat_jansson_total E" and good: "good_strings E" and fresh: "fresh_server chat_protocol lp w0"
    and empty: "chatters w0 = []" "lws_log w0 = []" and oom: "no_oom w0"
    and run: "steps E (chat_user E) lp w0 es0 w" and es0: "list_all loop_event es0"
    and load: "json_loadb E (clock w) input = Some r" and call: "rpc_call E r ''chat'' params"
    and id: "rpc_id E r = None" and m: "string_element E params 0 m"
    and who: "map_of (chatters w) (Some c) = Some who"
    and P: "models E w P" "P d = Some ts" "wsi_of w d = Some s"
    and more: "steps E (chat_user E) lp w (Received c input # es) w'"
    and es: "Closed d \<notin> set es" "length ts < writeables d es"
  shows "\<exists>t. pair_text E ''message'' (chat_name who) m t \<and>
    prefix (written s (lws_log w) @ ts @ [t]) (written s (lws_log w'))"
proof -
  have "chat_room E" using E good by (simp add: chat_room_def chat_room_axioms_def)
  note R = chat_room.full_service [OF this]
  from room_service.room_refines [OF R run room_service.in_empty_room [OF R fresh empty oom] es0]
  obtain M Q where w: "room_rel no_oom (\<lambda>s. utf8 E {s}) E lp w M Q" by (auto simp: in_room_def)
  then have "Q = P" using models_unique [OF inv_models [OF room_rel_facts(1) [OF w]] P(1)] by blast
  from room_service.said_and_written [OF R w [unfolded this] load call id m who P(2,3) more es(1)]
  show ?thesis using es(2) by (auto simp: full_texts_def)
qed

theorem chat_message_delivered_witness:
  "\<exists>w w' who s ts t. steps ref_chat_env (chat_user ref_chat_env) example_lws (empty_room {}) [Established 0 5] w \<and>
    map_of (chatters w) (Some 0) = Some who \<and> wsi_of w 0 = Some s \<and>
    steps ref_chat_env (chat_user ref_chat_env) example_lws w
      (Received 0 ''{\"method\":\"chat\",\"params\":[\"hi\"]}'' # replicate (Suc (length ts)) (Can_write 0)) w' \<and>
    pair_text ref_chat_env ''message'' (chat_name who) ''hi'' t \<and>
    prefix (written s (lws_log w) @ ts @ [t]) (written s (lws_log w'))"
proof -
  let ?E = "ref_chat_env" and ?input = "''{\"method\":\"chat\",\"params\":[\"hi\"]}''"
  note R = ref_room.full_service and W = chat_ref.chat_handlers
  have empty: "chatters (empty_room {}) = []" "lws_log (empty_room {}) = []" "no_oom (empty_room {})"
    by (simp_all add: empty_room_def no_oom_def)
  have es0: "list_all loop_event [Established 0 5 :: json event]" by simp
  have "chat_inv (empty_room {}) {}" by (simp add: empty_room_def chat_inv_def table_ok_def names_unique_def)
  from wired_handlers.fresh_sound [OF W empty_room_fresh this]
  have 0: "sound ?E chat_protocol chat_inv example_lws (empty_room {}) Map.empty" .
  have e: "enabled example_lws (Established 0 5 :: json event) (empty_room {})" by (simp add: empty_room_def wsi_of_def)
  from wired_handlers.run_event [OF W 0 e] obtain w Q
    where run: "steps ?E (chat_user ?E) example_lws (empty_room {}) [Established 0 5] w"
      and Q: "sound ?E chat_protocol chat_inv example_lws w Q" "0 \<in> dom Q" by auto
  from room_service.room_refines [OF R run room_service.in_empty_room [OF R empty_room_fresh empty] es0]
  obtain M P where w: "room_rel no_oom (\<lambda>s. utf8 ?E {s}) ?E example_lws w M P" by (auto simp: in_room_def)
  note facts = room_rel_facts [OF w]
  have c: "0 \<in> dom P"
    using Q(2) sound_dom [OF Q(1)] facts(6) by simp
  from member_entry [OF w c] obtain who ts where who: "map_of (chatters w) (Some 0) = Some who" and P: "P 0 = Some ts" by blast
  from facts(1) c obtain s where s: "wsi_of w 0 = Some s" by (rule inv_conn)
  from wired_handlers.run_event [OF W facts(10) enabled_session(2) [OF facts(10) c], of ?input] obtain w1 P1
    where 1: "steps ?E (chat_user ?E) example_lws w [Received 0 ?input] w1" "sound ?E chat_protocol chat_inv example_lws w1 P1"
      "dom P1 = open_after (Received 0 ?input :: json event) (dom P)" by blast
  have "0 \<in> dom P1" using 1(3) c by simp
  from wired_handlers.writeables_run [OF W 1(2) this, of "Suc (length ts)"] obtain w'
    where "steps ?E (chat_user ?E) example_lws w1 (replicate (Suc (length ts)) (Can_write 0)) w'" by blast
  from steps_append [OF 1(1) this] have more: "steps ?E (chat_user ?E) example_lws w
      (Received 0 ?input # replicate (Suc (length ts)) (Can_write 0)) w'" by simp
  have call: "rpc_call ?E chat_request ''chat'' (JArray [JString ''hi''])" "rpc_id ?E chat_request = None"
    "string_element ?E (JArray [JString ''hi'']) 0 ''hi''"
    by (simp_all add: chat_request_def rpc_call_def rpc_id_def string_member_def string_element_def
        instance_defs ref_get_def ref_array_get_def)
  have "Closed 0 \<notin> set (replicate (Suc (length ts)) (Can_write 0))" "length ts < writeables 0 (replicate (Suc (length ts)) (Can_write 0))"
    by (simp_all del: replicate_Suc)
  from chat_message_delivered [OF chat_ref.chat_jansson_total_axioms ref_room.strings empty_room_fresh empty run es0
      chat_request_load call who inv_models [OF facts(1)] P s more this] run who s more
  show ?thesis by blast
qed

end
