(* ===== verification/Jrpc_Chat_Order.thy ===== *)
theory Jrpc_Chat_Order
  imports Jrpc_Chat_Room
begin

text \<open>
  What the participants hear, compared. From the refinement of \<open>Jrpc_Chat_Room\<close> it follows that the chat server
  is a totally ordered broadcast: in every run all participants are told the same notifications in the
  same order, in between each of them the answers to his own requests.
\<close>

text \<open>The texts \<open>us\<close> tell the notifications \<open>ns\<close>, each a method and two strings, and answers.\<close>

type_synonym notice = "string \<times> string \<times> string"

inductive tells :: "texts \<Rightarrow> string list \<Rightarrow> notice list \<Rightarrow> bool" for T where
  tells_nothing: "tells T [] []"
| tells_notice: "tells T us ns \<Longrightarrow> notices T name x y vs \<Longrightarrow> tells T (us @ vs) (ns @ [(name, x, y)])"
| tells_refusal: "tells T us ns \<Longrightarrow> refusals T code s i vs \<Longrightarrow> tells T (us @ vs) ns"
| tells_confirmation: "tells T us ns \<Longrightarrow> confirmations T name i vs \<Longrightarrow> tells T (us @ vs) ns"

lemma tells_append: "tells T us' ns' \<Longrightarrow> tells T us ns \<Longrightarrow> tells T (us @ us') (ns @ ns')"
proof (induction rule: tells.induct)
  case (tells_notice us' ns' name x y vs)
  from tells.tells_notice [OF tells_notice.IH [OF tells_notice.prems] tells_notice.hyps(2)] show ?case by simp
next
  case (tells_refusal us' ns' code s i vs)
  from tells.tells_refusal [OF tells_refusal.IH [OF tells_refusal.prems] tells_refusal.hyps(2)] show ?case by simp
next
  case (tells_confirmation us' ns' name i vs)
  from tells.tells_confirmation [OF tells_confirmation.IH [OF tells_confirmation.prems] tells_confirmation.hyps(2)]
  show ?case by simp
qed simp

lemma tells_one:
  "notices T name x y vs \<Longrightarrow> tells T vs [(name, x, y)]"
  "refusals T code s i vs \<Longrightarrow> tells T vs []"
  "confirmations T name i vs \<Longrightarrow> tells T vs []"
  using tells.intros(2-4) [OF tells_nothing] by simp_all

text \<open>Every connection that stays open is told \<open>ns\<close>.\<close>

definition told ::
  "texts \<Rightarrow> notice list \<Rightarrow> addr set \<Rightarrow> 'a chat_heap_scheme \<Rightarrow> mailbox \<Rightarrow> 'a chat_heap_scheme \<Rightarrow> mailbox \<Rightarrow> bool" where
  "told T ns left w P w' P' \<longleftrightarrow>
     (\<forall>c ts s. P c = Some ts \<longrightarrow> wsi_of w c = Some s \<longrightarrow> c \<notin> left \<longrightarrow>
        (\<exists>ts' us. P' c = Some ts' \<and> wsi_of w' c = Some s \<and> sent_to s ts' w' = sent_to s ts w @ us \<and> tells T us ns))"

definition leaves :: "'j event \<Rightarrow> addr set" where
  "leaves e = {c. e = Closed c}"

lemma told_trans:
  assumes "told T ns C w P w1 P1" and "told T ns' C' w1 P1 w2 P2"
  shows "told T (ns @ ns') (C \<union> C') w P w2 P2"
  unfolding told_def
proof (intro allI impI)
  fix c ts s
  assume "P c = Some ts" "wsi_of w c = Some s" "c \<notin> C \<union> C'"
  with assms(1) obtain ts1 us where 1: "P1 c = Some ts1" "wsi_of w1 c = Some s" "sent_to s ts1 w1 = sent_to s ts w @ us"
    "tells T us ns" unfolding told_def by blast
  with assms(2) \<open>c \<notin> C \<union> C'\<close> obtain ts2 us' where "P2 c = Some ts2" "wsi_of w2 c = Some s"
    "sent_to s ts2 w2 = sent_to s ts1 w1 @ us'" "tells T us' ns'" unfolding told_def by blast
  with 1 tells_append show "\<exists>ts' us. P2 c = Some ts' \<and> wsi_of w2 c = Some s \<and>
      sent_to s ts' w2 = sent_to s ts w @ us \<and> tells T us (ns @ ns')"
    by (intro exI [of _ ts2] exI [of _ "us @ us'"]) simp
qed

lemma posted_tells:
  assumes "posted_to C (notices T name x y) P P'" and "d \<in> C" and "P d = Some ts"
  shows "\<exists>us. P' d = Some (ts @ us) \<and> tells T us [(name, x, y)]"
proof -
  from assms(1,3) have "if d \<in> C then \<exists>us. notices T name x y us \<and> P' d = Some (ts @ us) else P' d = Some ts"
    unfolding posted_to_def by blast
  with assms(2) tells_one(1) show ?thesis by auto
qed

text \<open>What a step of the room adds to the mailboxes of those who stay; delivery only takes away.\<close>

definition all_told :: "texts \<Rightarrow> notice list \<Rightarrow> addr set \<Rightarrow> mailbox \<Rightarrow> mailbox \<Rightarrow> bool" where
  "all_told T ns left P P' \<longleftrightarrow>
     (\<forall>d ts. P d = Some ts \<longrightarrow> d \<notin> left \<longrightarrow> (\<exists>us. P' d = Some (ts @ us) \<and> tells T us ns))"

lemma all_told_none: "(\<And>d ts. P d = Some ts \<Longrightarrow> P' d = Some ts) \<Longrightarrow> all_told T [] C P P'"
  unfolding all_told_def using tells_nothing by fastforce

lemma all_told_posted: "posted_to (dom P) (notices T name x y) P P' \<Longrightarrow> all_told T [(name, x, y)] C P P'"
  unfolding all_told_def by (intro allI impI) (rule posted_tells [OF _ domI])

lemma room_step_tells:
  assumes "room_step T E n e (M, P) (M', P')" and "dom M = dom P" and "\<not> writes e"
  shows "\<exists>ns. all_told T ns (leaves e) P P'"
  using assms
proof (cases rule: room_step.cases)
  case (room_join c s)
  then have "P c = None" using assms(2) by (metis domIff)
  then have "all_told T [] (leaves e) P P'" by (intro all_told_none) (use room_join in auto)
  then show ?thesis by blast
next
  case (room_say c x input params m)
  then show ?thesis using all_told_posted by blast
next
  case (room_rename c ts input params i y us)
  have "all_told T [(''announce'', ''arrived'', y)] (leaves e) P P'"
    unfolding all_told_def
  proof (intro allI impI)
    fix d us0
    assume d: "P d = Some us0"
    then have told: "\<exists>us1. P' d = Some (ts1 @ us1) \<and> tells T us1 [(''announce'', ''arrived'', y)]"
      if "(P(c \<mapsto> ts @ us)) d = Some ts1" for ts1
      using posted_tells [OF room_rename(8) _ that] by blast
    show "\<exists>us. P' d = Some (us0 @ us) \<and> tells T us [(''announce'', ''arrived'', y)]"
    proof (cases "d = c")
      case True
      with d room_rename told [of "us0 @ us"] obtain us1
        where "P' d = Some (us0 @ us @ us1)" "tells T us1 [(''announce'', ''arrived'', y)]" by auto
      with tells_append [OF _ tells_one(3) [OF room_rename(7)]] show ?thesis by fastforce
    qed (use d told in auto)
  qed
  then show ?thesis by blast
next
  case (room_refuse c ts input name params i code s us)
  have "all_told T [] (leaves e) P P'"
    unfolding all_told_def
    using room_refuse tells_nothing tells_one(2) [OF room_refuse(7)] by auto
  then show ?thesis by blast
next
  case (room_leave c x P'')
  have "all_told T [(''announce'', ''gone'', x)] (leaves e) P P'"
    using all_told_posted [OF room_leave(5), of UNIV] all_told_posted [OF room_leave(5), of "{}"] room_leave
    by (auto simp: all_told_def leaves_def)
  then show ?thesis by blast
next
  case (room_deliver c ts)
  then show ?thesis using assms(3) by simp
qed (use all_told_none [of P P] in blast)+

lemma room_step_delivers:
  "room_step T E n (Can_write c) (M, P) (M', P') \<Longrightarrow> \<exists>ts. P c = Some ts \<and> P' = P(c \<mapsto> tl ts)"
  by (cases rule: room_step.cases) auto

section \<open>Events and runs\<close>

lemma delivery_tells:
  assumes inv: "inv E w P" and P: "P c = Some ts" and W: "wsi_of w' = wsi_of w"
    and X: "texts_of w' = texts_after (Can_write c) (wsi_of w) P (texts_of w)"
  shows "told T [] C w P w' (P(c \<mapsto> tl ts))"
  unfolding told_def
proof (intro allI impI)
  fix d us s
  assume d: "P d = Some us" and s: "wsi_of w d = Some s"
  from inv P obtain t where t: "wsi_of w c = Some t" by (meson domI inv_conn)
  show "\<exists>ts' us'. (P(c \<mapsto> tl ts)) d = Some ts' \<and> wsi_of w' d = Some s \<and> sent_to s ts' w' = sent_to s us w @ us' \<and>
      tells T us' []"
  proof (cases "d = c")
    case True
    have "take 1 ts @ tl ts = ts" by (cases ts) simp_all
    then have "sent_to s (tl ts) w' = sent_to s us w"
      using True d s t P fun_cong [OF X, of s] by (simp add: sent_to_def texts_of_def)
    with True s W tells_nothing show ?thesis by fastforce
  next
    case False
    then have "s \<noteq> t" using inv_wsi_inj [OF inv, of d c] d s t P by auto
    then have "sent_to s us w' = sent_to s us w"
      using t P fun_cong [OF X, of s] by (simp add: sent_to_def texts_of_def)
    with False s d W tells_nothing show ?thesis by fastforce
  qed
qed

context room_service
begin

text \<open>For a service that does not depend on the allocation requests.\<close>

lemma event_told:
  assumes T: "T = (\<lambda>lo hi. T0)" and w: "room_rel K S E lp w M P" and e: "enabled lp (e :: 'j event) w" "loop_event e"
    and call: "perform E (chat_user E) lp e w = Some w'"
  shows "\<exists>M' P' ns. room_rel K S E lp w' M' P' \<and> told T0 ns (leaves e) w P w' P'"
proof -
  note facts = room_rel_facts [OF w]
  from room_simulation [OF w e] call obtain M' P'
    where w': "room_rel K S E lp w' M' P'" and step: "room_step T0 E (clock w) e (M, P) (M', P')"
    by (auto simp: room_simulated_def T)
  have X: "texts_of w' = texts_after e (wsi_of w) P (texts_of w)"
    by (rule event_texts [OF chat_jansson_axioms facts(10) e(1) call])
  have W: "wsi_of w' = sessions_after e (wsi_of w)"
    by (rule wired_handlers.event_sessions [OF chat_handlers facts(10) e(1) call])
  show ?thesis
  proof (cases "writes e")
    case True
    then obtain c where c: "e = Can_write c" by (cases e) auto
    with step room_step_delivers obtain ts where "P c = Some ts" "P' = P(c \<mapsto> tl ts)" by blast
    with delivery_tells [OF facts(1)] W X c have "told T0 [] (leaves e) w P w' P'" by simp
    with w' show ?thesis by blast
  next
    case False
    from room_step_tells [OF step facts(5) False] obtain ns where ns: "all_told T0 ns (leaves e) P P'" by blast
    have X': "texts_of w' = texts_of w" using X False by (cases e) simp_all
    then have sent: "sent_to s (ts @ us) w' = sent_to s ts w @ us" for s ts us
      by (simp add: sent_to_def texts_of_def fun_eq_iff)
    have W': "wsi_of w' d = wsi_of w d" if "d \<in> dom P" "d \<notin> leaves e" for d
      using that W e facts(6) by (cases e) (auto simp: leaves_def)
    have "told T0 ns (leaves e) w P w' P'"
      unfolding told_def
    proof (intro allI impI)
      fix d ts s
      assume d: "P d = Some ts" "wsi_of w d = Some s" "d \<notin> leaves e"
      with ns obtain us where "P' d = Some (ts @ us)" "tells T0 us ns" unfolding all_told_def by blast
      with d W' [of d] sent show "\<exists>ts' us. P' d = Some ts' \<and> wsi_of w' d = Some s \<and>
        sent_to s ts' w' = sent_to s ts w @ us \<and> tells T0 us ns" by auto
    qed
    with w' show ?thesis by blast
  qed
qed

lemma run_told:
  assumes T: "T = (\<lambda>lo hi. T0)"
  shows "steps E (chat_user E) lp w es w' \<Longrightarrow> room_rel K S E lp w M P \<Longrightarrow> list_all loop_event es \<Longrightarrow>
    \<exists>M' P' ns. room_rel K S E lp w' M' P' \<and> told T0 ns {c. Closed c \<in> set es} w P w' P'"
proof (induction arbitrary: M P rule: steps.induct)
  case (steps_Nil w)
  have "told T0 [] {} w P w P"
    unfolding told_def using tells_nothing by (metis append_Nil2)
  with steps_Nil(1) show ?case by auto
next
  case (steps_Cons e w w1 es w2)
  from steps_Cons.prems have es: "loop_event e" "list_all loop_event es" by simp_all
  from event_told [OF T steps_Cons.prems(1) steps_Cons.hyps(1) es(1) steps_Cons.hyps(2)] obtain M1 P1 ns
    where 1: "room_rel K S E lp w1 M1 P1" "told T0 ns (leaves e) w P w1 P1" by blast
  from steps_Cons.IH [OF 1(1) es(2)] obtain M2 P2 ns'
    where 2: "room_rel K S E lp w2 M2 P2" "told T0 ns' {c. Closed c \<in> set es} w1 P1 w2 P2" by blast
  have "leaves e \<union> {c. Closed c \<in> set es} = {c. Closed c \<in> set (e # es)}" by (auto simp: leaves_def)
  with told_trans [OF 1(2) 2(2)] 2(1) show ?case by (intro exI [of _ M2] exI [of _ P2] exI [of _ "ns @ ns'"]) simp
qed

end

section \<open>Property\<close>

text \<open>C6. The chat server is a totally ordered broadcast. In every part \<open>es\<close> of a run of the program, as
  long as memory lasts, there is one list \<open>ns\<close> of notifications, each a method, the name of a participant and
  a string, that every participant is told who is there when the part begins and does not leave in it,
  whatever the callbacks, the clients' requests and the order of the table: what was written to his
  websocket and what waits for it grows by exactly these notifications, each of them once and in this order, and in between
  only by answers to requests.\<close>

theorem chat_same_order:
  fixes E :: "('j, 'e) chat_env_scheme" and w :: "'a chat_heap_scheme"
  assumes E: "chat_jansson_total E" and good: "good_strings E" and fresh: "fresh_server chat_protocol lp w0"
    and empty: "chatters w0 = []" "lws_log w0 = []" and oom: "no_oom w0"
    and before: "steps E (chat_user E) lp w0 es0 w" and run: "steps E (chat_user E) lp w es w'"
    and es: "list_all loop_event (es0 @ es)"
  shows "\<exists>P P' ns. models E w P \<and> models E w' P' \<and>
    (\<forall>c s ts. P c = Some ts \<longrightarrow> wsi_of w c = Some s \<longrightarrow> Closed c \<notin> set es \<longrightarrow>
       (\<exists>ts' us. P' c = Some ts' \<and> wsi_of w' c = Some s \<and>
          written s (lws_log w') @ ts' = written s (lws_log w) @ ts @ us \<and> tells (full_texts E) us ns))"
proof -
  have "chat_room E" using E good by (simp add: chat_room_def chat_room_axioms_def)
  note service = chat_room.full_service [OF this]
  from es have "list_all loop_event es0" "list_all loop_event es" by simp_all
  with room_service.room_refines [OF service before room_service.in_empty_room [OF service fresh empty oom]]
  obtain M P where w: "room_rel no_oom (\<lambda>s. utf8 E {s}) E lp w M P" by (auto simp: in_room_def)
  from room_service.run_told [OF service refl run w \<open>list_all loop_event es\<close>] obtain M' P' ns
    where w': "room_rel no_oom (\<lambda>s. utf8 E {s}) E lp w' M' P'"
      and told: "told (full_texts E) ns {c. Closed c \<in> set es} w P w' P'" by blast
  from inv_models [OF room_rel_facts(1) [OF w]] inv_models [OF room_rel_facts(1) [OF w']] told show ?thesis
    unfolding told_def sent_to_def by (intro exI [of _ P] exI [of _ P'] exI [of _ ns]) simp
qed

theorem chat_same_order_witness:
  "\<exists>w w' P P' ns. steps ref_chat_env (chat_user ref_chat_env) example_lws (empty_room {}) [Established 0 5] w \<and>
    steps ref_chat_env (chat_user ref_chat_env) example_lws w [Received 0 (print_json (name_request ''ann''))] w' \<and>
    models ref_chat_env w P \<and> models ref_chat_env w' P' \<and>
    (\<forall>c s ts. P c = Some ts \<longrightarrow> wsi_of w c = Some s \<longrightarrow>
       (\<exists>ts' us. P' c = Some ts' \<and> wsi_of w' c = Some s \<and>
          written s (lws_log w') @ ts' = written s (lws_log w) @ ts @ us \<and> tells (full_texts ref_chat_env) us ns))"
proof -
  let ?input = "print_json (name_request ''ann'')"
  have empty: "chatters (empty_room {}) = []" "lws_log (empty_room {}) = []" "no_oom (empty_room {})"
    by (simp_all add: empty_room_def no_oom_def)
  from chat_run_exists [of ?input] obtain w w'
    where before: "steps ref_chat_env (chat_user ref_chat_env) example_lws (empty_room {}) [Established 0 5] w"
      and run: "steps ref_chat_env (chat_user ref_chat_env) example_lws w [Received 0 ?input] w'"
    by (auto simp: steps_Cons_iff)
  have es: "list_all loop_event ([Established 0 5] @ [Received 0 ?input] :: json event list)" by simp
  from chat_same_order [OF chat_ref.chat_jansson_total_axioms ref_room.strings empty_room_fresh empty before run es]
    before run
  show ?thesis by (simp only: list.set empty_iff insert_iff event.distinct simp_thms) blast
qed

end
