(* ===== verification/Spec2Isabelle.thy ===== *)
theory Spec2Isabelle
  imports Jrpc_Run Jrpc_Chat_World Jrpc_Chat_Delivery Jrpc_Chat_Order
begin

text \<open>
  A verification of jrpc, a JSON-RPC server library on top of libwebsockets and jansson, and of the
  chat server that comes with it as an example.

  \<^bold>\<open>The program.\<close> An application creates a server (\<open>lib/jrpc/server.c\<close>), configures it and runs it;
  the server gives libwebsockets a callback (\<open>lib/jrpc/protocol.c\<close>). For each websocket session
  libwebsockets keeps a connection (\<open>lib/jrpc/connection.c\<close>) with a queue of messages that wait to be
  written (\<open>lib/jrpc/queue.c\<close>, \<open>lib/jrpc/message.c\<close>). A message received is parsed and handed to the
  application's \<open>onmethod\<close> or \<open>onnotify\<close> handler; handlers answer with \<open>jrpc_respond\<close>,
  \<open>jrpc_respond_error\<close> and \<open>jrpc_notify\<close>, which append a message to a queue and request a writeable
  callback; each writeable callback writes one message. A pair of sockets lets other threads wake
  the loop up. The chat server (\<open>example/chat-server/main.cc\<close>) keeps a table of the participants and
  broadcasts what they say.

  \<^bold>\<open>Theories.\<close>
  \<^item> \<open>Jrpc_Prelude\<close>: machine types, pointers, buffers, collections of rules.
  \<^item> \<open>Jrpc_Env\<close>: what comes from outside, the allocator and jansson; the locales \<open>jansson\<close> (every
    allocation may fail) and \<open>jansson_total\<close> (none does). \<open>Jrpc_Json\<close>: an instance with a printer
    and a parser, proved inverse, on which the examples run.
  \<^item> \<open>Jrpc_Message\<close> (\<open>message.h\<close>, \<open>message.c\<close>): the record \<open>jrpc_message\<close>, its heap block, creation
    and disposal, and what happens when the dump that stores a text gives less than the one that measured it.
  \<^item> \<open>Jrpc_Fifo\<close>: the contract of a queue over a store, a locale with its consequences for a
    family of queues in one store. \<open>Jrpc_Queue\<close> (\<open>queue.h\<close>, \<open>queue.c\<close>): the linked list, and the
    interpretation of the contract on it.
  \<^item> \<open>Jrpc_Connection\<close> (\<open>connection_intern.h\<close>, \<open>connection.c\<close>): the per-session state, sending, and
    the log of what libwebsockets is told. \<open>Jrpc_Mailbox\<close>: the abstract state, a list of
    texts per connection, with a refinement lemma per operation. \<open>Jrpc_Session\<close>: the invariant
    \<open>inv\<close> (mailbox, distinct websockets, whoever has waiting texts has requested a callback), and the
    content of responses, errors and notifications. \<open>Jrpc_Partial\<close>: what of this content is left when
    allocations of jansson fail.
  \<^item> \<open>Jrpc_Protocol\<close> (\<open>protocol.h\<close>, \<open>protocol.c\<close>, the handler types of \<open>include/jrpc/server.h\<close>): dispatch
    and every reason of the callback, the default handlers, the wakeup sockets. \<open>Jrpc_Callback\<close>: the
    contract of handlers (locales \<open>handlers\<close> and \<open>wired_handlers\<close>), the effect of each reason under
    it, and the proof that the default handlers keep it. \<open>Jrpc_Incoming\<close>: from received bytes to
    handlers and answers.
  \<^item> \<open>Jrpc_Loop\<close>: the runs of the event loop as a step relation over events, the invariant of all
    reachable states, delivery, draining, absence of leaks. \<open>Jrpc_Delivery\<close>: how many writeable
    callbacks suffice in a run of arbitrary other events. \<open>Jrpc_Frame\<close>: what each call into the
    library leaves alone, with the locale \<open>guarded_handlers\<close> (whatever relation all handlers keep,
    every run keeps) and the balance of JSON references over whole runs.
  \<^item> \<open>Jrpc_Server\<close> (\<open>server.c\<close>): creation, configuration, context, running, disposal.
    \<open>Jrpc_Config\<close>: the server as a record of five values, its strings (one locale, interpreted
    for each of the four setters), and a whole life. \<open>Jrpc_Run\<close>: what is served, and the step from a
    created server to the loop.
  \<^item> \<open>Jrpc_Chat\<close> (\<open>main.cc\<close>): the handlers of the chat server, the invariant of its table, and the
    proof that they keep the contract of handlers. \<open>Jrpc_Chat_Rules\<close>: what each handler sends, in the locale
    \<open>sender\<close> over a service, the texts that the library may add to a mailbox when something is said.
    \<open>Jrpc_Chat_Service\<close>: the same from the bytes that arrive, and in the event loop.
    A service is given the numbers of the allocation requests that are made while something is sent.
    \<open>Jrpc_Chat_Frame\<close>: what the handlers leave alone.
  \<^item> \<open>Jrpc_Room\<close>: the abstract chat room, a step relation on members, waiting texts, websockets
    and the texts written to them, for any service; the \<open>history\<close> of a run of the loop (its events, each with the
    allocation requests made in it) and the runs of the room along a history, \<open>room_story\<close>. \<open>Jrpc_Chat_Room\<close>: the simulation
    of every event of the loop by it (locale \<open>room_service\<close>), and the instance with enough memory. \<open>Jrpc_Chat_Lossy\<close>: the
    instance in which any allocation may fail (locale \<open>chat_jansson_failing\<close>, in which \<open>B\<close> are the calls of jansson
    that may fail): \<open>service\<close> is complete in an event in which no request fails and lossy in the others.
    \<open>Jrpc_Chat_Delivery\<close>: from the bytes of a chat message to everybody's websocket. \<open>Jrpc_Chat_Order\<close>: all
    participants are told the same in the same order.
  \<^item> \<open>Jrpc_Chat_Main\<close> (\<open>main.cc\<close>): command line, signal handler, main loop.
    \<open>Jrpc_Chat_World\<close>: the whole program, \<open>main\<close> with a libwebsockets that plays events to the
    callback; the locale \<open>observer\<close> (what every delivery of events keeps holds after the program), with the room
    as one observer. What libwebsockets has delivered is noted in a trace, an auxiliary part of the
    state that the program does not see; the room is run along this trace.

  \<^bold>\<open>The model.\<close> Every C function is a function of the same name from the state to an option of a
  result and a state. The state is one record that grows with the components: \<open>heap\<close> (allocator),
  \<open>jheap\<close> (references to JSON values), stores of message blocks, sessions, protocols, sockets,
  servers and strings, and the globals of the chat server; each is a partial map from addresses.
  \<^const>\<open>None\<close> is undefined behaviour or no return: a null, dangling or indeterminate pointer is
  used, something is freed twice, a store leaves its block, a loop does not end, a read blocks. So a theorem that a
  call is \<open>Some\<close> is one of memory safety and termination. Failures that the code handles are values
  inside \<open>Some\<close>. Allocation requests are numbered by \<open>clock\<close>, and \<open>oom n\<close> says whether request \<open>n\<close>
  fails; it is arbitrary, so the safety theorems cover every pattern of failures. Addresses are request
  numbers and never reused. Integers have their width (\<open>int\<close> 32, \<open>size_t\<close> and \<open>json_int_t\<close> 64 bits);
  the bound under which the size of a message does not wrap around is a law of \<open>jansson\<close>.

  \<^bold>\<open>Parameters.\<close> jansson (the record \<open>env\<close>), the functions of libwebsockets that create, run and destroy a
  context (\<open>lws_api\<close>), user handlers (\<open>user_code\<close>), \<open>getopt_long\<close>, the arrival of SIGINT, and the
  iteration order of an \<open>unordered_map\<close> after an insertion (\<open>rehash\<close>, any rearrangement). What is
  assumed of them is documented behaviour, stated in the locales or as named definitions
  (\<open>enabled\<close>, \<open>yields\<close>, \<open>plays_events\<close> and \<open>plays_noted\<close>), and each is instantiated for the examples.
  \<open>plays_events\<close> only says what libwebsockets may play: each function of libwebsockets delivers some events, in any order, to the
  protocol that it was given, and destroying the context closes the open sessions and perhaps the adopted wakeup socket.
  \<open>plays_noted\<close> is the same of a libwebsockets that also notes what it has delivered.

  \<^bold>\<open>Loops.\<close> The loop of \<open>jrpc_queue_cleanup\<close>, that of \<open>parse_arguments\<close> and that of \<open>main\<close> are partial
  functions, with theorems that they end. The only fuel is that of the JSON parser of
  \<open>Jrpc_Json\<close>: the length of the text, enough because each call consumes a character (\<open>parse_print\<close>).

  \<^bold>\<open>What the lemmas show.\<close> The queue is a FIFO that frees what it holds. Sending refines adding a text at the end of
  one mailbox. In every reachable state of the loop the next call is defined, no message is
  lost, duplicated, reordered, leaked or delivered to somebody else, and waiting messages
  can be drained. Responses, errors and notifications have the content asked for and balance
  references. A server leaks nothing from creation to disposal and serves what was configured. The
  chat server keeps the contract of handlers and so inherits the safety of the loop; its
  table has the open connections with unique names; messages, arrivals and departures
  reach everybody exactly once; every request is answered exactly once; and as long as memory lasts
  every run of library and handlers together is a run of the abstract chat room, also in what is written to each
  websocket. Its command line is equivalent to a list of setter calls and an exit code, and it
  serves until SIGINT. A text that waits is written after as many writeable callbacks as texts wait, whatever
  happens in between; so a chat message is written to everybody who stays, and all participants see the same
  notifications in the same order. When memory runs out, in the library or in jansson, every run
  still is a run of the room along the same events: in an event without a failed request everybody is told everything, in the
  others a text may be missing or lack some of its parts, but nobody is told anything else; a text that arrives is passed over
  only if the parser reads nothing from it that the chat server reacts to. The whole program, composed of all these parts and given options that only set values,
  returns success after SIGINT with no undefined call on the way, whatever allocations fail once the server object
  exists; when it returns no session, message, server, string, socket
  or JSON reference is left, and what it has written is what the abstract room writes along the events that libwebsockets has delivered,
  with the full service as long as memory lasts and with the one that the failures leave otherwise.

  Some theorems state defects: user data that is read before it is set is indeterminate, failures of
  \<open>socketpair\<close> and of \<open>jrpc_server_create\<close> (in the example) go unnoticed, an \<open>id\<close> outside of the range of
  \<open>int\<close> is not repeated, a response whose \<open>id\<close> cannot be allocated is sent without it, a message whose second dump gives less than the first is
  sent with uninitialised bytes, a port out of that range is undefined, a message that arrives in several
  fragments is dropped when no fragment is a JSON text by itself.

  \<^bold>\<open>Not modelled.\<close> The browser client of the example, the build and packaging files, the umbrella
  headers and macros of \<open>include/jrpc\<close> and \<open>lib/jrpc/util.h\<close> (no state, no operation). The internals of
  libwebsockets and jansson. \<open>lws_set_log_level\<close>, which only concerns log output. Exceptions of the C++
  library when memory runs out in the example. A failure of only the second of the two dumps of a value: by a law of
  \<open>jansson\<close> they agree, in the theorems about failing allocations, too (\<open>second_dump_unchecked\<close> is what happens otherwise); when both
  fail the text of the message is empty, and \<open>json_text\<close> says so. Sharing inside JSON values: values are trees, and
  reference counts are an account of what the program owns. Concurrency: the library is single
  threaded by its documentation, and a wakeup from another thread is one datagram.
  Every function and every type with fields of the C and C++ sources has its definition; what is left of these files are
  licences, documentation, includes and prototypes.
\<close>

end
